(* ===== verification/Prelude.thy ===== *)
theory Prelude
  imports Main "HOL-Library.Word" "HOL-Library.Sublist" "HOL-Library.Multiset"
begin

unbundle bit_operations_syntax

text \<open>
  Shared vocabulary of the development: machine-integer synonyms, the error type used for
  C++ exceptions, the byte view of 16-bit PCM samples, buffer copies, decimal formatting,
  substring search, and the collections of facts the component theories hand to the simplifier.
\<close>

section \<open>Fact collections\<close>

named_theorems cast_simps \<open>narrowing casts read back as numbers\<close>
named_theorems trace_simps \<open>what an operation appends to a call history\<close>

section \<open>Machine integers\<close>

type_synonym byte = "8 word"
type_synonym sample = "16 word"
type_synonym u16 = "16 word"
type_synonym u32 = "32 word"
type_synonym u64 = "64 word"

text \<open>A C++ \<open>static_cast\<close> of a signed 64-bit value to an unsigned type keeps the low bits.\<close>

definition cast_u16 :: "int \<Rightarrow> u16" where
  "cast_u16 v = word_of_int v"

definition cast_u32 :: "int \<Rightarrow> u32" where
  "cast_u32 v = word_of_int v"

lemma uint_cast_u16 [cast_simps]: "uint (cast_u16 v) = v mod 65536"
  by (simp add: cast_u16_def uint_word_of_int)

lemma uint_cast_u32 [cast_simps]: "uint (cast_u32 v) = v mod 4294967296"
  by (simp add: cast_u32_def uint_word_of_int)

lemma cast_u16_exact: "0 \<le> v \<Longrightarrow> v < 65536 \<Longrightarrow> uint (cast_u16 v) = v"
  by (simp add: uint_cast_u16)

lemma cast_u16_zero_iff: "cast_u16 v = 0 \<longleftrightarrow> v mod 65536 = 0"
  by (metis uint_0_iff uint_cast_u16)

section \<open>Exceptions as values\<close>

text \<open>A C++ function that may throw returns \<open>Inl e\<close> for the exception and \<open>Inr v\<close> otherwise.\<close>

fun bind_err :: "'e + 'a \<Rightarrow> ('a \<Rightarrow> 'e + 'b) \<Rightarrow> 'e + 'b" where
  "bind_err (Inl e) f = Inl e"
| "bind_err (Inr v) f = f v"

lemma bind_err_Inr_iff: "bind_err m f = Inr b \<longleftrightarrow> (\<exists>a. m = Inr a \<and> f a = Inr b)"
  by (cases m) auto

lemma case_sum_Inr_iff:
  "(case m of Inl e \<Rightarrow> Inl (h e) | Inr v \<Rightarrow> g v) = Inr c \<longleftrightarrow> (\<exists>v. m = Inr v \<and> g v = Inr c)"
  by (cases m) auto

text \<open>Run a throwing function over a list, stopping at the first exception.\<close>

fun map_err :: "('a \<Rightarrow> 'e + 'b) \<Rightarrow> 'a list \<Rightarrow> 'e + 'b list" where
  "map_err f [] = Inr []"
| "map_err f (x # xs) = bind_err (f x) (\<lambda>y. bind_err (map_err f xs) (\<lambda>ys. Inr (y # ys)))"

lemma map_err_Inr_iff: "map_err f xs = Inr ys \<longleftrightarrow> list_all2 (\<lambda>x y. f x = Inr y) xs ys"
proof (induction xs arbitrary: ys)
  case Nil
  then show ?case by auto
next
  case (Cons x xs)
  then show ?case by (cases ys) (auto simp: bind_err_Inr_iff)
qed

section \<open>PCM samples as bytes\<close>

text \<open>
  \<open>reinterpret_cast\<close> between \<open>opus_int16\<close> and \<open>uint8_t\<close> buffers, on the little-endian
  targets of the PulseAudio backend (the stream format is S16LE).
\<close>

definition sample_bytes :: "sample \<Rightarrow> byte list" where
  "sample_bytes s = [ucast s, ucast (drop_bit 8 s)]"

definition sample_of_bytes :: "byte \<Rightarrow> byte \<Rightarrow> sample" where
  "sample_of_bytes lo hi = ucast lo OR push_bit 8 (ucast hi)"

fun samples_of_bytes :: "byte list \<Rightarrow> sample list" where
  "samples_of_bytes (lo # hi # bs) = sample_of_bytes lo hi # samples_of_bytes bs"
| "samples_of_bytes bs = []"

definition bytes_of_samples :: "sample list \<Rightarrow> byte list" where
  "bytes_of_samples ss = concat (map sample_bytes ss)"


lemma sample_bytes_roundtrip [simp]: "sample_of_bytes (ucast s) (ucast (drop_bit 8 s)) = s"
  unfolding sample_of_bytes_def
  by (rule bit_word_eqI) (auto simp: bit_simps)

lemma samples_of_bytes_of_samples [simp]: "samples_of_bytes (bytes_of_samples ss) = ss"
  by (induction ss) (simp_all add: bytes_of_samples_def sample_bytes_def)

lemma length_bytes_of_samples [simp]: "length (bytes_of_samples ss) = 2 * length ss"
  by (induction ss) (simp_all add: bytes_of_samples_def sample_bytes_def)

lemma length_samples_of_bytes [simp]: "length (samples_of_bytes bs) = length bs div 2"
  by (induction bs rule: samples_of_bytes.induct) simp_all

lemma take_samples_of_bytes: "take n (samples_of_bytes bs) = samples_of_bytes (take (2 * n) bs)"
proof (induction bs arbitrary: n rule: samples_of_bytes.induct)
  case (1 lo hi bs)
  then show ?case by (cases n) simp_all
qed (simp_all add: take_Cons')

section \<open>Copies into fixed buffers\<close>

text \<open>
  Writing \<open>src\<close> at the start of a buffer of fixed size: as much as fits is copied and the
  rest of the buffer keeps its contents.
\<close>

definition overwrite :: "'a list \<Rightarrow> 'a list \<Rightarrow> 'a list" where
  "overwrite dst src = take (length dst) src @ drop (length src) dst"

lemma length_overwrite [simp]: "length (overwrite dst src) = length dst"
  by (simp add: overwrite_def)

lemma overwrite_full: "length src = length dst \<Longrightarrow> overwrite dst src = src"
  by (simp add: overwrite_def)

lemma take_overwrite: "n \<le> length src \<Longrightarrow> n \<le> length dst \<Longrightarrow> take n (overwrite dst src) = take n src"
  by (simp add: overwrite_def min_def)

section \<open>Text\<close>

definition digit_char :: "nat \<Rightarrow> char" where
  "digit_char n = char_of (48 + n)"

text \<open>\<open>std::format("{}", n)\<close> of an unsigned number.\<close>

fun show_nat :: "nat \<Rightarrow> string" where
  "show_nat n = (if n < 10 then [digit_char n] else show_nat (n div 10) @ [digit_char (n mod 10)])"

declare show_nat.simps [simp del]

text \<open>\<open>s.find(p) != std::string::npos\<close>.\<close>

fun contains_str :: "string \<Rightarrow> string \<Rightarrow> bool" where
  "contains_str p [] \<longleftrightarrow> p = []"
| "contains_str p (c # s) \<longleftrightarrow> prefix p (c # s) \<or> contains_str p s"

lemma contains_str_iff: "contains_str p s \<longleftrightarrow> (\<exists>a b. s = a @ p @ b)"
proof (induction s)
  case Nil
  then show ?case by auto
next
  case (Cons c s)
  show ?case
  proof
    assume "contains_str p (c # s)"
    then consider "prefix p (c # s)" | "contains_str p s" by auto
    then show "\<exists>a b. c # s = a @ p @ b"
    proof cases
      case 1
      then show ?thesis by (metis append_Nil prefix_def)
    next
      case 2
      then show ?thesis using Cons.IH by (metis append_Cons)
    qed
  next
    assume "\<exists>a b. c # s = a @ p @ b"
    then obtain a b where ab: "c # s = a @ p @ b" by blast
    show "contains_str p (c # s)"
    proof (cases a)
      case Nil
      with ab have "prefix p (c # s)" by (simp add: prefix_def)
      then show ?thesis by simp
    next
      case (Cons d a')
      with ab have "s = a' @ p @ b" by simp
      then have "contains_str p s" using Cons.IH by blast
      then show ?thesis by simp
    qed
  qed
qed

end
