(* ===== verification/Interfaces.thy ===== *)
theory Interfaces
  imports Prelude
begin

text \<open>
  The contracts between components, as locales. Each is interpreted, in the theory of the
  component that provides it, on the model of the code that provides it:
  \<^item> \<open>latch\<close>: a one-way switch (the shutdown flag, \<open>Rtp::stop\<close>, the health of a client);
  \<^item> \<open>frame_sink\<close>: a latch that frames are written to until it is closed (\<open>Rtp\<close>);
  \<^item> \<open>bounded_fifo\<close>: a queue that drops its oldest element when full (the client's
    queue of compressed frames);
  \<^item> \<open>pcm_source\<close>: the promise \<open>include/audio.hxx\<close> writes above \<open>AudioWriteCallback\<close>,
    that a write callback returns the number of bytes it put into \<open>dst\<close>, at most \<open>max_len\<close>;
  \<^item> \<open>pcm_stream_source\<close>: a \<open>pcm_source\<close> that takes what it returns off a stream.
\<close>

section \<open>One-way switches\<close>

locale latch =
  fixes trip :: "'s \<Rightarrow> 's"
    and tripped :: "'s \<Rightarrow> bool"
  assumes tripped_trip: "tripped (trip s)"
    and trip_absorbed: "tripped s \<Longrightarrow> trip s = s"
begin

lemma trip_idem: "trip (trip s) = trip s"
  by (rule trip_absorbed [OF tripped_trip])

lemma trip_repeated: "(trip ^^ Suc n) s = trip s"
  by (induction n) (simp_all add: trip_idem)

lemma tripped_run:
  assumes "tripped s" and "\<And>f t. f \<in> set fs \<Longrightarrow> tripped t \<Longrightarrow> tripped (f t)"
  shows "tripped (fold (\<lambda>f. f) fs s)"
  using assms by (induction fs arbitrary: s) auto

end

section \<open>Writing frames to a sink that can be closed\<close>

locale frame_sink = latch trip tripped
  for trip :: "'s \<Rightarrow> 's" and tripped :: "'s \<Rightarrow> bool" +
  fixes put :: "'f \<Rightarrow> 's \<Rightarrow> 's"
    and ready :: "'s \<Rightarrow> bool"
    and sent :: "'s \<Rightarrow> 'f list"
    and invar :: "'s \<Rightarrow> bool"
  assumes ready_not_tripped: "ready s \<Longrightarrow> \<not> tripped s"
    and put_blocked: "invar s \<Longrightarrow> \<not> ready s \<Longrightarrow> put x s = s"
    and put_sent: "invar s \<Longrightarrow> ready s \<Longrightarrow> sent (put x s) = sent s @ [x]"
    and put_ready: "invar s \<Longrightarrow> ready s \<Longrightarrow> ready (put x s)"
    and trip_sent: "invar s \<Longrightarrow> sent (trip s) = sent s"
    and invar_put: "invar s \<Longrightarrow> invar (put x s)"
    and invar_trip: "invar s \<Longrightarrow> invar (trip s)"
begin

lemma put_all_sent:
  "invar s \<Longrightarrow> ready s \<Longrightarrow>
     sent (fold put xs s) = sent s @ xs \<and> invar (fold put xs s) \<and> ready (fold put xs s)"
  by (induction xs arbitrary: s) (simp_all add: put_sent put_ready invar_put)

lemma put_all_blocked: "invar s \<Longrightarrow> \<not> ready s \<Longrightarrow> fold put xs s = s"
  by (induction xs) (simp_all add: put_blocked)

lemma not_ready_trip: "\<not> ready (trip s)"
  using ready_not_tripped tripped_trip by blast

text \<open>Frames written before the close are the frames sent; later writes change nothing.\<close>

lemma closed_history:
  assumes "invar s" and "ready s"
  shows "sent (fold put ys (trip (fold put xs s))) = sent s @ xs"
proof -
  let ?t = "fold put xs s"
  from assms have t: "invar ?t" and sent: "sent ?t = sent s @ xs"
    using put_all_sent by blast+
  have "fold put ys (trip ?t) = trip ?t"
    by (rule put_all_blocked [OF invar_trip [OF t] not_ready_trip])
  with t sent show ?thesis by (simp add: trip_sent)
qed

end

section \<open>Bounded queues that drop the oldest element\<close>

locale bounded_fifo =
  fixes push :: "'x \<Rightarrow> 'q \<Rightarrow> 'q"
    and elems :: "'q \<Rightarrow> 'x list"
    and cap :: nat
  assumes cap_pos: "0 < cap"
    and push_room: "length (elems q) < cap \<Longrightarrow> elems (push x q) = elems q @ [x]"
    and push_full: "length (elems q) = cap \<Longrightarrow> elems (push x q) = tl (elems q) @ [x]"
begin

lemma push_elems:
  assumes "length (elems q) \<le> cap"
  shows "elems (push x q) = drop (Suc (length (elems q)) - cap) (elems q @ [x])"
proof (cases "length (elems q) = cap")
  case True
  with cap_pos have "elems q \<noteq> []" by auto
  moreover have "Suc 0 - cap = 0" using cap_pos by simp
  ultimately show ?thesis using True by (simp add: push_full drop_Suc)
next
  case False
  with assms show ?thesis by (simp add: push_room)
qed

lemma length_push: "length (elems q) \<le> cap \<Longrightarrow> length (elems (push x q)) \<le> cap"
  using cap_pos by (simp add: push_elems)

text \<open>After any run of pushes the queue holds the newest \<open>cap\<close> elements, in order.\<close>

lemma push_all_elems:
  assumes "length (elems q) \<le> cap"
  shows "elems (fold push xs q) = drop (length (elems q) + length xs - cap) (elems q @ xs)"
  using assms
proof (induction xs arbitrary: q)
  case Nil
  then show ?case by simp
next
  case (Cons x xs)
  let ?n = "Suc (length (elems q)) - cap"
  have "elems (fold push (x # xs) q)
      = drop (length (elems (push x q)) + length xs - cap) (elems (push x q) @ xs)"
    using Cons.IH [OF length_push [OF Cons.prems]] by simp
  also have "elems (push x q) @ xs = drop ?n (elems q @ x # xs)"
    using Cons.prems cap_pos by (simp add: push_elems)
  also have "length (elems (push x q)) = Suc (length (elems q)) - ?n"
    using Cons.prems by (simp add: push_elems)
  also have "drop (Suc (length (elems q)) - ?n + length xs - cap) (drop ?n (elems q @ x # xs))
      = drop (length (elems q) + length (x # xs) - cap) (elems q @ x # xs)"
  proof -
    have "Suc (length (elems q)) - ?n + length xs - cap + ?n = length (elems q) + length (x # xs) - cap"
      using Cons.prems cap_pos by simp
    then show ?thesis by (simp only: drop_drop)
  qed
  finally show ?case .
qed

end

section \<open>Sources of PCM bytes\<close>

text \<open>
  A write callback gets a destination buffer and returns how many bytes it produced, the
  buffer after the call and its own next state.
\<close>

locale pcm_source =
  fixes cb :: "byte list \<Rightarrow> 's \<Rightarrow> nat \<times> byte list \<times> 's"
  assumes produced_le: "cb dst s = (n, dst', s') \<Longrightarrow> n \<le> length dst"
    and buffer_length: "cb dst s = (n, dst', s') \<Longrightarrow> length dst' = length dst"
    and rest_untouched: "cb dst s = (n, dst', s') \<Longrightarrow> drop n dst' = drop n dst"
begin

lemma clamp_inactive: "cb dst s = (n, dst', s') \<Longrightarrow> min n (length dst) = n"
  by (simp add: produced_le min_absorb1)

text \<open>A buffer that starts as silence ends as the produced bytes followed by silence.\<close>

lemma silence_padded:
  assumes "cb (replicate m 0) s = (n, dst', s')"
  shows "dst' = take n dst' @ replicate (m - n) 0"
  using rest_untouched [OF assms] by (metis append_take_drop_id drop_replicate)

end

text \<open>
  A source that delivers a stream: \<open>may s y\<close> tells that \<open>y\<close> is what may still come from state \<open>s\<close>, and
  each call takes the bytes it returns off the front. A callback that is turned off returns 0 and keeps
  its stream. The stream need not be determined: a source that drops part of what it has may have several.
\<close>

locale pcm_stream_source = pcm_source cb
  for cb :: "byte list \<Rightarrow> 's \<Rightarrow> nat \<times> byte list \<times> 's" +
  fixes may :: "'s \<Rightarrow> byte list \<Rightarrow> bool"
  assumes may_step: "cb dst s = (n, dst', s') \<Longrightarrow> may s' x \<Longrightarrow> may s (take n dst' @ x)"

end
