(* ===== verification/Rtp.thy ===== *)
theory Rtp
  imports Interfaces
begin

text \<open>
  \<open>include/rtp.hxx\<close> and \<open>src/rtp.cpp\<close>: one RTP session with one media stream. uvgRTP is not
  under \<open>src/\<close>: each call the code makes to it is recorded in a history, and what it answers
  is an arbitrary function of that history (\<open>uvg_env\<close>). The static \<open>uvgrtp::context\<close> is shared
  by all \<open>Rtp\<close> objects, so the history is threaded through all of them.
\<close>

section \<open>Calls to uvgRTP\<close>

datatype rce_flag = RCE_RTCP | RCE_SYSTEM_CALL_CLUSTERING | RCE_SEND_ONLY | RCE_RECEIVE_ONLY

text \<open>Each call is recorded with its arguments and its answer; handles are numbers.\<close>

datatype uvg_call =
    CreateSession string string "nat option"
  | CreateStream nat u16 u16 "rce_flag list" "nat option"
  | InstallHook nat nat nat
  | PushFrame nat "byte list" int
  | DestroyStream nat nat
  | DestroySession nat

record uvg_env =
  crypto_enabled :: bool
  session_answer :: "uvg_call list \<Rightarrow> nat option"
  stream_answer :: "uvg_call list \<Rightarrow> nat option"
  rtp_errno :: "uvg_call list \<Rightarrow> int"
  push_answer :: "uvg_call list \<Rightarrow> int"

text \<open>
  A failed \<open>assert\<close> aborts the process; a thrown \<open>std::runtime_error\<close> can be caught by the
  caller.
\<close>

datatype rtp_error = Abort string | Throw string

section \<open>State and operations\<close>

record rtp =
  session :: "nat option"
  stream :: "nat option"
  stopped :: bool
  recv_callback :: "nat option \<times> nat"

type_synonym socket = "string \<times> u16"

definition default_send_flags :: "rce_flag list" where
  "default_send_flags = [RCE_RTCP, RCE_SYSTEM_CALL_CLUSTERING, RCE_SEND_ONLY]"

definition default_recv_flags :: "rce_flag list" where
  "default_recv_flags = [RCE_RTCP, RCE_RECEIVE_ONLY]"

definition init_rtp ::
    "uvg_env \<Rightarrow> bool \<Rightarrow> u16 \<Rightarrow> u16 \<Rightarrow> rtp \<Rightarrow> uvg_call list \<Rightarrow> (rtp_error + rtp) \<times> uvg_call list" where
  "init_rtp env sending lport rport r tr =
     (if \<not> crypto_enabled env then (Inl (Abort ''ctx.crypto_enabled()''), tr)
      else if \<not> sending \<and> fst (recv_callback r) = None
        then (Inl (Abort ''recv_callback.first != nullptr''), tr)
      else case session r of
        None \<Rightarrow> (Inl (Throw ''Failed to create uvgRTP session. Must be OOM.''), tr)
      | Some s \<Rightarrow>
          let flags = (if sending then default_send_flags else default_recv_flags);
              answer = stream_answer env tr;
              tr1 = tr @ [CreateStream s lport rport flags answer]
          in (case answer of
                None \<Rightarrow> (Inl (Throw (''Failed to create opus RTP stream with error code ''
                           @ show_nat (unat (word_of_int (rtp_errno env tr1) :: byte)) @ ''.'')), tr1)
              | Some st \<Rightarrow>
                  (Inr (r\<lparr>stream := Some st\<rparr>),
                   if sending then tr1
                   else tr1 @ [InstallHook st (snd (recv_callback r)) (the (fst (recv_callback r)))])))"

text \<open>
  The key agreement: \<open>generate\<close> is the generator of X25519 key pairs with the entropy it draws on. The
  pair is made and dropped, whatever the role; nothing calls \<open>dhka\<close>. The two handshakes have empty
  bodies.
\<close>

datatype role = SEND_FIRST | RECV_FIRST

definition dhka :: "('g \<Rightarrow> (byte list \<times> byte list) \<times> 'g) \<Rightarrow> role \<Rightarrow> rtp \<times> 'g \<Rightarrow> rtp \<times> 'g" where
  "dhka generate role = (\<lambda>(r, g). case generate g of ((privkey, pubkey), g1) \<Rightarrow>
     (case role of SEND_FIRST \<Rightarrow> (r, g1) | RECV_FIRST \<Rightarrow> (r, g1)))"

definition handshake_client :: "rtp \<Rightarrow> rtp" where
  "handshake_client r = r"

definition handshake_server :: "rtp \<Rightarrow> rtp" where
  "handshake_server r = r"

lemma handshakes_do_nothing [simp]: "handshake_client r = r" "handshake_server r = r"
  by (simp_all add: handshake_client_def handshake_server_def)

text \<open>The two constructors. A constructor that throws does not run \<open>~Rtp\<close>.\<close>

definition new_rtp_sender ::
    "uvg_env \<Rightarrow> socket \<Rightarrow> socket \<Rightarrow> uvg_call list \<Rightarrow> (rtp_error + rtp) \<times> uvg_call list" where
  "new_rtp_sender env lsock rsock tr =
     (let answer = session_answer env tr;
          r = \<lparr>session = answer, stream = None, stopped = False, recv_callback = (None, 0)\<rparr>
      in init_rtp env True (snd lsock) (snd rsock) (handshake_server r)
           (tr @ [CreateSession (fst lsock) (fst rsock) answer]))"

definition new_rtp_receiver ::
    "uvg_env \<Rightarrow> socket \<Rightarrow> socket \<Rightarrow> nat option \<times> nat \<Rightarrow> uvg_call list
       \<Rightarrow> (rtp_error + rtp) \<times> uvg_call list" where
  "new_rtp_receiver env lsock rsock cb tr =
     (let answer = session_answer env tr;
          r = \<lparr>session = answer, stream = None, stopped = False, recv_callback = cb\<rparr>
      in init_rtp env False (snd lsock) (snd rsock) (handshake_client r)
           (tr @ [CreateSession (fst lsock) (fst rsock) answer]))"

text \<open>Both run under \<open>teardown_mutex\<close>, so they are atomic. A failed push is only logged.\<close>

definition write_frames :: "uvg_env \<Rightarrow> byte list \<Rightarrow> rtp \<times> uvg_call list \<Rightarrow> rtp \<times> uvg_call list" where
  "write_frames env data = (\<lambda>(r, tr).
     if stopped r then (r, tr)
     else case stream r of
       None \<Rightarrow> (r, tr)
     | Some st \<Rightarrow> (r, tr @ [PushFrame st data (push_answer env tr)]))"

definition stop :: "rtp \<times> uvg_call list \<Rightarrow> rtp \<times> uvg_call list" where
  "stop = (\<lambda>(r, tr).
     if stopped r then (r, tr)
     else
       let r1 = r\<lparr>stopped := True\<rparr>;
           (r2, tr2) = (case (session r1, stream r1) of
              (Some s, Some st) \<Rightarrow> (r1\<lparr>stream := None\<rparr>, tr @ [DestroyStream s st])
            | _ \<Rightarrow> (r1, tr))
       in (case session r2 of
             Some s \<Rightarrow> (r2\<lparr>session := None\<rparr>, tr2 @ [DestroySession s])
           | None \<Rightarrow> (r2, tr2)))"

definition is_initialised :: "rtp \<Rightarrow> bool" where
  "is_initialised r \<longleftrightarrow> \<not> stopped r \<and> session r \<noteq> None \<and> stream r \<noteq> None"

definition is_stopped :: "rtp \<Rightarrow> bool" where
  "is_stopped r = stopped r"

text \<open>The destructor.\<close>

definition destroy_rtp :: "rtp \<times> uvg_call list \<Rightarrow> rtp \<times> uvg_call list" where
  "destroy_rtp = stop"

section \<open>Invariant and the sink contract\<close>

text \<open>A stream handle is held only together with its session, and neither once stopped.\<close>

definition rtp_inv :: "rtp \<Rightarrow> bool" where
  "rtp_inv r \<longleftrightarrow> (stream r \<noteq> None \<longrightarrow> session r \<noteq> None) \<and>
                 (stopped r \<longrightarrow> session r = None \<and> stream r = None)"

fun pushed_data :: "uvg_call \<Rightarrow> byte list option" where
  "pushed_data (PushFrame st data status) = Some data"
| "pushed_data c = None"

definition pushed_frames :: "uvg_call list \<Rightarrow> byte list list" where
  "pushed_frames tr = List.map_filter pushed_data tr"

lemma pushed_frames_append [trace_simps]:
  "pushed_frames (tr @ cs) = pushed_frames tr @ pushed_frames cs"
  by (simp add: pushed_frames_def List.map_filter_def)

lemma pushed_frames_simps [simp]:
  "pushed_frames [] = []"
  "pushed_frames (c # cs) = (case pushed_data c of None \<Rightarrow> pushed_frames cs | Some d \<Rightarrow> d # pushed_frames cs)"
  by (simp_all add: pushed_frames_def List.map_filter_def split: option.splits)

lemma stop_stopped: "stopped (fst (stop p))"
  by (cases p) (auto simp: stop_def Let_def split: option.splits)

lemma stop_again: "stopped (fst p) \<Longrightarrow> stop p = p"
  by (cases p) (simp add: stop_def)

lemma write_frames_idle: "\<not> is_initialised (fst p) \<Longrightarrow> rtp_inv (fst p) \<Longrightarrow> write_frames env data p = p"
  by (cases p) (auto simp: write_frames_def is_initialised_def rtp_inv_def split: option.splits)

lemma write_frames_live:
  "is_initialised r \<Longrightarrow>
     write_frames env data (r, tr) = (r, tr @ [PushFrame (the (stream r)) data (push_answer env tr)])"
  by (auto simp: write_frames_def is_initialised_def)

lemma stop_live:
  "is_initialised r \<Longrightarrow>
     stop (r, tr) = (r\<lparr>stopped := True, stream := None, session := None\<rparr>,
                     tr @ [DestroyStream (the (session r)) (the (stream r)), DestroySession (the (session r))])"
  by (auto simp: stop_def is_initialised_def Let_def)

lemma stop_pushes_nothing: "pushed_frames (snd (stop p)) = pushed_frames (snd p)"
  by (cases p) (auto simp: stop_def Let_def trace_simps split: option.splits)

lemma write_frames_inv: "rtp_inv (fst p) \<Longrightarrow> rtp_inv (fst (write_frames env data p))"
  by (cases p) (auto simp: write_frames_def split: option.splits)

lemma stop_inv: "rtp_inv (fst p) \<Longrightarrow> rtp_inv (fst (stop p))"
  by (cases p) (auto simp: stop_def rtp_inv_def Let_def split: option.splits)

interpretation rtp_latch: latch stop "\<lambda>p. is_stopped (fst p)"
  by unfold_locales (simp_all add: is_stopped_def stop_stopped stop_again)

interpretation rtp_sink: frame_sink stop "\<lambda>p. is_stopped (fst p)" "write_frames env"
    "\<lambda>p. is_initialised (fst p)" "\<lambda>p. pushed_frames (snd p)" "\<lambda>p. rtp_inv (fst p)"
  for env
proof unfold_locales
  fix p :: "rtp \<times> uvg_call list" and data :: "byte list"
  show "is_initialised (fst p) \<Longrightarrow> \<not> is_stopped (fst p)"
    by (simp add: is_initialised_def is_stopped_def)
  show "rtp_inv (fst p) \<Longrightarrow> \<not> is_initialised (fst p) \<Longrightarrow> write_frames env data p = p"
    by (rule write_frames_idle)
  show "is_initialised (fst p) \<Longrightarrow>
      pushed_frames (snd (write_frames env data p)) = pushed_frames (snd p) @ [data]"
    by (cases p) (simp add: write_frames_live trace_simps)
  show "is_initialised (fst p) \<Longrightarrow> is_initialised (fst (write_frames env data p))"
    by (cases p) (simp add: write_frames_live)
  show "pushed_frames (snd (stop p)) = pushed_frames (snd p)"
    by (rule stop_pushes_nothing)
  show "rtp_inv (fst p) \<Longrightarrow> rtp_inv (fst (write_frames env data p))"
    by (rule write_frames_inv)
  show "rtp_inv (fst p) \<Longrightarrow> rtp_inv (fst (stop p))"
    by (rule stop_inv)
qed


section \<open>Constructors\<close>

lemma init_rtp_Inr_iff:
  "init_rtp env sending lport rport r tr = (Inr r', tr') \<longleftrightarrow>
     crypto_enabled env \<and> (sending \<or> fst (recv_callback r) \<noteq> None) \<and>
     (\<exists>s st. session r = Some s \<and> stream_answer env tr = Some st \<and> r' = r\<lparr>stream := Some st\<rparr> \<and>
        tr' = tr @ CreateStream s lport rport (if sending then default_send_flags else default_recv_flags) (Some st)
                # (if sending then [] else [InstallHook st (snd (recv_callback r)) (the (fst (recv_callback r)))]))"
  by (auto simp: init_rtp_def Let_def split: option.splits)

lemma new_rtp_sender_Inr:
  assumes "new_rtp_sender env l r tr = (Inr rt, tr')"
  obtains s st where "rt = \<lparr>session = Some s, stream = Some st, stopped = False, recv_callback = (None, 0)\<rparr>"
    and "tr' = tr @ [CreateSession (fst l) (fst r) (Some s),
                     CreateStream s (snd l) (snd r) default_send_flags (Some st)]"
  using assms by (auto simp: new_rtp_sender_def Let_def init_rtp_Inr_iff)

lemma new_rtp_receiver_Inr:
  assumes "new_rtp_receiver env l r cb tr = (Inr rt, tr')"
  obtains s st h where "rt = \<lparr>session = Some s, stream = Some st, stopped = False, recv_callback = cb\<rparr>"
    and "fst cb = Some h"
    and "tr' = tr @ [CreateSession (fst l) (fst r) (Some s),
                     CreateStream s (snd l) (snd r) default_recv_flags (Some st),
                     InstallHook st (snd cb) h]"
  using assms by (auto simp: new_rtp_receiver_def Let_def init_rtp_Inr_iff)

lemma new_rtp_sender_ready:
  assumes "new_rtp_sender env l r tr = (Inr rt, tr')"
  shows "is_initialised rt" "rtp_inv rt" "pushed_frames tr' = pushed_frames tr"
  using assms by (auto elim!: new_rtp_sender_Inr simp: is_initialised_def rtp_inv_def trace_simps)

section \<open>Runs of operations\<close>

text \<open>
  \<open>write_frames\<close> and \<open>stop\<close> take the same mutex, so whatever threads call them, what happens is
  one sequence of these operations.
\<close>

datatype rtp_op = OpWrite "byte list" | OpStop

fun rtp_step :: "uvg_env \<Rightarrow> rtp_op \<Rightarrow> rtp \<times> uvg_call list \<Rightarrow> rtp \<times> uvg_call list" where
  "rtp_step env (OpWrite data) p = write_frames env data p"
| "rtp_step env OpStop p = stop p"

fun writes_before_stop :: "rtp_op list \<Rightarrow> byte list list" where
  "writes_before_stop (OpWrite data # ops) = data # writes_before_stop ops"
| "writes_before_stop ops = []"

definition push_to :: "nat \<Rightarrow> uvg_call list \<Rightarrow> bool" where
  "push_to st cs \<longleftrightarrow> (\<forall>c \<in> set cs. \<exists>data status. c = PushFrame st data status)"

lemma rtp_run_stopped: "stopped r \<Longrightarrow> rtp_inv r \<Longrightarrow> fold (rtp_step env) ops (r, tr) = (r, tr)"
proof (induction ops)
  case (Cons op ops)
  from Cons.prems have "rtp_step env op (r, tr) = (r, tr)"
    by (cases op) (simp_all add: write_frames_def stop_def)
  with Cons show ?case by simp
qed simp

lemma rtp_run_live:
  assumes "is_initialised r" and "session r = Some s" and "stream r = Some st"
  shows "\<exists>ps. snd (fold (rtp_step env) ops (r, tr)) =
           tr @ ps @ (if OpStop \<in> set ops then [DestroyStream s st, DestroySession s] else []) \<and>
         push_to st ps \<and> pushed_frames ps = writes_before_stop ops"
  using assms
proof (induction ops arbitrary: tr)
  case Nil
  show ?case by (rule exI [of _ "[]"]) (simp add: push_to_def)
next
  case (Cons op ops)
  show ?case
  proof (cases op)
    case (OpWrite data)
    let ?c = "PushFrame st data (push_answer env tr)"
    obtain ps where ps: "snd (fold (rtp_step env) ops (r, tr @ [?c])) =
           (tr @ [?c]) @ ps @ (if OpStop \<in> set ops then [DestroyStream s st, DestroySession s] else [])"
        "push_to st ps" "pushed_frames ps = writes_before_stop ops"
      using Cons.IH [OF Cons.prems, of "tr @ [?c]"] by blast
    show ?thesis
      by (rule exI [of _ "?c # ps"])
        (use ps Cons.prems in \<open>simp add: OpWrite write_frames_live push_to_def\<close>)
  next
    case OpStop
    let ?r = "r\<lparr>stopped := True, stream := None, session := None\<rparr>"
    have "fold (rtp_step env) ops (?r, tr @ [DestroyStream s st, DestroySession s])
        = (?r, tr @ [DestroyStream s st, DestroySession s])"
      by (rule rtp_run_stopped) (simp_all add: rtp_inv_def)
    with Cons.prems OpStop show ?thesis
      by (intro exI [of _ "[]"]) (simp add: stop_live push_to_def)
  qed
qed

section \<open>Sessions alive in the library\<close>

fun session_step :: "uvg_call \<Rightarrow> nat multiset \<Rightarrow> nat multiset" where
  "session_step (CreateSession l r (Some s)) m = add_mset s m"
| "session_step (DestroySession s) m = m - {#s#}"
| "session_step c m = m"

definition live_sessions :: "uvg_call list \<Rightarrow> nat multiset" where
  "live_sessions tr = fold session_step tr {#}"

lemma live_sessions_append [trace_simps]:
  "live_sessions (tr @ cs) = fold session_step cs (live_sessions tr)"
  by (simp add: live_sessions_def)

lemma live_sessions_pushes: "push_to st ps \<Longrightarrow> fold session_step ps m = m"
  by (induction ps) (auto simp: push_to_def)

lemma init_rtp_Inl_trace:
  assumes "init_rtp env sending lport rport r tr = (Inl e, tr')"
  shows "fold session_step (drop (length tr) tr') m = m \<and> prefix tr tr'"
  using assms by (auto simp: init_rtp_def Let_def split: if_splits option.splits)

lemma failed_init_live:
  assumes "init_rtp env sending lport rport r tr = (Inl e, tr')"
  shows "live_sessions tr' = live_sessions tr"
proof -
  from init_rtp_Inl_trace [OF assms] have "tr' = tr @ drop (length tr) tr'"
    by (metis append_eq_conv_conj prefix_def)
  then have "live_sessions tr' = fold session_step (drop (length tr) tr') (live_sessions tr)"
    by (metis live_sessions_append)
  with init_rtp_Inl_trace [OF assms] show ?thesis by simp
qed

lemma failed_receiver_live:
  assumes "new_rtp_receiver env l r cb tr = (Inl e, tr')"
  shows "live_sessions tr' = (case session_answer env tr of
           None \<Rightarrow> live_sessions tr | Some s \<Rightarrow> add_mset s (live_sessions tr))"
  using failed_init_live assms
  by (fastforce simp: new_rtp_receiver_def Let_def trace_simps split: option.splits)

lemma failed_sender_live:
  assumes "new_rtp_sender env l r tr = (Inl e, tr')"
  shows "live_sessions tr' = (case session_answer env tr of
           None \<Rightarrow> live_sessions tr | Some s \<Rightarrow> add_mset s (live_sessions tr))"
  using failed_init_live assms
  by (fastforce simp: new_rtp_sender_def Let_def trace_simps split: option.splits)

section \<open>Properties\<close>

text \<open>A world for the witnesses: sessions and streams are created, and pushes succeed.\<close>

definition sample_uvg :: uvg_env where
  "sample_uvg = \<lparr>crypto_enabled = True, session_answer = (\<lambda>tr. Some (length tr)),
     stream_answer = (\<lambda>tr. Some (length tr)), rtp_errno = (\<lambda>_. 0), push_answer = (\<lambda>_. 0)\<rparr>"

definition sample_sender :: rtp where
  "sample_sender = \<lparr>session = Some 0, stream = Some 1, stopped = False, recv_callback = (None, 0)\<rparr>"

lemma sample_sender_new:
  "new_rtp_sender sample_uvg (''a'', 8891) (''b'', 8890) [] = (Inr sample_sender,
     [CreateSession ''a'' ''b'' (Some 0), CreateStream 0 8891 8890 default_send_flags (Some 1)])"
  by (simp add: new_rtp_sender_def init_rtp_def sample_uvg_def sample_sender_def Let_def)

text \<open>Frames handed to a sender before it is stopped reach the stream, in order and each once;
  frames handed to it after \<open>stop\<close> never do, however many there are.\<close>

theorem sender_frames_until_stop:
  assumes "new_rtp_sender env l r tr = (Inr rt, tr1)"
  shows "pushed_frames (snd (fold (write_frames env) ys (stop (fold (write_frames env) xs (rt, tr1)))))
       = pushed_frames tr @ xs"
  using rtp_sink.closed_history [of "(rt, tr1)" env ys xs] new_rtp_sender_ready [OF assms] by simp

theorem sender_frames_until_stop_witness:
  "pushed_frames (snd (fold (write_frames sample_uvg) [[3]] (stop (fold (write_frames sample_uvg) [[1], [2]]
     (sample_sender, [CreateSession ''a'' ''b'' (Some 0),
        CreateStream 0 8891 8890 default_send_flags (Some 1)]))))) = [[1], [2]]"
  using sender_frames_until_stop [OF sample_sender_new, of "[[3]]" "[[1], [2]]"] by simp

text \<open>C16. The whole life of a sender. From construction on, whatever sequence of writes and stops
  its threads make, the calls to uvgRTP are: create the session, create the stream with the local
  and remote port, push the frames written before the first stop to that stream, and, if there is a stop,
  destroy the stream and then the session, each exactly once, and nothing afterwards.\<close>

theorem sender_lifecycle:
  assumes "new_rtp_sender env l r tr = (Inr rt, tr1)"
  shows "\<exists>s st ps. snd (fold (rtp_step env) ops (rt, tr1)) =
           tr @ [CreateSession (fst l) (fst r) (Some s),
                 CreateStream s (snd l) (snd r) default_send_flags (Some st)] @ ps @
           (if OpStop \<in> set ops then [DestroyStream s st, DestroySession s] else []) \<and>
         push_to st ps \<and> pushed_frames ps = writes_before_stop ops"
proof -
  from assms obtain s st where
      rt: "rt = \<lparr>session = Some s, stream = Some st, stopped = False, recv_callback = (None, 0)\<rparr>"
    and tr1: "tr1 = tr @ [CreateSession (fst l) (fst r) (Some s),
                     CreateStream s (snd l) (snd r) default_send_flags (Some st)]"
    by (rule new_rtp_sender_Inr)
  then obtain ps where "snd (fold (rtp_step env) ops (rt, tr1)) =
        tr1 @ ps @ (if OpStop \<in> set ops then [DestroyStream s st, DestroySession s] else [])"
      "push_to st ps" "pushed_frames ps = writes_before_stop ops"
    using rtp_run_live [of rt s st env ops tr1] by (auto simp: is_initialised_def)
  then show ?thesis
    by (intro exI [of _ s] exI [of _ st] exI [of _ ps]) (simp add: tr1)
qed

theorem sender_lifecycle_witness:
  "\<exists>s st ps. snd (fold (rtp_step sample_uvg) [OpWrite [7], OpStop, OpWrite [8], OpStop]
       (sample_sender, [CreateSession ''a'' ''b'' (Some 0),
          CreateStream 0 8891 8890 default_send_flags (Some 1)])) =
     [CreateSession ''a'' ''b'' (Some s), CreateStream s 8891 8890 default_send_flags (Some st)] @ ps @
     [DestroyStream s st, DestroySession s] \<and> pushed_frames ps = [[7]]"
  using sender_lifecycle [OF sample_sender_new, of "[OpWrite [7], OpStop, OpWrite [8], OpStop]"]
  by auto

text \<open>A receiver that is constructed has its receive hook installed, with the caller's user
  data, on the stream it just opened on the given ports, as the last step of construction, and it
  is initialised; without a callback construction never succeeds.\<close>

theorem receiver_hook_installed:
  assumes "new_rtp_receiver env l r cb tr = (Inr rt, tr1)"
  shows "\<exists>s st h. fst cb = Some h \<and> is_initialised rt \<and> stream rt = Some st \<and>
           tr1 = tr @ [CreateSession (fst l) (fst r) (Some s),
                       CreateStream s (snd l) (snd r) default_recv_flags (Some st),
                       InstallHook st (snd cb) h]"
  using assms by (auto elim!: new_rtp_receiver_Inr simp: is_initialised_def)

theorem receiver_hook_installed_witness:
  "\<exists>rt tr1. new_rtp_receiver sample_uvg (''a'', 7981) (''b'', 8179) (Some 5, 9) [] = (Inr rt, tr1) \<and>
     is_initialised rt \<and> (\<exists>st. stream rt = Some st \<and> last tr1 = InstallHook st 9 5)"
proof -
  obtain rt tr1 where new: "new_rtp_receiver sample_uvg (''a'', 7981) (''b'', 8179) (Some 5, 9) [] = (Inr rt, tr1)"
    by (simp add: new_rtp_receiver_def init_rtp_def sample_uvg_def Let_def)
  from receiver_hook_installed [OF new] new show ?thesis by auto
qed

text \<open>Construction that fails after the session was created loses the session: the exception
  leaves it alive in uvgRTP and no object is left that could destroy it. This holds for the
  sender and for the receiver.\<close>

theorem failed_construction_leaks_session:
  assumes "session_answer env tr = Some s"
    and "new_rtp_sender env l r tr = (Inl e, tr1) \<or> new_rtp_receiver env l r cb tr = (Inl e, tr1)"
  shows "live_sessions tr1 = add_mset s (live_sessions tr)"
  using assms(2)
proof
  assume "new_rtp_sender env l r tr = (Inl e, tr1)"
  from failed_sender_live [OF this] assms(1) show ?thesis by simp
next
  assume "new_rtp_receiver env l r cb tr = (Inl e, tr1)"
  from failed_receiver_live [OF this] assms(1) show ?thesis by simp
qed

theorem failed_construction_leaks_session_witness:
  "live_sessions (snd (new_rtp_sender (sample_uvg\<lparr>stream_answer := \<lambda>_. None\<rparr>) (''a'', 1) (''b'', 2) [])) = {#0#}"
  using failed_construction_leaks_session [of "sample_uvg\<lparr>stream_answer := \<lambda>_. None\<rparr>" "[]" 0 "(''a'', 1)" "(''b'', 2)"
      "Throw (''Failed to create opus RTP stream with error code '' @ show_nat 0 @ ''.'')"
      "[CreateSession ''a'' ''b'' (Some 0), CreateStream 0 1 2 default_send_flags None]"]
  by (simp add: new_rtp_sender_def init_rtp_def sample_uvg_def live_sessions_def Let_def)

text \<open>A sender that is constructed and at some point stopped gives back what it took: the
  sessions alive in uvgRTP are those of before its construction, whatever was written and however
  often it was stopped; the destructor, which stops again, changes nothing.\<close>

theorem stop_releases_session:
  assumes "new_rtp_sender env l r tr = (Inr rt, tr1)" and "OpStop \<in> set ops"
  shows "live_sessions (snd (fold (rtp_step env) ops (rt, tr1))) = live_sessions tr \<and>
         destroy_rtp (stop p) = stop p"
proof -
  from assms(1) obtain s st where
      rt: "rt = \<lparr>session = Some s, stream = Some st, stopped = False, recv_callback = (None, 0)\<rparr>"
    and tr1: "tr1 = tr @ [CreateSession (fst l) (fst r) (Some s),
                     CreateStream s (snd l) (snd r) default_send_flags (Some st)]"
    by (rule new_rtp_sender_Inr)
  then obtain ps where "snd (fold (rtp_step env) ops (rt, tr1)) =
      tr1 @ ps @ [DestroyStream s st, DestroySession s]" and "push_to st ps"
    using rtp_run_live [of rt s st env ops tr1] assms(2) by (auto simp: is_initialised_def)
  then show ?thesis
    by (simp add: tr1 trace_simps live_sessions_pushes destroy_rtp_def rtp_latch.trip_idem)
qed

theorem stop_releases_session_witness:
  "live_sessions (snd (fold (rtp_step sample_uvg) [OpWrite [7], OpStop, OpWrite [8], OpStop]
       (sample_sender, [CreateSession ''a'' ''b'' (Some 0),
          CreateStream 0 8891 8890 default_send_flags (Some 1)]))) = {#}"
  using stop_releases_session [OF sample_sender_new, of "[OpWrite [7], OpStop, OpWrite [8], OpStop]"]
  by (simp add: live_sessions_def)

end
