(* ===== verification/Audio.thy ===== *)
theory Audio
  imports Interfaces
begin

text \<open>
  \<open>include/audio.hxx\<close> and \<open>src/audio/pulseaudio_callbacks.cpp\<close>: audio devices, the two run flags
  of the backend, and the callbacks PulseAudio invokes. A callback that would read through a
  null pointer returns \<open>Inl NullDeref\<close>.
\<close>

section \<open>Devices and run flags\<close>

record audio_device =
  dev_name :: string
  description :: string
  dev_index :: u32
  sample_rate :: u32
  channels :: byte
  is_monitor :: bool
  is_default :: bool
  is_source :: bool

definition new_audio_device ::
    "string \<Rightarrow> string \<Rightarrow> u32 \<Rightarrow> u32 \<Rightarrow> byte \<Rightarrow> bool \<Rightarrow> bool \<Rightarrow> audio_device" where
  "new_audio_device nm desc idx rate ch monitor src =
     \<lparr>dev_name = nm, description = desc, dev_index = idx, sample_rate = rate, channels = ch,
      is_monitor = monitor, is_default = False, is_source = src\<rparr>"

text \<open>The part of the singleton backend that other components reach: the two atomic flags.\<close>

record audio =
  recording :: bool
  playback :: bool

definition stop_recording :: "'a audio_scheme \<Rightarrow> 'a audio_scheme" where
  "stop_recording a = a\<lparr>recording := False, playback := False\<rparr>"

section \<open>Context and stream state callbacks\<close>

datatype context_state = PA_CONTEXT_UNCONNECTED | PA_CONTEXT_CONNECTING | PA_CONTEXT_AUTHORIZING
  | PA_CONTEXT_SETTING_NAME | PA_CONTEXT_READY | PA_CONTEXT_FAILED | PA_CONTEXT_TERMINATED

definition pa_state_cb :: "context_state \<Rightarrow> int \<Rightarrow> int" where
  "pa_state_cb st pa_ready = (case st of
     PA_CONTEXT_FAILED \<Rightarrow> 2
   | PA_CONTEXT_TERMINATED \<Rightarrow> 2
   | PA_CONTEXT_READY \<Rightarrow> 1
   | _ \<Rightarrow> pa_ready)"

text \<open>
  \<open>wait_for_context_ready\<close>, given for each mainloop iteration the states the callback saw in it.
  \<open>None\<close>: all of them are used up and the loop is still waiting; \<open>Some False\<close>: the context and
  the mainloop were released and the exception thrown.
\<close>

fun wait_for_context_ready :: "context_state list list \<Rightarrow> int \<Rightarrow> bool option" where
  "wait_for_context_ready its pa_ready =
     (if pa_ready = 0
      then (case its of [] \<Rightarrow> None
            | it # rest \<Rightarrow> wait_for_context_ready rest (fold pa_state_cb it pa_ready))
      else if pa_ready = 2 then Some False
      else Some True)"

declare wait_for_context_ready.simps [simp del]

datatype stream_state = PA_STREAM_UNCONNECTED | PA_STREAM_CREATING | PA_STREAM_READY
  | PA_STREAM_FAILED | PA_STREAM_TERMINATED

definition stream_state_cb :: "stream_state \<Rightarrow> 'a audio_scheme \<Rightarrow> 'a audio_scheme" where
  "stream_state_cb st a = (case st of
     PA_STREAM_FAILED \<Rightarrow> a\<lparr>recording := False\<rparr>
   | PA_STREAM_TERMINATED \<Rightarrow> a\<lparr>recording := False\<rparr>
   | _ \<Rightarrow> a)"

section \<open>Waiting for an operation\<close>

text \<open>
  An asynchronous PulseAudio operation: libpulse made no operation object, or the operation runs for
  some mainloop iterations, each of which makes some invocations of its callback, and then is done
  or cancelled. \<open>wait_for_operation\<close> throws on the null operation and otherwise iterates until it
  is no longer running; its result here is the invocations made meanwhile.
\<close>

datatype 'i operation = NullOp | Op "'i list list"

fun iterate_while_running :: "'i list list \<Rightarrow> 'i list" where
  "iterate_while_running [] = []"
| "iterate_while_running (it # its) = it @ iterate_while_running its"

fun wait_for_operation :: "'i operation \<Rightarrow> string + 'i list" where
  "wait_for_operation NullOp = Inl ''PulseAudio did not create an operation.''"
| "wait_for_operation (Op its) = Inr (iterate_while_running its)"

lemma iterate_while_running_concat [simp]: "iterate_while_running its = concat its"
  by (induction its) simp_all

section \<open>Device lists\<close>

datatype crash = NullDeref

definition pa_invalid_index :: u32 where
  "pa_invalid_index = - 1"

record device_info =
  info_name :: string
  info_description :: string
  info_index :: u32
  info_rate :: u32
  info_channels :: byte
  monitor_of_sink :: u32

definition pa_sourcelist_cb ::
    "device_info option \<times> int \<Rightarrow> audio_device list \<Rightarrow> crash + audio_device list" where
  "pa_sourcelist_cb = (\<lambda>(l, eol) devices.
     if eol > 0 then Inr devices
     else case l of
       None \<Rightarrow> Inl NullDeref
     | Some i \<Rightarrow> Inr (devices @ [new_audio_device (info_name i) (info_description i) (info_index i)
                      (info_rate i) (info_channels i) (monitor_of_sink i \<noteq> pa_invalid_index) True]))"

definition pa_sinklist_cb ::
    "device_info option \<times> int \<Rightarrow> audio_device list \<Rightarrow> crash + audio_device list" where
  "pa_sinklist_cb = (\<lambda>(l, eol) devices.
     if eol > 0 then Inr devices
     else case l of
       None \<Rightarrow> Inl NullDeref
     | Some i \<Rightarrow> Inr (devices @ [new_audio_device (info_name i) (info_description i) (info_index i)
                      (info_rate i) (info_channels i) False False]))"

text \<open>The invocations of a list callback during \<open>wait_for_operation\<close>, in order.\<close>

fun run_list_cb :: "('i \<Rightarrow> 'd list \<Rightarrow> crash + 'd list) \<Rightarrow> 'i list \<Rightarrow> 'd list \<Rightarrow> crash + 'd list" where
  "run_list_cb cb [] ds = Inr ds"
| "run_list_cb cb (i # is) ds = bind_err (cb i ds) (run_list_cb cb is)"

text \<open>\<open>get_inputs\<close> and \<open>get_outputs\<close> collect the devices their operation reports.\<close>

datatype list_error = Thrown string | Crashed crash

definition get_inputs :: "(device_info option \<times> int) operation \<Rightarrow> list_error + audio_device list" where
  "get_inputs op = (case wait_for_operation op of
     Inl err \<Rightarrow> Inl (Thrown err)
   | Inr invs \<Rightarrow> (case run_list_cb pa_sourcelist_cb invs [] of
       Inl c \<Rightarrow> Inl (Crashed c) | Inr ds \<Rightarrow> Inr ds))"

definition get_outputs :: "(device_info option \<times> int) operation \<Rightarrow> list_error + audio_device list" where
  "get_outputs op = (case wait_for_operation op of
     Inl err \<Rightarrow> Inl (Thrown err)
   | Inr invs \<Rightarrow> (case run_list_cb pa_sinklist_cb invs [] of
       Inl c \<Rightarrow> Inl (Crashed c) | Inr ds \<Rightarrow> Inr ds))"

section \<open>Stream data callbacks\<close>

text \<open>
  \<open>stream_write_cb\<close> hands the server a buffer of exactly \<open>nbytes\<close> bytes; \<open>status\<close> is what
  \<open>pa_stream_write\<close> returns. The result is the buffer written, if any, the flags and the
  callback's next state.
\<close>

definition stream_write_cb ::
    "(byte list \<Rightarrow> 's \<Rightarrow> nat \<times> byte list \<times> 's) option \<Rightarrow> nat \<Rightarrow> int \<Rightarrow> 'a audio_scheme \<Rightarrow> 's
       \<Rightarrow> byte list option \<times> nat \<times> 'a audio_scheme \<times> 's" where
  "stream_write_cb cb_opt nbytes status a s =
     (if nbytes = 0 then (None, 0, a, s)
      else
        let pcm = replicate nbytes 0;
            (produced, pcm', s') = (case cb_opt of
                None \<Rightarrow> (0, pcm, s)
              | Some cb \<Rightarrow> (case cb pcm s of (n, b, t) \<Rightarrow> (if n > nbytes then nbytes else n, b, t)))
        in if status \<noteq> 0 then (Some pcm', produced, a\<lparr>playback := False\<rparr>, s')
           else (Some pcm', produced, a, s'))"

datatype peek = PeekError | PeekHole nat | PeekData "byte list"

text \<open>The two callbacks the backend holds; a \<open>std::function\<close> starts out empty.\<close>

record ('d, 'w) callbacks =
  data_callback :: "'d option"
  write_callback :: "'w option"

definition no_callbacks :: "('d, 'w) callbacks" where
  "no_callbacks = \<lparr>data_callback = None, write_callback = None\<rparr>"

definition set_data_callback :: "'d \<Rightarrow> ('d, 'w) callbacks \<Rightarrow> ('d, 'w) callbacks" where
  "set_data_callback cb cbs = cbs\<lparr>data_callback := Some cb\<rparr>"

definition set_write_callback :: "'w \<Rightarrow> ('d, 'w) callbacks \<Rightarrow> ('d, 'w) callbacks" where
  "set_write_callback cb cbs = cbs\<lparr>write_callback := Some cb\<rparr>"

text \<open>A data callback gets the bytes of a fragment; it returns or throws, and changes its own state.\<close>

type_synonym 's data_callback = "byte list \<Rightarrow> 's \<Rightarrow> (string + unit) \<times> 's"

text \<open>
  \<open>stream_read_cb\<close>, given what successive calls of \<open>pa_stream_peek\<close> find; when they are used up
  the buffer is empty and peek reports length 0. The result is how the callback ended, the consumer's
  state and the number of \<open>pa_stream_drop\<close> calls: an exception of the data callback leaves the loop
  before its fragment is dropped.
\<close>

fun stream_read_cb :: "'s data_callback option \<Rightarrow> peek list \<Rightarrow> 's \<Rightarrow> (string + unit) \<times> 's \<times> nat" where
  "stream_read_cb cb [] s = (Inr (), s, 0)"
| "stream_read_cb cb (PeekError # ps) s = (Inr (), s, 0)"
| "stream_read_cb cb (PeekHole n # ps) s =
     (if n = 0 then (Inr (), s, 0)
      else case stream_read_cb cb ps s of (res, s', d) \<Rightarrow> (res, s', Suc d))"
| "stream_read_cb cb (PeekData data # ps) s =
     (if data = [] then (Inr (), s, 0)
      else case (case cb of None \<Rightarrow> (Inr (), s) | Some f \<Rightarrow> f data s) of
          (Inl exc, s1) \<Rightarrow> (Inl exc, s1, 0)
        | (Inr u, s1) \<Rightarrow> (case stream_read_cb cb ps s1 of (res, s', d) \<Rightarrow> (res, s', Suc d)))"

section \<open>Module callbacks\<close>

record module_info =
  mod_index :: u32
  mod_name :: "string option"
  mod_argument :: "string option"

definition pa_module_list_cb ::
    "string \<Rightarrow> module_info option \<times> int \<Rightarrow> u32 list \<Rightarrow> u32 list" where
  "pa_module_list_cb source_name_prefix = (\<lambda>(info, eol) indices.
     if eol > 0 then indices
     else case info of
       None \<Rightarrow> indices
     | Some i \<Rightarrow> (case (mod_name i, mod_argument i) of
         (Some nm, Some args) \<Rightarrow>
           if nm \<noteq> ''module-pipe-source'' then indices
           else if \<not> contains_str (''source_name='' @ source_name_prefix) args then indices
           else indices @ [mod_index i]
       | _ \<Rightarrow> indices))"

text \<open>\<open>pa_load_module_cb\<close> and \<open>pa_ctx_success_cb\<close> store their argument through the user data.\<close>

definition pa_load_module_cb :: "u32 \<Rightarrow> u32 \<Rightarrow> u32" where
  "pa_load_module_cb idx mod_idx = idx"

definition pa_ctx_success_cb :: "int \<Rightarrow> int \<Rightarrow> int" where
  "pa_ctx_success_cb success out = success"


section \<open>Facts about the callbacks\<close>

lemma stop_recording_idem [simp]: "stop_recording (stop_recording a) = stop_recording a"
  by (simp add: stop_recording_def)

lemma stop_recording_flags [simp]:
  "\<not> recording (stop_recording a)" "\<not> playback (stop_recording a)"
  by (simp_all add: stop_recording_def)

interpretation audio_stop: latch stop_recording "\<lambda>a :: audio. \<not> recording a \<and> \<not> playback a"
  by unfold_locales (simp_all add: stop_recording_def)

definition source_device :: "device_info \<Rightarrow> audio_device" where
  "source_device i = \<lparr>dev_name = info_name i, description = info_description i,
     dev_index = info_index i, sample_rate = info_rate i, channels = info_channels i,
     is_monitor = (monitor_of_sink i \<noteq> pa_invalid_index), is_default = False, is_source = True\<rparr>"

definition sink_device :: "device_info \<Rightarrow> audio_device" where
  "sink_device i = \<lparr>dev_name = info_name i, description = info_description i,
     dev_index = info_index i, sample_rate = info_rate i, channels = info_channels i,
     is_monitor = False, is_default = False, is_source = False\<rparr>"

lemma run_list_cb_append:
  "run_list_cb cb (xs @ ys) ds = bind_err (run_list_cb cb xs ds) (run_list_cb cb ys)"
proof (induction xs arbitrary: ds)
  case (Cons x xs)
  then show ?case by (cases "cb x ds") simp_all
qed simp

lemma device_cb_end [simp]:
  "pa_sourcelist_cb (None, eol) ds = (if eol > 0 then Inr ds else Inl NullDeref)"
  "pa_sinklist_cb (None, eol) ds = (if eol > 0 then Inr ds else Inl NullDeref)"
  by (simp_all add: pa_sourcelist_cb_def pa_sinklist_cb_def)

lemma run_sources:
  "run_list_cb pa_sourcelist_cb (map (\<lambda>i. (Some i, 0)) is) ds = Inr (ds @ map source_device is)"
  by (induction "is" arbitrary: ds)
    (simp_all add: pa_sourcelist_cb_def new_audio_device_def source_device_def)

lemma run_sinks:
  "run_list_cb pa_sinklist_cb (map (\<lambda>i. (Some i, 0)) is) ds = Inr (ds @ map sink_device is)"
  by (induction "is" arbitrary: ds)
    (simp_all add: pa_sinklist_cb_def new_audio_device_def sink_device_def)

text \<open>What \<open>stream_read_cb\<close> consumes, and the audio in it.\<close>

fun consumed :: "peek list \<Rightarrow> peek list" where
  "consumed [] = []"
| "consumed (p # ps) = (if p = PeekError \<or> p = PeekHole 0 \<or> p = PeekData [] then [] else p # consumed ps)"

fun peek_data :: "peek \<Rightarrow> byte list option" where
  "peek_data (PeekData d) = Some d"
| "peek_data p = None"

definition fragments :: "peek list \<Rightarrow> byte list list" where
  "fragments ps = List.map_filter peek_data (consumed ps)"

text \<open>What a data callback makes of a run of fragments: it stops at the first one it throws on.\<close>

fun consume :: "'s data_callback \<Rightarrow> byte list list \<Rightarrow> 's \<Rightarrow> (string + unit) \<times> 's" where
  "consume f [] s = (Inr (), s)"
| "consume f (d # ds) s = (case f d s of
     (Inl exc, s1) \<Rightarrow> (Inl exc, s1)
   | (Inr u, s1) \<Rightarrow> consume f ds s1)"

lemma consume_append:
  "consume f (xs @ ys) s = (case consume f xs s of
     (Inl exc, s1) \<Rightarrow> (Inl exc, s1) | (Inr u, s1) \<Rightarrow> consume f ys s1)"
  by (induction xs arbitrary: s) (auto split: prod.splits sum.splits)

lemma consume_append_Inr [simp]: "consume f xs s = (Inr u, s1) \<Longrightarrow> consume f (xs @ ys) s = consume f ys s1"
  by (simp add: consume_append)

lemma consume_append_Inl [simp]: "consume f xs s = (Inl exc, s1) \<Longrightarrow> consume f (xs @ ys) s = (Inl exc, s1)"
  by (simp add: consume_append)

lemma consume_no_throw: "consume (\<lambda>d s. (Inr (), f d s)) ds s = (Inr (), fold f ds s)"
  by (induction ds arbitrary: s) simp_all

lemma consume_invariant:
  assumes "P s" and "\<And>d s res t. P s \<Longrightarrow> f d s = (res, t) \<Longrightarrow> P t"
  shows "P (snd (consume f ds s))"
  using assms(1)
proof (induction ds arbitrary: s)
  case (Cons d ds)
  obtain r t where c: "f d s = (r, t)" by (cases "f d s")
  from assms(2) [OF Cons.prems c] have "P t" .
  with Cons.IH [of t] c show ?case by (cases r) simp_all
qed simp

lemma stream_read_cb_eq:
  "stream_read_cb None ps s = (Inr (), s, length (consumed ps)) \<and>
   (\<exists>n. stream_read_cb (Some f) ps s = (fst (consume f (fragments ps) s), snd (consume f (fragments ps) s), n) \<and>
        (if fst (consume f (fragments ps) s) = Inr () then n = length (consumed ps) else n < length (consumed ps)))"
proof (induction ps arbitrary: s)
  case Nil
  then show ?case by (simp add: fragments_def List.map_filter_def)
next
  case (Cons p ps)
  show ?case
  proof (cases p)
    case (PeekData d)
    obtain r t where c: "f d s = (r, t)" by (cases "f d s")
    from Cons.IH [of t] Cons.IH [of s] c PeekData show ?thesis
      by (cases r) (auto simp: fragments_def List.map_filter_def split: if_splits)
  next
    case (PeekHole n)
    from Cons.IH [of s] PeekHole show ?thesis
      by (auto simp: fragments_def List.map_filter_def split: if_splits)
  qed (simp add: fragments_def List.map_filter_def)
qed

lemma stream_read_cb_consume:
  "fst (stream_read_cb (Some f) ps s) = fst (consume f (fragments ps) s)"
  "fst (snd (stream_read_cb (Some f) ps s)) = snd (consume f (fragments ps) s)"
  using stream_read_cb_eq [of ps s f] by auto

text \<open>The states among those reported that decide whether the context is usable.\<close>

definition decisive :: "context_state list \<Rightarrow> context_state list" where
  "decisive = filter (\<lambda>st. st \<in> {PA_CONTEXT_READY, PA_CONTEXT_FAILED, PA_CONTEXT_TERMINATED})"

lemma decisive_simps [simp]:
  "decisive [] = []"
  "decisive (st # it) = (if st = PA_CONTEXT_READY \<or> st = PA_CONTEXT_FAILED \<or> st = PA_CONTEXT_TERMINATED
                         then st # decisive it else decisive it)"
  by (simp_all add: decisive_def)

lemma pa_state_cb_cases:
  "pa_state_cb st r = (if st = PA_CONTEXT_READY then 1
     else if st = PA_CONTEXT_FAILED \<or> st = PA_CONTEXT_TERMINATED then 2 else r)"
  by (cases st) (simp_all add: pa_state_cb_def)

lemma fold_pa_state_cb:
  "fold pa_state_cb it r = (if decisive it = [] then r
     else if last (decisive it) = PA_CONTEXT_READY then 1 else 2)"
  by (induction it arbitrary: r) (auto simp: pa_state_cb_cases)

context pcm_source
begin

text \<open>A client of the contract: with a well-behaved source the clamp in \<open>stream_write_cb\<close> never
  acts, and what is written is the produced bytes followed by silence.\<close>

lemma stream_write_padded:
  assumes "0 < n" and "cb (replicate n 0) s = (k, pcm, s')"
  shows "stream_write_cb (Some cb) n status a s =
           (Some (take k pcm @ replicate (n - k) 0), k, (if status \<noteq> 0 then a\<lparr>playback := False\<rparr> else a), s')"
proof -
  have "k \<le> n" using produced_le [OF assms(2)] by simp
  moreover have "pcm = take k pcm @ replicate (n - k) 0" by (rule silence_padded [OF assms(2)])
  ultimately show ?thesis using assms by (simp add: stream_write_cb_def)
qed

end

section \<open>Properties\<close>

text \<open>Device discovery. When PulseAudio follows its protocol (one call per device with
  \<open>eol = 0\<close>, then one with \<open>eol > 0\<close>), \<open>get_inputs\<close> returns exactly the reported sources and
  \<open>get_outputs\<close> exactly the reported sinks, in order and with all fields; a source is marked as a
  monitor exactly when it monitors a sink.\<close>

theorem device_lists_complete:
  assumes "concat its = map (\<lambda>i. (Some i, 0)) infos @ [(None, 1)]"
  shows "get_inputs (Op its) = Inr (map source_device infos) \<and>
   get_outputs (Op its) = Inr (map sink_device infos) \<and>
   get_inputs NullOp = Inl (Thrown ''PulseAudio did not create an operation.'') \<and>
   map is_monitor (map source_device infos) = map (\<lambda>i. monitor_of_sink i \<noteq> - 1) infos"
  using assms
  by (simp add: get_inputs_def get_outputs_def run_list_cb_append run_sources run_sinks
      source_device_def pa_invalid_index_def)

theorem device_lists_complete_witness:
  "get_inputs (Op [[], [(Some \<lparr>info_name = ''m'', info_description = ''Mic'', info_index = 4, info_rate = 48000,
       info_channels = 1, monitor_of_sink = 7\<rparr>, 0)], [(None, 1)]]) =
   Inr [\<lparr>dev_name = ''m'', description = ''Mic'', dev_index = 4, sample_rate = 48000, channels = 1,
       is_monitor = True, is_default = False, is_source = True\<rparr>]"
  using device_lists_complete [of "[[], [(Some \<lparr>info_name = ''m'', info_description = ''Mic'', info_index = 4,
       info_rate = 48000, info_channels = 1, monitor_of_sink = 7\<rparr>, 0)], [(None, 1)]]"
      "[\<lparr>info_name = ''m'', info_description = ''Mic'', info_index = 4, info_rate = 48000, info_channels = 1,
         monitor_of_sink = 7\<rparr>]"]
  by (simp add: source_device_def pa_invalid_index_def)

text \<open>Device discovery when PulseAudio reports an error. An error is signalled with a negative
  \<open>eol\<close> and no device; the callbacks only test \<open>eol > 0\<close>, so whatever was found before, they read
  through the null pointer. (The module-list callback does test the pointer.)\<close>

theorem device_list_error_crashes:
  assumes "eol < 0" and "concat its = map (\<lambda>i. (Some i, 0)) infos @ [(None, eol)]"
  shows "get_inputs (Op its) = Inl (Crashed NullDeref) \<and>
         get_outputs (Op its) = Inl (Crashed NullDeref) \<and>
         pa_module_list_cb prefix_str (None, eol) idxs = idxs"
  using assms
  by (simp add: get_inputs_def get_outputs_def run_list_cb_append run_sources run_sinks
      pa_module_list_cb_def)

theorem device_list_error_crashes_witness:
  "(- 1 :: int) < 0 \<and> get_inputs (Op [[(None, - 1)]]) = Inl (Crashed NullDeref)"
  using device_list_error_crashes [of "- 1" "[[(None, - 1)]]" "[]" "[]" "[]"] by simp

text \<open>\<open>stream_read_cb\<close> hands the data callback every fragment that is not a hole, in order,
  up to the first peek that fails or finds the buffer empty, and drops each consumed fragment or
  hole exactly once; without a data callback it only drops. It ends early, with the same exception,
  at the first fragment the callback throws on.\<close>

theorem stream_read_delivers:
  "stream_read_cb None ps s = (Inr (), s, length (consumed ps)) \<and>
   (\<exists>n. stream_read_cb (Some f) ps s = (fst (consume f (fragments ps) s), snd (consume f (fragments ps) s), n) \<and>
        (if fst (consume f (fragments ps) s) = Inr () then n = length (consumed ps) else n < length (consumed ps)))"
  by (rule stream_read_cb_eq)

text \<open>\<open>wait_for_context_ready\<close> returns after the first mainloop iteration in which the context
  became ready, failed or terminated, and its outcome is the last such state reported in that
  iteration; as long as no iteration reports one it keeps waiting.\<close>

theorem context_wait_outcome:
  "wait_for_context_ready its 0 =
     (case find (\<lambda>it. decisive it \<noteq> []) its of
        None \<Rightarrow> None
      | Some it \<Rightarrow> Some (last (decisive it) = PA_CONTEXT_READY))"
proof (induction its)
  case Nil
  then show ?case by (simp add: wait_for_context_ready.simps)
next
  case (Cons it its)
  have "wait_for_context_ready (it # its) 0 = wait_for_context_ready its (fold pa_state_cb it 0)"
    by (subst wait_for_context_ready.simps) simp
  then show ?case
    using Cons.IH
    by (cases "decisive it = []")
       (simp_all add: fold_pa_state_cb wait_for_context_ready.simps [of its 1]
          wait_for_context_ready.simps [of its 2])
qed

end
