(* ===== verification/Shutdown.thy ===== *)
theory Shutdown
  imports Interfaces
begin

text \<open>
  \<open>src/shutdown.cpp\<close>: the process-wide shutdown flag. Nothing in the program clears it.
\<close>

record shutdown_state =
  shutdown_requested :: bool

definition shutdown_init :: shutdown_state where
  "shutdown_init = \<lparr>shutdown_requested = False\<rparr>"

definition request_shutdown :: "shutdown_state \<Rightarrow> shutdown_state" where
  "request_shutdown s = s\<lparr>shutdown_requested := True\<rparr>"

definition is_shutdown_requested :: "shutdown_state \<Rightarrow> bool" where
  "is_shutdown_requested s = shutdown_requested s"

interpretation shutdown_flag: latch request_shutdown is_shutdown_requested
  by unfold_locales (simp_all add: request_shutdown_def is_shutdown_requested_def)

end
