(* ===== verification/Server.thy ===== *)
theory Server
  imports Rtp Audio Shutdown
begin

text \<open>
  \<open>include/server.hxx\<close> and \<open>src/server.cpp\<close>: the sending side. Captured PCM arrives through the
  data callback, is brought to one 20 ms stereo frame, encoded, and handed to RTP. The Opus encoder
  is a parameter: a function from its state, the 1920 samples it reads and the size of the output
  buffer to a return code, the bytes it stores at the start of that buffer, and its next state.
\<close>

section \<open>State\<close>

type_synonym 'e opus_encoder = "'e \<Rightarrow> sample list \<Rightarrow> nat \<Rightarrow> int \<times> byte list \<times> 'e"

definition opus_frame_size :: nat where
  "opus_frame_size = 3840"

record server =
  local_address :: string
  opus_enc_outbuf :: "byte list"
  opus_enc_outbuf_size :: nat
  pcm_stereo_buf :: "sample list"
  device :: audio_device
  running :: bool
  encoder_open :: bool
  srv_rtp :: rtp

section \<open>Encoding\<close>

text \<open>The upmix loop over \<open>i\<close> in \<open>0..<n\<close>.\<close>

fun upmix :: "nat \<Rightarrow> sample list \<Rightarrow> sample list \<Rightarrow> sample list" where
  "upmix 0 inp buf = buf"
| "upmix (Suc i) inp buf = (upmix i inp buf)[2 * i := inp ! i, 2 * i + 1 := inp ! i]"

definition encode_frame ::
    "'e opus_encoder \<Rightarrow> (int \<Rightarrow> string) \<Rightarrow> sample list \<Rightarrow> server \<Rightarrow> 'e \<Rightarrow> (string + unit) \<times> server \<times> 'e" where
  "encode_frame enc opus_strerror encode_in s e = (case enc e (take (960 * 2) encode_in) opus_frame_size of
     (res, out, e') \<Rightarrow>
       let s1 = s\<lparr>opus_enc_outbuf := overwrite (opus_enc_outbuf s) out\<rparr>
       in if res < 0 then (Inl (''Failed to encode opus frame. Reason: '' @ opus_strerror res), s1, e')
          else (Inr (), s1\<lparr>opus_enc_outbuf_size := nat res\<rparr>, e'))"

definition bytes_to_opus ::
    "'e opus_encoder \<Rightarrow> (int \<Rightarrow> string) \<Rightarrow> byte list option \<Rightarrow> server \<Rightarrow> 'e \<Rightarrow> (string + unit) \<times> server \<times> 'e" where
  "bytes_to_opus enc opus_strerror data s e =
     (let s0 = s\<lparr>opus_enc_outbuf_size := 0\<rparr>
      in case data of
        None \<Rightarrow> (Inr (), s0, e)
      | Some bytes \<Rightarrow>
          if length bytes < 2 then (Inr (), s0, e)
          else
            let s1 = s0\<lparr>opus_enc_outbuf := replicate (length (opus_enc_outbuf s0)) 0\<rparr>;
                inp = samples_of_bytes bytes;
                samples_total = length bytes div 2
            in if channels (device s1) = 1
               then if samples_total < 960 then (Inr (), s1, e)
                    else let s2 = s1\<lparr>pcm_stereo_buf := upmix 960 inp (pcm_stereo_buf s1)\<rparr>
                         in encode_frame enc opus_strerror (pcm_stereo_buf s2) s2 e
               else if samples_total < 1920 then (Inr (), s1, e)
                    else encode_frame enc opus_strerror inp s1 e)"

section \<open>The data callback and control\<close>

definition server_data_callback ::
    "uvg_env \<Rightarrow> 'e opus_encoder \<Rightarrow> (int \<Rightarrow> string) \<Rightarrow> byte list option \<Rightarrow> server \<times> 'e \<times> uvg_call list
       \<Rightarrow> (string + unit) \<times> server \<times> 'e \<times> uvg_call list" where
  "server_data_callback env enc opus_strerror data = (\<lambda>(s, e, tr).
     case bytes_to_opus enc opus_strerror data s e of
       (Inl err, s1, e1) \<Rightarrow> (Inl err, s1, e1, tr)
     | (Inr u, s1, e1) \<Rightarrow>
         let opus_data_len = opus_enc_outbuf_size s1
         in if opus_data_len = 0 then (Inr (), s1, e1, tr)
            else (case write_frames env (take opus_data_len (opus_enc_outbuf s1)) (srv_rtp s1, tr) of
                (r, tr1) \<Rightarrow> (Inr (), s1\<lparr>srv_rtp := r\<rparr>, e1, tr1)))"

text \<open>The constructor's call of \<open>set_data_callback\<close>; libpulse never passes the callback a null pointer.\<close>

definition install_data_callback :: "uvg_env \<Rightarrow> 'e opus_encoder \<Rightarrow> (int \<Rightarrow> string)
    \<Rightarrow> ((server \<times> 'e \<times> uvg_call list) data_callback, 'w) callbacks
    \<Rightarrow> ((server \<times> 'e \<times> uvg_call list) data_callback, 'w) callbacks" where
  "install_data_callback env enc opus_strerror =
     set_data_callback (\<lambda>data. server_data_callback env enc opus_strerror (Some data))"

lemma data_callback_installed [simp]:
  "data_callback (install_data_callback env enc opus_strerror cbs) =
     Some (\<lambda>data. server_data_callback env enc opus_strerror (Some data))"
  by (simp add: install_data_callback_def set_data_callback_def)

definition server_stop ::
    "server \<times> uvg_call list \<times> 'a audio_scheme \<Rightarrow> server \<times> uvg_call list \<times> 'a audio_scheme" where
  "server_stop = (\<lambda>(s, tr, a). case stop (srv_rtp s, tr) of
     (r, tr1) \<Rightarrow> (s\<lparr>running := False, srv_rtp := r\<rparr>, tr1, stop_recording a))"

text \<open>
  \<open>run\<close> blocks in the backend's \<open>record\<close>, a parameter here (it calls the data callback, so it changes
  the server too; \<open>None\<close> when it does not return), and rethrows what it throws.
\<close>

definition server_run ::
    "(audio_device \<Rightarrow> server \<times> 'w \<Rightarrow> ((string + unit) \<times> server \<times> 'w) option) \<Rightarrow> server \<times> 'w
       \<Rightarrow> ((string + unit) \<times> server \<times> 'w) option" where
  "server_run record_dev = (\<lambda>(s, w).
     let s1 = s\<lparr>running := True\<rparr>
     in case record_dev (device s1) (s1, w) of
          None \<Rightarrow> None
        | Some (Inl err, s2, w2) \<Rightarrow> Some (Inl err, s2\<lparr>running := False\<rparr>, w2)
        | Some (Inr u, s2, w2) \<Rightarrow> Some (Inr (), s2\<lparr>running := False\<rparr>, w2))"

text \<open>The destructor.\<close>

definition destroy_server ::
    "server \<times> uvg_call list \<times> 'a audio_scheme \<Rightarrow> server \<times> uvg_call list \<times> 'a audio_scheme" where
  "destroy_server p = (case server_stop p of (s, tr, a) \<Rightarrow> (s\<lparr>encoder_open := False\<rparr>, tr, a))"

text \<open>
  The constructor: the RTP member is built first; if creating the encoder then fails
  (\<open>enc_error\<close> is not \<open>OPUS_OK\<close>), the exception destroys the finished member, which stops it.
\<close>

definition new_server ::
    "uvg_env \<Rightarrow> int \<Rightarrow> (int \<Rightarrow> string) \<Rightarrow> socket \<Rightarrow> socket \<Rightarrow> audio_device \<Rightarrow> uvg_call list
       \<Rightarrow> (rtp_error + server) \<times> uvg_call list" where
  "new_server env enc_error opus_strerror lsock rsock dev tr =
     (case new_rtp_sender env lsock rsock tr of
        (Inl e, tr1) \<Rightarrow> (Inl e, tr1)
      | (Inr r, tr1) \<Rightarrow>
          if enc_error \<noteq> 0
          then (Inl (Throw (''Failed to create opus encoder. Reason: '' @ opus_strerror enc_error)),
                snd (destroy_rtp (r, tr1)))
          else (Inr \<lparr>local_address = fst lsock, opus_enc_outbuf = replicate opus_frame_size 0,
                     opus_enc_outbuf_size = 0, pcm_stereo_buf = replicate (960 * 2) 0, device = dev,
                     running = False, encoder_open = True, srv_rtp = r\<rparr>, tr1))"

section \<open>Choosing a device\<close>

definition is_space :: "char \<Rightarrow> bool" where
  "is_space c \<longleftrightarrow> of_char c \<in> {9, 10, 11, 12, 13, 32 :: nat}"

definition is_digit_char :: "char \<Rightarrow> bool" where
  "is_digit_char c \<longleftrightarrow> 48 \<le> (of_char c :: nat) \<and> (of_char c :: nat) \<le> 57"

definition digits_value :: "string \<Rightarrow> nat" where
  "digits_value ds = foldl (\<lambda>v c. 10 * v + (of_char c - 48)) 0 ds"

text \<open>
  \<open>iss >> idx\<close> for a 32-bit \<open>int\<close>: leading blanks, an optional sign, at least one digit; a value
  out of range fails. \<open>None\<close> is failure, otherwise the value and the unread rest.
\<close>

definition read_int :: "string \<Rightarrow> (int \<times> string) option" where
  "read_int line =
     (let str = dropWhile is_space line;
          neg = (str \<noteq> [] \<and> hd str = CHR ''-'');
          body = (if str \<noteq> [] \<and> (hd str = CHR ''-'' \<or> hd str = CHR ''+'') then tl str else str);
          ds = takeWhile is_digit_char body;
          v = (if neg then - int (digits_value ds) else int (digits_value ds))
      in if ds = [] \<or> v < - 2147483648 \<or> v > 2147483647 then None
         else Some (v, dropWhile is_digit_char body))"

text \<open>What is printed before the line is read: one numbered line per device, and the prompt.\<close>

definition menu_line :: "audio_device list \<Rightarrow> nat \<Rightarrow> string" where
  "menu_line inputs i = show_nat (i + 1) @ '')'' @ [CHR 0x09] @ description (inputs ! i) @ [CHR 0x0A]"

definition device_menu :: "audio_device list \<Rightarrow> string" where
  "device_menu inputs = concat (map (menu_line inputs) [0..<length inputs]) @ ''Choose a device to record from (1): ''"

text \<open>\<open>Inl ()\<close> is the \<open>std::out_of_range\<close> of \<open>inputs.at\<close>.\<close>

definition choose_device_interactive :: "string \<Rightarrow> audio_device list \<Rightarrow> unit + audio_device" where
  "choose_device_interactive line inputs =
     (let idx = (case read_int line of
            None \<Rightarrow> 1
          | Some (i, rest) \<Rightarrow>
              if dropWhile is_space rest \<noteq> [] \<or> i \<le> 0 \<or> i > int (length inputs) then 1 else i)
      in if nat (idx - 1) < length inputs then Inr (inputs ! nat (idx - 1)) else Inl ())"


section \<open>Facts\<close>

definition dup_samples :: "sample list \<Rightarrow> sample list" where
  "dup_samples ss = concat (map (\<lambda>x. [x, x]) ss)"

lemma length_dup_samples [simp]: "length (dup_samples ss) = 2 * length ss"
  by (induction ss) (simp_all add: dup_samples_def)

lemma dup_samples_snoc: "dup_samples (ss @ [x]) = dup_samples ss @ [x, x]"
  by (simp add: dup_samples_def)

lemma upmix_eq:
  "n \<le> length inp \<Longrightarrow> 2 * n \<le> length buf \<Longrightarrow> upmix n inp buf = dup_samples (take n inp) @ drop (2 * n) buf"
proof (induction n)
  case (Suc n)
  obtain a b rest where d: "drop (2 * n) buf = a # b # rest"
    using Suc.prems(2) by (metis Suc_1 Suc_leD Suc_le_lessD Cons_nth_drop_Suc mult_Suc_right add_2_eq_Suc)
  then have "drop (2 * Suc n) buf = rest"
    by (metis add_2_eq_Suc drop_drop drop_Suc_Cons drop0 mult_Suc_right)
  with Suc d show ?case
    by (simp add: take_Suc_conv_app_nth dup_samples_snoc list_update_append)
qed (simp add: dup_samples_def)

text \<open>The fixed sizes of the two buffers.\<close>

definition server_ok :: "server \<Rightarrow> bool" where
  "server_ok s \<longleftrightarrow> length (opus_enc_outbuf s) = opus_frame_size \<and> length (pcm_stereo_buf s) = 960 * 2"

text \<open>The 1920 samples one capture fragment gives the encoder, or none if it is too short.\<close>

definition encoder_input :: "audio_device \<Rightarrow> byte list \<Rightarrow> sample list option" where
  "encoder_input dev bytes =
     (let inp = samples_of_bytes bytes
      in if channels dev = 1
         then (if length inp < 960 then None else Some (dup_samples (take 960 inp)))
         else (if length inp < 1920 then None else Some (take 1920 inp)))"

lemma encode_frame_fields [simp]:
  "length (opus_enc_outbuf (fst (snd (encode_frame enc opus_strerror inp s e)))) = length (opus_enc_outbuf s)"
  "pcm_stereo_buf (fst (snd (encode_frame enc opus_strerror inp s e))) = pcm_stereo_buf s"
  "srv_rtp (fst (snd (encode_frame enc opus_strerror inp s e))) = srv_rtp s"
  "device (fst (snd (encode_frame enc opus_strerror inp s e))) = device s"
  by (auto simp: encode_frame_def Let_def split: prod.splits)

lemma bytes_to_opus_fields:
  assumes "server_ok s"
  shows "server_ok (fst (snd (bytes_to_opus enc opus_strerror data s e)))"
    and "srv_rtp (fst (snd (bytes_to_opus enc opus_strerror data s e))) = srv_rtp s"
    and "device (fst (snd (bytes_to_opus enc opus_strerror data s e))) = device s"
proof -
  have "length (upmix 960 (samples_of_bytes b) (pcm_stereo_buf s)) = 1920"
    if "960 \<le> length b div 2" for b
    using upmix_eq [of 960 "samples_of_bytes b" "pcm_stereo_buf s"] that assms
    by (simp add: server_ok_def)
  then show "server_ok (fst (snd (bytes_to_opus enc opus_strerror data s e)))"
    using assms by (auto simp: bytes_to_opus_def Let_def server_ok_def not_less split: option.splits)
  show "srv_rtp (fst (snd (bytes_to_opus enc opus_strerror data s e))) = srv_rtp s"
    and "device (fst (snd (bytes_to_opus enc opus_strerror data s e))) = device s"
    by (simp_all add: bytes_to_opus_def Let_def split: option.splits)
qed

lemma bytes_to_opus_result:
  assumes "server_ok s"
  shows "case encoder_input (device s) bytes of
     None \<Rightarrow> \<exists>s1. bytes_to_opus enc opus_strerror (Some bytes) s e = (Inr (), s1, e) \<and> opus_enc_outbuf_size s1 = 0
   | Some inp \<Rightarrow> \<exists>s1. bytes_to_opus enc opus_strerror (Some bytes) s e =
        (if fst (enc e inp 3840) < 0 then Inl (''Failed to encode opus frame. Reason: '' @ opus_strerror (fst (enc e inp 3840))) else Inr (),
         s1, snd (snd (enc e inp 3840))) \<and>
        opus_enc_outbuf s1 = overwrite (replicate 3840 0) (fst (snd (enc e inp 3840))) \<and>
        opus_enc_outbuf_size s1 = nat (fst (enc e inp 3840))"
proof -
  let ?inp = "samples_of_bytes bytes"
  have out: "length (opus_enc_outbuf s) = 3840" "length (pcm_stereo_buf s) = 1920"
    using assms by (simp_all add: server_ok_def opus_frame_size_def)
  have up: "upmix 960 ?inp (pcm_stereo_buf s) = dup_samples (take 960 ?inp)" if "960 \<le> length bytes div 2"
    using upmix_eq [of 960 ?inp "pcm_stereo_buf s"] that out(2) by simp
  show ?thesis
    using out up
    by (cases "length bytes < 2")
      (auto simp: encoder_input_def bytes_to_opus_def encode_frame_def Let_def opus_frame_size_def not_less
         split: prod.splits)
qed

end
