(* ===== verification/Server_Facts.thy ===== *)
theory Server_Facts
  imports Server
begin

text \<open>
  Properties of \<open>src/server.cpp\<close>: what one capture fragment becomes, what reaches RTP before and
  after a stop, construction that fails, and the interactive choice of a device.
\<close>

section \<open>From capture to RTP\<close>

text \<open>What libopus documents of \<open>opus_encode\<close>: an error or the length of the packet it stored, which
  fits the buffer it was given.\<close>

definition opus_encode_contract :: "'e opus_encoder \<Rightarrow> bool" where
  "opus_encode_contract enc \<longleftrightarrow> (\<forall>e inp m ret out e'. enc e inp m = (ret, out, e') \<longrightarrow>
     ret \<le> int m \<and> (0 \<le> ret \<longrightarrow> length out = nat ret))"

definition toy_encoder :: "nat opus_encoder" where
  "toy_encoder e inp m = (if m = 0 then (- 1, [], Suc e) else (1, [ucast (inp ! 0)], Suc e))"

lemma toy_encoder_contract: "opus_encode_contract toy_encoder"
  by (simp add: opus_encode_contract_def toy_encoder_def)

definition toy_device :: "byte \<Rightarrow> audio_device" where
  "toy_device ch = new_audio_device ''mic'' ''Microphone'' 3 48000 ch False True"

definition toy_server :: "byte \<Rightarrow> server" where
  "toy_server ch = \<lparr>local_address = ''a'', opus_enc_outbuf = replicate opus_frame_size 0,
     opus_enc_outbuf_size = 0, pcm_stereo_buf = replicate (960 * 2) 0, device = toy_device ch,
     running = False, encoder_open = True, srv_rtp = sample_sender\<rparr>"

lemma toy_server_ok: "server_ok (toy_server ch)" "is_initialised (srv_rtp (toy_server ch))"
  by (simp_all add: server_ok_def toy_server_def sample_sender_def is_initialised_def)

lemma data_callback_step:
  assumes "opus_encode_contract enc" and "server_ok s" and "is_initialised (srv_rtp s)"
    and "server_data_callback env enc opus_strerror (Some bytes) (s, e, tr) = (res, s', e', tr')"
  shows "case encoder_input (device s) bytes of
     None \<Rightarrow> res = Inr () \<and> e' = e \<and> tr' = tr
   | Some inp \<Rightarrow> (case enc e inp 3840 of (n, out, e1) \<Rightarrow> e' = e1 \<and>
       (if n < 0 then res = Inl (''Failed to encode opus frame. Reason: '' @ opus_strerror n) \<and> tr' = tr
        else res = Inr () \<and> pushed_frames tr' = pushed_frames tr @ (if out = [] then [] else [out])))"
proof (cases "encoder_input (device s) bytes")
  case None
  with bytes_to_opus_result [OF assms(2), where enc = enc and opus_strerror = opus_strerror and bytes = bytes and e = e] assms(4) show ?thesis
    by (auto simp: server_data_callback_def)
next
  case (Some inp)
  obtain n out e1 where enc: "enc e inp 3840 = (n, out, e1)" by (cases "enc e inp 3840")
  obtain s1 where b: "bytes_to_opus enc opus_strerror (Some bytes) s e =
        (if n < 0 then Inl (''Failed to encode opus frame. Reason: '' @ opus_strerror n) else Inr (), s1, e1)"
      "opus_enc_outbuf s1 = overwrite (replicate 3840 0) out" "opus_enc_outbuf_size s1 = nat n"
    using bytes_to_opus_result [OF assms(2), where enc = enc and opus_strerror = opus_strerror and bytes = bytes and e = e] by (auto simp: Some enc)
  have rtp: "srv_rtp s1 = srv_rtp s" using bytes_to_opus_fields(2) [OF assms(2), of enc opus_strerror "Some bytes" e] b(1) by simp
  have out: "n \<le> 3840 \<and> (0 \<le> n \<longrightarrow> length out = nat n)"
    using assms(1) enc unfolding opus_encode_contract_def by (metis of_nat_numeral)
  then have "take (nat n) (opus_enc_outbuf s1) = out" if "0 \<le> n"
    using that b(2) take_overwrite [of "nat n" out "replicate 3840 0"] by (simp add: nat_le_iff)
  then show ?thesis
    using assms(3,4) out
    by (cases "n \<le> 0")
      (auto simp: Some enc server_data_callback_def b rtp write_frames_live trace_simps Let_def split: if_splits)
qed

text \<open>C19. One fragment of captured audio. A fragment too short for 20 ms of the device's channel
  layout is dropped without calling the encoder. Otherwise the encoder sees exactly 1920 samples:
  for a one-channel device the first 960 samples each duplicated to both channels, for any other
  device the first 1920 samples as they are. If it fails the exception leaves RTP untouched; if it
  returns a packet, exactly that packet is pushed to the stream; an empty packet is not pushed.\<close>

theorem data_callback_sends:
  assumes "opus_encode_contract enc" and "server_ok s" and "is_initialised (srv_rtp s)"
    and "server_data_callback env enc opus_strerror (Some bytes) (s, e, tr) = (res, s', e', tr')"
  shows "case encoder_input (device s) bytes of
     None \<Rightarrow> res = Inr () \<and> e' = e \<and> tr' = tr
   | Some inp \<Rightarrow> (case enc e inp 3840 of (n, out, e1) \<Rightarrow> e' = e1 \<and>
       (if n < 0 then res = Inl (''Failed to encode opus frame. Reason: '' @ opus_strerror n) \<and> tr' = tr
        else res = Inr () \<and> pushed_frames tr' = pushed_frames tr @ (if out = [] then [] else [out])))"
  by (rule data_callback_step [OF assms])

theorem data_callback_sends_witness:
  "\<exists>res s' e' tr'. server_data_callback sample_uvg toy_encoder (\<lambda>_. ''bad'') (Some (replicate 1920 7)) (toy_server 1, 0, []) = (res, s', e', tr') \<and>
     res = Inr () \<and> pushed_frames tr' = [[7]]"
proof -
  obtain res s' e' tr' where r: "server_data_callback sample_uvg toy_encoder (\<lambda>_. ''bad'') (Some (replicate 1920 7)) (toy_server 1, 0, []) = (res, s', e', tr')"
    by (metis surj_pair)
  have "sample_of_bytes 7 7 = 1799" by (simp add: sample_of_bytes_def)
  then have s: "samples_of_bytes (replicate (2 * k) (7 :: byte)) = replicate k 1799" for k
    by (induction k) simp_all
  from s [of 960] have "encoder_input (device (toy_server 1)) (replicate 1920 7) = Some (dup_samples (replicate 960 1799))"
    by (simp add: encoder_input_def toy_server_def toy_device_def new_audio_device_def)
  moreover have "toy_encoder 0 (dup_samples (replicate 960 1799)) 3840 = (1, [7], 1)"
  proof -
    have "replicate 960 (1799 :: sample) = 1799 # replicate 959 1799" using replicate_Suc [of 959 "1799 :: sample"] by (simp del: replicate_Suc)
    then show ?thesis by (simp add: toy_encoder_def dup_samples_def)
  qed
  ultimately show ?thesis
    using data_callback_sends [OF toy_encoder_contract toy_server_ok r] r by simp
qed

text \<open>How many bytes of one fragment are used.\<close>

definition frame_bytes :: "audio_device \<Rightarrow> nat" where
  "frame_bytes dev = (if channels dev = 1 then 1920 else 3840)"

text \<open>At most one frame per fragment. Whatever follows the first 20 ms of a fragment is thrown
  away: extending a fragment that already holds one frame by any further audio changes neither the
  encoder's input nor any part of the outcome.\<close>

theorem fragment_tail_dropped:
  assumes "server_ok s" and "frame_bytes (device s) \<le> length bytes"
  shows "bytes_to_opus enc opus_strerror (Some (bytes @ extra)) s e = bytes_to_opus enc opus_strerror (Some bytes) s e"
proof (cases "channels (device s) = 1")
  case True
  let ?a = "samples_of_bytes bytes" and ?b = "samples_of_bytes (bytes @ extra)"
  have "take 960 ?b = take 960 ?a"
    using assms(2) True by (simp add: take_samples_of_bytes frame_bytes_def)
  then have "upmix 960 ?b (pcm_stereo_buf s) = upmix 960 ?a (pcm_stereo_buf s)"
    using upmix_eq [of 960 ?a "pcm_stereo_buf s"] upmix_eq [of 960 ?b "pcm_stereo_buf s"] assms True
    by (simp add: server_ok_def frame_bytes_def)
  with assms True show ?thesis
    by (simp add: bytes_to_opus_def Let_def frame_bytes_def)
next
  case False
  have "take 1920 (samples_of_bytes (bytes @ extra)) = take 1920 (samples_of_bytes bytes)"
    using assms(2) False by (simp add: take_samples_of_bytes frame_bytes_def)
  with assms False show ?thesis
    by (simp add: bytes_to_opus_def Let_def frame_bytes_def encode_frame_def)
qed

theorem fragment_tail_dropped_witness:
  "bytes_to_opus toy_encoder (\<lambda>_. ''bad'') (Some (replicate 3840 1 @ replicate 3840 2)) (toy_server 2) 0 =
   bytes_to_opus toy_encoder (\<lambda>_. ''bad'') (Some (replicate 3840 1)) (toy_server 2) 0"
  by (rule fragment_tail_dropped [OF toy_server_ok(1)])
    (simp add: frame_bytes_def toy_server_def toy_device_def new_audio_device_def)

section \<open>Stopping\<close>

text \<open>A run of data callbacks; an exception ends one callback, and the next fragment starts afresh.\<close>

definition capture :: "uvg_env \<Rightarrow> 'e opus_encoder \<Rightarrow> (int \<Rightarrow> string) \<Rightarrow> byte list option list
    \<Rightarrow> server \<times> 'e \<times> uvg_call list \<Rightarrow> server \<times> 'e \<times> uvg_call list" where
  "capture env enc opus_strerror = fold (\<lambda>data p. snd (server_data_callback env enc opus_strerror data p))"

lemma data_callback_stopped:
  assumes "server_ok s" and "stopped (srv_rtp s)"
  shows "\<exists>s1 e1. snd (server_data_callback env enc opus_strerror data (s, e, tr)) = (s1, e1, tr) \<and> server_ok s1 \<and>
           srv_rtp s1 = srv_rtp s"
proof -
  obtain res s1 e1 where b: "bytes_to_opus enc opus_strerror data s e = (res, s1, e1)" by (metis surj_pair)
  have f: "server_ok s1" "srv_rtp s1 = srv_rtp s"
    using bytes_to_opus_fields [OF assms(1), of enc opus_strerror data e] b by simp_all
  have "write_frames env fr (srv_rtp s1, tr) = (srv_rtp s1, tr)" for fr
    using f(2) assms(2) by (simp add: write_frames_def)
  then show ?thesis
    using b f assms(2) by (cases res) (auto simp: server_data_callback_def Let_def server_ok_def)
qed

lemma capture_stopped:
  "server_ok s \<Longrightarrow> stopped (srv_rtp s) \<Longrightarrow> snd (snd (capture env enc opus_strerror ds (s, e, tr))) = tr"
proof (induction ds arbitrary: s e)
  case (Cons d ds)
  obtain s1 e1 where "snd (server_data_callback env enc opus_strerror d (s, e, tr)) = (s1, e1, tr)"
      "server_ok s1" "srv_rtp s1 = srv_rtp s"
    using data_callback_stopped [OF Cons.prems, of env enc opus_strerror d e tr] by blast
  with Cons show ?case by (simp add: capture_def)
qed (simp add: capture_def)

text \<open>A stopped server sends nothing. \<open>Server::stop\<close> destroys the stream before the session and
  clears the run flags; fragments that PulseAudio still delivers afterwards cause no call to
  uvgRTP at all, whatever they hold.\<close>

theorem stopped_server_silent:
  fixes a :: audio
  assumes "server_ok s" and "is_initialised (srv_rtp s)"
    and "server_stop (s, tr, a) = (s1, tr1, a1)"
  shows "tr1 = tr @ [DestroyStream (the (session (srv_rtp s))) (the (stream (srv_rtp s))),
                     DestroySession (the (session (srv_rtp s)))] \<and>
         \<not> running s1 \<and> \<not> recording a1 \<and> \<not> playback a1 \<and>
         snd (snd (capture env enc opus_strerror ds (s1, e, tr1))) = tr1"
proof -
  from assms have s1: "s1 = s\<lparr>running := False, srv_rtp := (srv_rtp s)\<lparr>stopped := True, stream := None, session := None\<rparr>\<rparr>"
    and tr1: "tr1 = tr @ [DestroyStream (the (session (srv_rtp s))) (the (stream (srv_rtp s))),
                     DestroySession (the (session (srv_rtp s)))]"
    and a1: "a1 = stop_recording a"
    by (auto simp: server_stop_def stop_live)
  have "server_ok s1" "stopped (srv_rtp s1)" using assms(1) by (simp_all add: s1 server_ok_def)
  from capture_stopped [OF this] show ?thesis by (simp add: tr1 s1 a1)
qed

theorem stopped_server_silent_witness:
  "\<exists>s1 tr1 a1. server_stop (toy_server 1, [], \<lparr>recording = True, playback = False\<rparr>) = (s1, tr1, a1) \<and>
     tr1 = [DestroyStream 0 1, DestroySession 0] \<and>
     snd (snd (capture sample_uvg toy_encoder (\<lambda>_. ''bad'') [Some (replicate 1920 7), None] (s1, 0, tr1))) = tr1"
proof -
  obtain s1 tr1 a1 where st: "server_stop (toy_server 1, [], \<lparr>recording = True, playback = False\<rparr>) = (s1, tr1, a1)"
    by (metis surj_pair)
  from stopped_server_silent [OF toy_server_ok st, where env = sample_uvg and enc = toy_encoder
      and ds = "[Some (replicate 1920 7), None]" and e = 0 and opus_strerror = "\<lambda>_. ''bad''"] st
  show ?thesis by (auto simp: toy_server_def sample_sender_def)
qed

section \<open>Construction\<close>

text \<open>Construction of a server. If the encoder cannot be created, the RTP session opened just
  before is closed again, so uvgRTP is left with the sessions it had; if construction succeeds the
  server is ready to send: its buffers have their fixed sizes, the RTP object is initialised and
  nothing has been pushed.\<close>

theorem server_construction:
  assumes "new_rtp_sender env l r tr = (Inr rt, tr0)"
  shows "case new_server env oe es l r dev tr of
     (Inl err, tr1) \<Rightarrow> oe \<noteq> 0 \<and> live_sessions tr1 = live_sessions tr
   | (Inr s, tr1) \<Rightarrow> oe = 0 \<and> server_ok s \<and> is_initialised (srv_rtp s) \<and> device s = dev \<and>
       pushed_frames tr1 = pushed_frames tr"
proof (cases "oe = 0")
  case True
  with assms new_rtp_sender_ready [OF assms] show ?thesis
    by (simp add: new_server_def server_ok_def)
next
  case False
  from assms obtain s st where
      rt: "rt = \<lparr>session = Some s, stream = Some st, stopped = False, recv_callback = (None, 0)\<rparr>"
    and tr0: "tr0 = tr @ [CreateSession (fst l) (fst r) (Some s),
                     CreateStream s (snd l) (snd r) default_send_flags (Some st)]"
    by (rule new_rtp_sender_Inr)
  then have "live_sessions (snd (destroy_rtp (rt, tr0))) = live_sessions tr"
    by (simp add: destroy_rtp_def stop_live is_initialised_def trace_simps)
  with False assms show ?thesis by (simp add: new_server_def)
qed

theorem server_construction_witness:
  "\<exists>err tr1. new_server sample_uvg (- 1) (\<lambda>_. ''bad'') (''a'', 8891) (''b'', 8890) (toy_device 2) [] = (Inl err, tr1) \<and>
     live_sessions tr1 = {#}"
  using server_construction [OF sample_sender_new, where oe = "- 1" and es = "\<lambda>_. ''bad''" and dev = "toy_device 2"]
  by (auto simp: new_server_def sample_sender_new live_sessions_def split: prod.splits)

section \<open>Choosing a device\<close>

lemma digit_char_facts:
  assumes "d < 10"
  shows "of_char (digit_char d) = 48 + d" "is_digit_char (digit_char d)" "\<not> is_space (digit_char d)"
    "digit_char d \<noteq> CHR ''-''" "digit_char d \<noteq> CHR ''+''"
proof -
  show 1: "of_char (digit_char d) = 48 + d" using assms by (simp add: digit_char_def)
  then show "is_digit_char (digit_char d)" "\<not> is_space (digit_char d)"
    using assms by (auto simp: is_digit_char_def is_space_def)
  show "digit_char d \<noteq> CHR ''-''" "digit_char d \<noteq> CHR ''+''"
    using 1 by auto
qed

lemma show_nat_facts:
  "(\<forall>c \<in> set (show_nat n). is_digit_char c) \<and> show_nat n \<noteq> [] \<and> digits_value (show_nat n) = n \<and>
   \<not> is_space (hd (show_nat n)) \<and> hd (show_nat n) \<noteq> CHR ''-'' \<and> hd (show_nat n) \<noteq> CHR ''+''"
proof (induction n rule: show_nat.induct)
  case (1 n)
  show ?case
  proof (cases "n < 10")
    case True
    then show ?thesis
      using digit_char_facts [OF True] by (simp add: show_nat.simps [of n] digits_value_def)
  next
    case False
    have "n mod 10 < 10" by simp
    note d = digit_char_facts [OF this]
    have "digits_value (ds @ [c]) = 10 * digits_value ds + (of_char c - 48)" for ds c
      by (simp add: digits_value_def)
    with False 1 [OF False] d show ?thesis
      by (simp add: show_nat.simps [of n])
  qed
qed

lemma read_int_show_nat: "n \<le> 2147483647 \<Longrightarrow> read_int (show_nat n) = Some (int n, [])"
proof -
  assume n: "n \<le> 2147483647"
  note f = show_nat_facts [of n]
  then obtain c cs where c: "show_nat n = c # cs" by (cases "show_nat n") auto
  have "takeWhile is_digit_char cs = cs" using f c by (simp add: takeWhile_eq_all_conv)
  then show ?thesis
    using n f c by (simp add: read_int_def Let_def del: takeWhile_eq_all_conv)
qed

text \<open>The interactive choice. Typing the number \<open>k\<close> that the menu shows for a device selects
  that device; any other input line (empty, not a number, trailing text, out of range) selects the
  first, and only an empty device list makes the choice throw.\<close>

theorem device_choice:
  "(if inputs = [] then choose_device_interactive line inputs = Inl ()
    else \<exists>i < length inputs. choose_device_interactive line inputs = Inr (inputs ! i) \<and>
           (i = 0 \<or> (\<exists>rest. read_int line = Some (int i + 1, rest) \<and> dropWhile is_space rest = []))) \<and>
   (\<exists>m. m = min (length inputs) 2147483647 \<and>
     list_all (\<lambda>k. choose_device_interactive (show_nat (Suc k)) inputs = Inr (inputs ! k)) [0..<m]) \<and>
   device_menu inputs = concat (map (\<lambda>k. show_nat (Suc k) @ '')'' @ [CHR 0x09] @ description (inputs ! k) @ [CHR 0x0A])
     [0..<length inputs]) @ ''Choose a device to record from (1): ''"
proof -
  have menu: "device_menu inputs = concat (map (\<lambda>k. show_nat (Suc k) @ '')'' @ [CHR 0x09] @ description (inputs ! k) @ [CHR 0x0A])
     [0..<length inputs]) @ ''Choose a device to record from (1): ''"
    by (simp add: device_menu_def menu_line_def [abs_def])
  have "choose_device_interactive (show_nat (Suc k)) inputs = Inr (inputs ! k)"
    if "k < min (length inputs) 2147483647" for k
    using that read_int_show_nat [of "Suc k"] by (simp add: choose_device_interactive_def)
  then have typed: "list_all (\<lambda>k. choose_device_interactive (show_nat (Suc k)) inputs = Inr (inputs ! k))
      [0..<min (length inputs) 2147483647]"
    by (simp add: list_all_iff)
  show ?thesis
  proof (cases "inputs = []")
    case True
    have "\<not> (i \<le> int 0 \<and> 0 < i)" for i by simp
    with True typed menu show ?thesis
      by (auto simp: choose_device_interactive_def split: option.splits)
  next
    case False
    have "\<exists>i < length inputs. choose_device_interactive line inputs = Inr (inputs ! i) \<and>
           (i = 0 \<or> (\<exists>rest. read_int line = Some (int i + 1, rest) \<and> dropWhile is_space rest = []))"
    proof (cases "\<exists>v rest. read_int line = Some (v, rest) \<and> dropWhile is_space rest = [] \<and> 0 < v \<and> v \<le> int (length inputs)")
      case True
      then obtain v rest where v: "read_int line = Some (v, rest)" "dropWhile is_space rest = []" "0 < v" "v \<le> int (length inputs)"
        by blast
      then show ?thesis
        by (intro exI [of _ "nat (v - 1)"]) (auto simp: choose_device_interactive_def nat_less_iff)
    next
      case False
      with \<open>inputs \<noteq> []\<close> show ?thesis
        by (intro exI [of _ 0]) (auto simp: choose_device_interactive_def not_le split: option.splits)
    qed
    with False typed menu show ?thesis by auto
  qed
qed

end
