(* ===== verification/Backend.thy ===== *)
theory Backend
  imports Audio
begin

text \<open>
  \<open>include/audio/pulseaudio_backend.hxx\<close> and \<open>src/audio/pulseaudio_backend.cpp\<close>: the PulseAudio
  backend, with its virtual microphone (\<open>module-pipe-source\<close> fed through a FIFO) and its recording
  stream. The operating system and libpulse are an environment record: what a call returns is a
  function of the history of calls made before it, so the same call may return anything next time.
  Each operation extends the history. Loops that may run forever take fuel and return \<open>None\<close> when
  it is used up.
\<close>

section \<open>State, calls and environment\<close>

record backend = audio +
  pa_stream :: "nat option"
  virtual_source_loaded :: bool
  virtual_input_error :: string
  virtual_source_mod_idx :: u32
  virtual_source_fifo_path :: string
  virtual_source_name :: string
  virtual_source_fd :: int

datatype errno = ENXIO | EINTR | EAGAIN | EPIPE | OtherErrno nat

text \<open>What a mainloop iteration dispatches to the callbacks of the recording stream.\<close>

datatype stream_event = StateEvent stream_state | ReadEvent "peek list"

datatype pa_call =
    PollShutdown bool
  | PollFlags bool
  | Iterate "stream_event list"
  | Usleep
  | ListModules "(module_info option \<times> int) operation"
  | LoadModule string string "u32 operation"
  | UnloadModule u32 "int operation"
  | MkFifo string "errno option"
  | Unlink string
  | OpenFifo string "errno + nat"
  | WriteFd int "byte list" "errno + nat"
  | CloseFd int
  | StreamNew byte "nat option"
  | ConnectRecord nat string nat int
  | StreamState nat stream_state
  | StreamDisconnect nat
  | StreamUnref nat
  | ContextConnect int
  | ContextDisconnect
  | ContextUnref
  | MainloopFree

type_synonym history = "pa_call list"

text \<open>
  \<open>stop_seen\<close> tells whether another thread called \<open>stop_recording\<close> since the run flags were last
  read; \<open>errno_now\<close> is the value of \<open>errno\<close> when the code reads it later than at the failing call;
  \<open>usec_to_bytes\<close> is \<open>pa_usec_to_bytes\<close> for 48 kHz S16LE and the given number of channels.
\<close>

record pa_env =
  process_id :: nat
  connect_result :: "history \<Rightarrow> int"
  context_states :: "history \<Rightarrow> context_state list list"
  shutdown_seen :: "history \<Rightarrow> bool"
  stop_seen :: "history \<Rightarrow> bool"
  iterate_events :: "history \<Rightarrow> stream_event list"
  module_list :: "history \<Rightarrow> (module_info option \<times> int) operation"
  load_result :: "history \<Rightarrow> u32 operation"
  unload_result :: "history \<Rightarrow> int operation"
  mkfifo_result :: "history \<Rightarrow> errno option"
  open_result :: "history \<Rightarrow> errno + nat"
  write_result :: "history \<Rightarrow> byte list \<Rightarrow> errno + nat"
  stream_new_result :: "history \<Rightarrow> nat option"
  connect_record_result :: "history \<Rightarrow> int"
  stream_get_state :: "history \<Rightarrow> stream_state"
  usec_to_bytes :: "nat \<Rightarrow> byte \<Rightarrow> nat"
  strerror :: "errno \<Rightarrow> string"
  errno_now :: "history \<Rightarrow> errno"

section \<open>Construction\<close>

text \<open>\<open>None\<close>: the constructor still waits for the context; \<open>its\<close> as in \<open>wait_for_context_ready\<close>.
  A failed \<open>pa_context_connect\<close> is only logged.\<close>

definition new_backend ::
    "nat \<Rightarrow> int \<Rightarrow> context_state list list \<Rightarrow> ((string + backend) \<times> history) option" where
  "new_backend pid connection_err its =
     (let b = \<lparr>recording = False, playback = False, pa_stream = None, virtual_source_loaded = False,
               virtual_input_error = [], virtual_source_mod_idx = pa_invalid_index,
               virtual_source_fifo_path = ''/tmp/audpipe_input_'' @ show_nat pid @ ''.pcm'',
               virtual_source_name = ''audpipe_input_'' @ show_nat pid, virtual_source_fd = - 1\<rparr>;
          tr = [ContextConnect connection_err]
      in case wait_for_context_ready its 0 of
           None \<Rightarrow> None
         | Some False \<Rightarrow> Some (Inl ''FATAL: Could not connect to pulseaudio server.'',
             tr @ [ContextDisconnect, ContextUnref, MainloopFree])
         | Some True \<Rightarrow> Some (Inr b, tr))"

text \<open>
  \<open>AudioBackend::instance\<close>: the static object is constructed by the first call that gets through; an
  exception of its constructor leaves it unconstructed. The slot is \<open>Some\<close> when it exists.
\<close>

definition backend_instance :: "pa_env \<Rightarrow> backend option \<Rightarrow> history \<Rightarrow> ((string + backend) \<times> history) option" where
  "backend_instance env slot tr = (case slot of
     Some b \<Rightarrow> Some (Inr b, tr)
   | None \<Rightarrow> map_option (\<lambda>(res, calls). (res, tr @ calls))
       (new_backend (process_id env) (connect_result env tr) (context_states env tr)))"

section \<open>Readiness and errors of the virtual input\<close>

definition set_virtual_input_error :: "string \<Rightarrow> backend \<Rightarrow> backend" where
  "set_virtual_input_error msg b = b\<lparr>playback := False, virtual_input_error := msg\<rparr>"

definition is_virtual_input_ready :: "backend \<Rightarrow> bool" where
  "is_virtual_input_ready b \<longleftrightarrow>
     virtual_source_loaded b \<and> virtual_source_fd b \<ge> 0 \<and> virtual_input_error b = []"

definition get_virtual_input_error :: "backend \<Rightarrow> string" where
  "get_virtual_input_error b = virtual_input_error b"

text \<open>The lambda \<open>die\<close> of \<open>setup_virtual_input\<close> and \<open>run_virtual_input\<close>.\<close>

definition die :: "string \<Rightarrow> backend \<Rightarrow> history \<Rightarrow> (string + unit) \<times> backend \<times> history" where
  "die err_msg b tr = (Inl err_msg, set_virtual_input_error err_msg b, tr)"

section \<open>Setup\<close>

text \<open>A null unload operation is logged and skipped; any other is waited for.\<close>

fun unload_stale :: "pa_env \<Rightarrow> u32 list \<Rightarrow> history \<Rightarrow> history" where
  "unload_stale env [] tr = tr"
| "unload_stale env (idx # is) tr = unload_stale env is (tr @ [UnloadModule idx (unload_result env tr)])"

definition cleanup_stale_virtual_sources :: "pa_env \<Rightarrow> history \<Rightarrow> history" where
  "cleanup_stale_virtual_sources env tr =
     (let list_op = module_list env tr;
          stale_indices = (case wait_for_operation list_op of
              Inl null_op \<Rightarrow> []
            | Inr invs \<Rightarrow> fold (pa_module_list_cb ''audpipe_input_'') invs [])
      in unload_stale env stale_indices (tr @ [ListModules list_op]))"

text \<open>The roll-back on the two failure paths of the opening loop.\<close>

definition rollback :: "pa_env \<Rightarrow> backend \<Rightarrow> history \<Rightarrow> history" where
  "rollback env b tr = tr @ [UnloadModule (virtual_source_mod_idx b) (unload_result env tr),
                             Unlink (virtual_source_fifo_path b)]"

text \<open>One round of the opening loop: \<open>Inl\<close> when the loop is left, \<open>Inr\<close> when it goes round again.\<close>

definition open_round :: "pa_env \<Rightarrow> backend \<Rightarrow> history
    \<Rightarrow> ((string + unit) \<times> backend \<times> history) + (backend \<times> history)" where
  "open_round env b tr =
     (if virtual_source_fd b \<ge> 0 then Inl (Inr (), b, tr)
      else
        let res = open_result env tr;
            tr1 = tr @ [OpenFifo (virtual_source_fifo_path b) res]
        in case res of
             Inr fd \<Rightarrow> Inl (Inr (), b\<lparr>virtual_source_fd := int fd\<rparr>, tr1)
           | Inl err \<Rightarrow>
               let b1 = b\<lparr>virtual_source_fd := - 1\<rparr>;
                   sh = shutdown_seen env tr1;
                   tr2 = tr1 @ [PollShutdown sh]
               in if sh
                  then Inl (die ''Shutdown requested before virtual source was ready.'' b1 (rollback env b1 tr2))
                  else if err \<noteq> ENXIO \<and> err \<noteq> EINTR
                  then let tr3 = rollback env b1 tr2
                       in Inl (die (''Failed to open fifo '' @ [CHR 0x27] @ virtual_source_fifo_path b1
                              @ [CHR 0x27] @ '' for writing: '' @ strerror env (errno_now env tr3)) b1 tr3)
                  else Inr (b1, tr2 @ [Iterate (iterate_events env tr2), Usleep]))"

fun open_fifo :: "nat \<Rightarrow> pa_env \<Rightarrow> backend \<Rightarrow> history
    \<Rightarrow> ((string + unit) \<times> backend \<times> history) option" where
  "open_fifo 0 env b tr = None"
| "open_fifo (Suc fuel) env b tr = (case open_round env b tr of
     Inl r \<Rightarrow> Some r
   | Inr (b1, tr1) \<Rightarrow> open_fifo fuel env b1 tr1)"

declare open_fifo.simps [simp del]

lemma open_fifo_simps:
  "open_fifo 0 env b tr = None"
  "open_fifo (Suc fuel) env b tr =
     (if virtual_source_fd b \<ge> 0 then Some (Inr (), b, tr)
      else
        let res = open_result env tr;
            tr1 = tr @ [OpenFifo (virtual_source_fifo_path b) res]
        in case res of
             Inr fd \<Rightarrow> Some (Inr (), b\<lparr>virtual_source_fd := int fd\<rparr>, tr1)
           | Inl err \<Rightarrow>
               let b1 = b\<lparr>virtual_source_fd := - 1\<rparr>;
                   sh = shutdown_seen env tr1;
                   tr2 = tr1 @ [PollShutdown sh]
               in if sh
                  then Some (die ''Shutdown requested before virtual source was ready.'' b1 (rollback env b1 tr2))
                  else if err \<noteq> ENXIO \<and> err \<noteq> EINTR
                  then let tr3 = rollback env b1 tr2
                       in Some (die (''Failed to open fifo '' @ [CHR 0x27] @ virtual_source_fifo_path b1
                              @ [CHR 0x27] @ '' for writing: '' @ strerror env (errno_now env tr3)) b1 tr3)
                  else open_fifo fuel env b1 (tr2 @ [Iterate (iterate_events env tr2), Usleep]))"
  by (simp_all add: open_fifo.simps open_round_def Let_def die_def split: sum.split)

definition module_args :: "backend \<Rightarrow> string" where
  "module_args b = ''source_name='' @ virtual_source_name b @ '' file='' @ virtual_source_fifo_path b
     @ '' format=s16le rate=48000 channels=2 source_properties=device.description=audpipe_input''"

text \<open>The part of \<open>setup_virtual_input\<close> before the opening loop: \<open>Inl\<close> when it throws.\<close>

definition load_pipe_source :: "pa_env \<Rightarrow> backend \<Rightarrow> history
    \<Rightarrow> ((string + unit) \<times> backend \<times> history) + (backend \<times> history)" where
  "load_pipe_source env b tr =
     (let path = virtual_source_fifo_path b;
          b1 = b\<lparr>virtual_input_error := []\<rparr>;
          tr1 = cleanup_stale_virtual_sources env tr @ [Unlink path];
          made = mkfifo_result env tr1;
          tr2 = tr1 @ [MkFifo path made]
      in case made of
           Some err \<Rightarrow> Inl (die (''Failed to create fifo '' @ [CHR 0x27] @ path @ [CHR 0x27] @ '': ''
                             @ strerror env err) b1 tr2)
         | None \<Rightarrow>
             let op = load_result env tr2;
                 tr3 = tr2 @ [LoadModule ''module-pipe-source'' (module_args b1) op]
             in case wait_for_operation op of
                  Inl what \<Rightarrow> Inl (die (''Could not create virtual input: '' @ what) b1 (tr3 @ [Unlink path]))
                | Inr invs \<Rightarrow>
                    let b2 = b1\<lparr>virtual_source_mod_idx := fold pa_load_module_cb invs (virtual_source_mod_idx b1)\<rparr>
                    in if virtual_source_mod_idx b2 = pa_invalid_index
                       then Inl (die ''PulseAudio failed to load module-pipe-source.'' b2 (tr3 @ [Unlink path]))
                       else Inr (b2, tr3))"

definition setup_virtual_input :: "nat \<Rightarrow> pa_env \<Rightarrow> backend \<Rightarrow> history
    \<Rightarrow> ((string + unit) \<times> backend \<times> history) option" where
  "setup_virtual_input fuel env b tr =
     (if virtual_source_loaded b then Some (Inr (), b, tr)
      else case load_pipe_source env b tr of
             Inl r \<Rightarrow> Some r
           | Inr (b2, tr3) \<Rightarrow> (case open_fifo fuel env b2 tr3 of
               None \<Rightarrow> None
             | Some (Inl err, b3, tr4) \<Rightarrow> Some (Inl err, b3, tr4)
             | Some (Inr u, b3, tr4) \<Rightarrow> Some (Inr (), b3\<lparr>virtual_source_loaded := True\<rparr>, tr4)))"

lemma setup_virtual_input_eq:
  "setup_virtual_input fuel env b tr =
     (if virtual_source_loaded b then Some (Inr (), b, tr)
      else
        let path = virtual_source_fifo_path b;
            b1 = b\<lparr>virtual_input_error := []\<rparr>;
            tr1 = cleanup_stale_virtual_sources env tr @ [Unlink path];
            made = mkfifo_result env tr1;
            tr2 = tr1 @ [MkFifo path made]
        in case made of
             Some err \<Rightarrow> Some (die (''Failed to create fifo '' @ [CHR 0x27] @ path @ [CHR 0x27] @ '': ''
                               @ strerror env err) b1 tr2)
           | None \<Rightarrow>
               let op = load_result env tr2;
                   tr3 = tr2 @ [LoadModule ''module-pipe-source'' (module_args b1) op]
               in case wait_for_operation op of
                    Inl what \<Rightarrow> Some (die (''Could not create virtual input: '' @ what) b1 (tr3 @ [Unlink path]))
                  | Inr invs \<Rightarrow>
                      let b2 = b1\<lparr>virtual_source_mod_idx := fold pa_load_module_cb invs (virtual_source_mod_idx b1)\<rparr>
                      in if virtual_source_mod_idx b2 = pa_invalid_index
                         then Some (die ''PulseAudio failed to load module-pipe-source.'' b2 (tr3 @ [Unlink path]))
                         else (case open_fifo fuel env b2 tr3 of
                             None \<Rightarrow> None
                           | Some (Inl err, b3, tr4) \<Rightarrow> Some (Inl err, b3, tr4)
                           | Some (Inr u, b3, tr4) \<Rightarrow> Some (Inr (), b3\<lparr>virtual_source_loaded := True\<rparr>, tr4)))"
  by (simp add: setup_virtual_input_def load_pipe_source_def Let_def split: sum.split option.split)

section \<open>Running\<close>

text \<open>What a write callback throws.\<close>

datatype cb_exception = StdException string | OtherException

type_synonym 's write_callback = "byte list \<Rightarrow> 's \<Rightarrow> (cb_exception + nat) \<times> byte list \<times> 's"

text \<open>A write callback that never throws.\<close>

definition no_throw :: "(byte list \<Rightarrow> 's \<Rightarrow> nat \<times> byte list \<times> 's) \<Rightarrow> 's write_callback" where
  "no_throw cb = (\<lambda>dst s. case cb dst s of (n, dst', s') \<Rightarrow> (Inr n, dst', s'))"

text \<open>The inner loop: bytes \<open>offset..<bytes_to_write\<close> of the buffer are written to the FIFO. One round of it
  is \<open>Inl\<close> when the loop is left, \<open>Inr\<close> when it goes round again.\<close>

definition write_round :: "pa_env \<Rightarrow> byte list \<Rightarrow> nat \<Rightarrow> nat \<Rightarrow> backend \<Rightarrow> history
    \<Rightarrow> ((string + unit) \<times> backend \<times> history) + (nat \<times> history)" where
  "write_round env buf offset bytes_to_write b tr =
     (if offset < bytes_to_write then
        let bytes = take (bytes_to_write - offset) (drop offset buf);
            res = write_result env tr bytes;
            tr1 = tr @ [WriteFd (virtual_source_fd b) bytes res]
        in case res of
             Inl err \<Rightarrow>
               if err = EINTR then Inr (offset, tr1)
               else if err = EAGAIN then
                 let sh = shutdown_seen env tr1; tr2 = tr1 @ [PollShutdown sh]
                 in if sh then Inl (Inr (), b\<lparr>playback := False\<rparr>, tr2)
                    else Inl (Inr (), b, tr2 @ [Iterate (iterate_events env tr2), Usleep])
               else if err = EPIPE then
                 Inl (die ''pipe-source reader disconnected, got EPIPE.'' (b\<lparr>playback := False\<rparr>) tr1)
               else Inl (die (''Failed writing to pipe-source fifo: '' @ strerror env err)
                      (b\<lparr>playback := False\<rparr>) tr1)
           | Inr wrote \<Rightarrow>
               if wrote = 0 then Inl (Inr (), b, tr1) else Inr (offset + wrote, tr1)
      else Inl (Inr (), b, tr))"

fun write_pending :: "nat \<Rightarrow> pa_env \<Rightarrow> byte list \<Rightarrow> nat \<Rightarrow> nat \<Rightarrow> backend \<Rightarrow> history
    \<Rightarrow> ((string + unit) \<times> backend \<times> history) option" where
  "write_pending 0 env buf offset bytes_to_write b tr = None"
| "write_pending (Suc fuel) env buf offset bytes_to_write b tr =
     (case write_round env buf offset bytes_to_write b tr of
        Inl r \<Rightarrow> Some r
      | Inr (offset1, tr1) \<Rightarrow> write_pending fuel env buf offset1 bytes_to_write b tr1)"

declare write_pending.simps [simp del]

lemma write_pending_simps:
  "write_pending 0 env buf offset bytes_to_write b tr = None"
  "write_pending (Suc fuel) env buf offset bytes_to_write b tr =
     (if offset < bytes_to_write then
        let bytes = take (bytes_to_write - offset) (drop offset buf);
            res = write_result env tr bytes;
            tr1 = tr @ [WriteFd (virtual_source_fd b) bytes res]
        in case res of
             Inl err \<Rightarrow>
               if err = EINTR then write_pending fuel env buf offset bytes_to_write b tr1
               else if err = EAGAIN then
                 let sh = shutdown_seen env tr1; tr2 = tr1 @ [PollShutdown sh]
                 in if sh then Some (Inr (), b\<lparr>playback := False\<rparr>, tr2)
                    else Some (Inr (), b, tr2 @ [Iterate (iterate_events env tr2), Usleep])
               else if err = EPIPE then
                 Some (die ''pipe-source reader disconnected, got EPIPE.'' (b\<lparr>playback := False\<rparr>) tr1)
               else Some (die (''Failed writing to pipe-source fifo: '' @ strerror env err)
                      (b\<lparr>playback := False\<rparr>) tr1)
           | Inr wrote \<Rightarrow>
               if wrote = 0 then Some (Inr (), b, tr1)
               else write_pending fuel env buf (offset + wrote) bytes_to_write b tr1
      else Some (Inr (), b, tr))"
  by (simp_all add: write_pending.simps write_round_def Let_def split: sum.split)

text \<open>
  The outer loop. Each round reads the flag \<open>playback\<close> and the shutdown flag, calls the write
  callback on the same buffer, and writes what it produced; \<open>wfuel\<close> bounds one inner loop.
\<close>

fun run_loop :: "nat \<Rightarrow> nat \<Rightarrow> pa_env \<Rightarrow> 's write_callback option \<Rightarrow> byte list
    \<Rightarrow> backend \<times> 's \<times> history \<Rightarrow> ((string + unit) \<times> backend \<times> 's \<times> history) option" where
  "run_loop 0 wfuel env cb buf p = None"
| "run_loop (Suc fuel) wfuel env cb buf (b, s, tr) =
     (let stp = stop_seen env tr;
          b0 = (if stp then stop_recording b else b);
          tr0 = tr @ [PollFlags stp]
      in if \<not> playback b0 then Some (Inr (), b0, s, tr0)
      else
        let sh = shutdown_seen env tr0; tr1 = tr0 @ [PollShutdown sh]
        in if sh then Some (Inr (), b0\<lparr>playback := False\<rparr>, s, tr1)
        else (case (case cb of None \<Rightarrow> (Inr 0, buf, s) | Some f \<Rightarrow> f buf s) of
            (Inl exc, buf1, s1) \<Rightarrow>
              (case die (case exc of
                   StdException what \<Rightarrow>
                     ''Pulseaudio virtual input write callback threw an exception. Reason: '' @ what
                 | OtherException \<Rightarrow>
                     ''Pulseaudio virtual input write callback threw a non-std exception.'') b0 tr1 of
                 (r, b1, tr2) \<Rightarrow> Some (r, b1, s1, tr2))
          | (Inr n, buf1, s1) \<Rightarrow>
              let produced = (if n > length buf1 then length buf1 else n)
              in if produced = 0
                 then run_loop fuel wfuel env cb buf1 (b0, s1, tr1 @ [Iterate (iterate_events env tr1), Usleep])
                 else (case write_pending wfuel env buf1 0 produced b0 tr1 of
                     None \<Rightarrow> None
                   | Some (Inl err, b1, tr2) \<Rightarrow> Some (Inl err, b1, s1, tr2)
                   | Some (Inr u, b1, tr2) \<Rightarrow> run_loop fuel wfuel env cb buf1 (b1, s1, tr2))))"

declare run_loop.simps [simp del]

definition show_bool :: "bool \<Rightarrow> string" where
  "show_bool x = (if x then ''true'' else ''false'')"

definition run_virtual_input :: "nat \<Rightarrow> nat \<Rightarrow> pa_env \<Rightarrow> 's write_callback option
    \<Rightarrow> backend \<times> 's \<times> history \<Rightarrow> ((string + unit) \<times> backend \<times> 's \<times> history) option" where
  "run_virtual_input fuel wfuel env cb = (\<lambda>(b, s, tr).
     let loaded = virtual_source_loaded b;
         has_fd = (virtual_source_fd b \<ge> 0);
         no_error = (virtual_input_error b = []);
         ready = (loaded \<and> has_fd \<and> no_error)
     in if \<not> ready
        then (case die (''Called `PulseaudioBackend::run_virtual_input` without checking readiness (loaded=''
                 @ show_bool loaded @ '', has_fd='' @ show_bool has_fd @ '', no_error='' @ show_bool no_error
                 @ ''). Previous error message: '' @ [CHR 0x22]
                 @ (if length (virtual_input_error b) = 0 then ''(none)'' else virtual_input_error b)
                 @ [CHR 0x22] @ ''.'') b tr of
               (r, b1, tr1) \<Rightarrow> Some (r, b1, s, tr1))
        else run_loop fuel wfuel env cb (replicate 3840 0) (b\<lparr>playback := True\<rparr>, s, tr))"

definition create_virtual_input :: "nat \<Rightarrow> nat \<Rightarrow> pa_env \<Rightarrow> 's write_callback option
    \<Rightarrow> backend \<times> 's \<times> history \<Rightarrow> ((string + unit) \<times> backend \<times> 's \<times> history) option" where
  "create_virtual_input fuel wfuel env cb = (\<lambda>(b, s, tr).
     case setup_virtual_input fuel env b tr of
       None \<Rightarrow> None
     | Some (Inl err, b1, tr1) \<Rightarrow> Some (Inl err, b1, s, tr1)
     | Some (Inr u, b1, tr1) \<Rightarrow> run_virtual_input fuel wfuel env cb (b1, s, tr1))"

section \<open>Teardown\<close>

definition destroy_virtual_input :: "pa_env \<Rightarrow> backend \<Rightarrow> history \<Rightarrow> backend \<times> history" where
  "destroy_virtual_input env b tr =
     (let path = virtual_source_fifo_path b;
          (b1, tr1) = (if virtual_source_fd b \<ge> 0
                       then (b\<lparr>virtual_source_fd := - 1\<rparr>, tr @ [CloseFd (virtual_source_fd b)])
                       else (b, tr))
      in if \<not> virtual_source_loaded b1 \<or> virtual_source_mod_idx b1 = pa_invalid_index
         then (b1, tr1 @ [Unlink path])
         else
           let op = unload_result env tr1;
               tr2 = tr1 @ [UnloadModule (virtual_source_mod_idx b1) op];
               b2 = b1\<lparr>virtual_source_loaded := False, virtual_source_mod_idx := pa_invalid_index\<rparr>
           in case wait_for_operation op of
                Inl null_op \<Rightarrow> (b2, tr2 @ [Unlink path])
              | Inr invs \<Rightarrow> (b2\<lparr>virtual_input_error := []\<rparr>, tr2 @ [Unlink path]))"

text \<open>The destructor. The stream, if \<open>record\<close> left one behind, is not released.\<close>

definition destroy_backend :: "pa_env \<Rightarrow> backend \<Rightarrow> history \<Rightarrow> backend \<times> history" where
  "destroy_backend env b tr =
     (case destroy_virtual_input env (stop_recording b) tr of
        (b1, tr1) \<Rightarrow> (b1, tr1 @ [ContextDisconnect, ContextUnref, MainloopFree]))"

text \<open>Leaving the process through \<open>exit\<close> or \<open>main\<close> destroys the singleton, if it was constructed.\<close>

definition exit_process :: "pa_env \<Rightarrow> backend option \<Rightarrow> history \<Rightarrow> history" where
  "exit_process env slot tr = (case slot of None \<Rightarrow> tr | Some b \<Rightarrow> snd (destroy_backend env b tr))"

section \<open>Recording\<close>

definition destroy_stream :: "pa_env \<Rightarrow> backend \<Rightarrow> history \<Rightarrow> backend \<times> history" where
  "destroy_stream env b tr = (case pa_stream b of
     None \<Rightarrow> (b, tr)
   | Some s \<Rightarrow>
       let st = stream_get_state env tr;
           tr1 = tr @ [StreamState s st];
           tr2 = (if st = PA_STREAM_READY then tr1 @ [StreamDisconnect s] else tr1)
       in (b\<lparr>pa_stream := None\<rparr>, tr2 @ [StreamUnref s]))"

text \<open>
  One mainloop iteration while a stream has its callbacks installed. An exception of the data callback
  is taken to unwind through the frames of libpulse and to leave the iteration at once.
\<close>

fun dispatch :: "'c data_callback option \<Rightarrow> stream_event list \<Rightarrow> backend \<times> 'c \<Rightarrow> (string + unit) \<times> backend \<times> 'c" where
  "dispatch dcb [] p = (Inr (), p)"
| "dispatch dcb (StateEvent st # evs) (b, c) = dispatch dcb evs (stream_state_cb st b, c)"
| "dispatch dcb (ReadEvent ps # evs) (b, c) = (case stream_read_cb dcb ps c of
     (Inl exc, c1, drops) \<Rightarrow> (Inl exc, b, c1)
   | (Inr u, c1, drops) \<Rightarrow> dispatch dcb evs (b, c1))"

definition mainloop_iterate :: "pa_env \<Rightarrow> 'c data_callback option
    \<Rightarrow> backend \<times> 'c \<times> history \<Rightarrow> (string + unit) \<times> backend \<times> 'c \<times> history" where
  "mainloop_iterate env dcb = (\<lambda>(b, c, tr).
     let evs = iterate_events env tr
     in case dispatch dcb evs (b, c) of (res, b1, c1) \<Rightarrow> (res, b1, c1, tr @ [Iterate evs]))"

fun wait_for_stream_ready :: "nat \<Rightarrow> pa_env \<Rightarrow> 'c data_callback option \<Rightarrow> nat
    \<Rightarrow> backend \<times> 'c \<times> history \<Rightarrow> ((string + unit) \<times> backend \<times> 'c \<times> history) option" where
  "wait_for_stream_ready 0 env dcb s p = None"
| "wait_for_stream_ready (Suc fuel) env dcb s (b, c, tr) =
     (let st = stream_get_state env tr; tr1 = tr @ [StreamState s st]
      in if st = PA_STREAM_READY then Some (Inr (), b, c, tr1)
         else if st = PA_STREAM_FAILED \<or> st = PA_STREAM_TERMINATED
         then Some (Inl ''PulseAudio stream failed to become ready.'', b, c, tr1)
         else (case mainloop_iterate env dcb (b, c, tr1) of
             (Inl exc, p) \<Rightarrow> Some (Inl exc, p)
           | (Inr u, p) \<Rightarrow> wait_for_stream_ready fuel env dcb s p))"

declare wait_for_stream_ready.simps [simp del]

fun record_loop :: "nat \<Rightarrow> pa_env \<Rightarrow> 'c data_callback option
    \<Rightarrow> backend \<times> 'c \<times> history \<Rightarrow> ((string + unit) \<times> backend \<times> 'c \<times> history) option" where
  "record_loop 0 env dcb p = None"
| "record_loop (Suc fuel) env dcb (b, c, tr) =
     (let stp = stop_seen env tr;
          b0 = (if stp then stop_recording b else b);
          tr0 = tr @ [PollFlags stp]
      in if \<not> recording b0 then Some (Inr (), b0, c, tr0)
         else
           let sh = shutdown_seen env tr0; tr1 = tr0 @ [PollShutdown sh]
           in if sh then Some (Inr (), b0\<lparr>recording := False\<rparr>, c, tr1)
              else (case mainloop_iterate env dcb (b0, c, tr1) of
                  (Inl exc, p) \<Rightarrow> Some (Inl exc, p)
                | (Inr u, p) \<Rightarrow> record_loop fuel env dcb p))"

declare record_loop.simps [simp del]

definition record_device :: "nat \<Rightarrow> pa_env \<Rightarrow> 'c data_callback option \<Rightarrow> audio_device
    \<Rightarrow> backend \<times> 'c \<times> history \<Rightarrow> ((string + unit) \<times> backend \<times> 'c \<times> history) option" where
  "record_device fuel env dcb dev = (\<lambda>(b, c, tr).
     if \<not> is_source dev
     then Some (Inl (''Device '' @ [CHR 0x27] @ description dev @ [CHR 0x27] @ '' is not a source.''), b, c, tr)
     else case destroy_stream env b tr of (b1, tr1) \<Rightarrow>
       let made = stream_new_result env tr1; tr2 = tr1 @ [StreamNew (channels dev) made]
       in case made of
            None \<Rightarrow> Some (Inl (''Stream creation failed whilst trying to record from device '' @ [CHR 0x27]
                          @ description dev @ [CHR 0x27]), b1, c, tr2)
          | Some s \<Rightarrow>
              let b2 = b1\<lparr>pa_stream := Some s\<rparr>;
                  status = connect_record_result env tr2;
                  tr3 = tr2 @ [ConnectRecord s (dev_name dev) (usec_to_bytes env 20000 (channels dev)) status]
              in if status \<noteq> 0
                 then (case destroy_stream env b2 tr3 of (b3, tr4) \<Rightarrow>
                   Some (Inl (''Call to pa_stream_connect_record failed. Could not record from device ''
                     @ [CHR 0x27] @ description dev @ [CHR 0x27] @ ''.''), b3, c, tr4))
                 else (case wait_for_stream_ready fuel env dcb s (b2, c, tr3) of
                     None \<Rightarrow> None
                   | Some (Inl err, p) \<Rightarrow> Some (Inl err, p)
                   | Some (Inr u, b3, c1, tr4) \<Rightarrow>
                       (case record_loop fuel env dcb (b3\<lparr>recording := True\<rparr>, c1, tr4) of
                          None \<Rightarrow> None
                        | Some (Inl exc, p) \<Rightarrow> Some (Inl exc, p)
                        | Some (Inr u, b4, c2, tr5) \<Rightarrow>
                            (case destroy_stream env b4 tr5 of (b5, tr6) \<Rightarrow> Some (Inr (), b5, c2, tr6)))))"

end
