(* ===== verification/Backend_Facts.thy ===== *)
theory Backend_Facts
  imports Backend
begin

text \<open>
  Properties of the virtual microphone: what setup leaves behind on success and on each failure, the
  lifecycle invariant over any sequence of setup, run, stop and destroy, and the cleanup of other
  instances.
\<close>

section \<open>What a history leaves behind\<close>

text \<open>The module this process loaded and has not asked PulseAudio to unload.\<close>

fun held_after :: "pa_call \<Rightarrow> u32 option \<Rightarrow> u32 option" where
  "held_after (LoadModule nm args op) h = (case wait_for_operation op of
     Inl null_op \<Rightarrow> h
   | Inr invs \<Rightarrow> (let i = fold pa_load_module_cb invs pa_invalid_index
                  in if i = pa_invalid_index then h else Some i))"
| "held_after (UnloadModule i op) h = (if h = Some i then None else h)"
| "held_after c h = h"

definition module_held :: "history \<Rightarrow> u32 option" where
  "module_held tr = fold held_after tr None"

text \<open>Whether the FIFO this process made is still there.\<close>

fun fifo_after :: "string \<Rightarrow> pa_call \<Rightarrow> bool \<Rightarrow> bool" where
  "fifo_after path (MkFifo p None) x = (x \<or> p = path)"
| "fifo_after path (Unlink p) x = (x \<and> p \<noteq> path)"
| "fifo_after path c x = x"

definition fifo_made :: "string \<Rightarrow> history \<Rightarrow> bool" where
  "fifo_made path tr = fold (fifo_after path) tr False"

text \<open>The bytes the FIFO accepted.\<close>

fun accepted_of :: "pa_call \<Rightarrow> byte list" where
  "accepted_of (WriteFd fd bs (Inr n)) = take n bs"
| "accepted_of c = []"

definition accepted :: "history \<Rightarrow> byte list" where
  "accepted tr = concat (map accepted_of tr)"

lemma history_Nil [simp]:
  "module_held [] = None" "\<not> fifo_made path []" "accepted [] = []"
  by (simp_all add: module_held_def fifo_made_def accepted_def)

lemma history_append [trace_simps]:
  "module_held (tr @ cs) = fold held_after cs (module_held tr)"
  "fifo_made path (tr @ cs) = fold (fifo_after path) cs (fifo_made path tr)"
  "accepted (tr @ cs) = accepted tr @ concat (map accepted_of cs)"
  by (simp_all add: module_held_def fifo_made_def accepted_def)

text \<open>Once a module index is stored, the last one stored is what counts.\<close>

lemma fold_load_cb: "fold pa_load_module_cb invs i = (if invs = [] then i else last invs)"
  by (induction invs arbitrary: i) (auto simp: pa_load_module_cb_def)

lemma unload_stale_history:
  "fifo_made path (unload_stale env is tr) = fifo_made path tr"
  "module_held tr = None \<Longrightarrow> module_held (unload_stale env is tr) = None"
  "accepted (unload_stale env is tr) = accepted tr"
  by (induction "is" arbitrary: tr) (simp_all add: trace_simps)

lemma cleanup_history [simp]:
  "fifo_made path (cleanup_stale_virtual_sources env tr) = fifo_made path tr"
  "module_held tr = None \<Longrightarrow> module_held (cleanup_stale_virtual_sources env tr) = None"
  "accepted (cleanup_stale_virtual_sources env tr) = accepted tr"
  by (simp_all add: cleanup_stale_virtual_sources_def Let_def unload_stale_history trace_simps)

section \<open>Setup\<close>

lemma set_error_fields [simp]:
  "virtual_source_loaded (set_virtual_input_error e b) = virtual_source_loaded b"
  "virtual_source_fd (set_virtual_input_error e b) = virtual_source_fd b"
  "virtual_source_mod_idx (set_virtual_input_error e b) = virtual_source_mod_idx b"
  "virtual_source_fifo_path (set_virtual_input_error e b) = virtual_source_fifo_path b"
  "virtual_source_name (set_virtual_input_error e b) = virtual_source_name b"
  "virtual_input_error (set_virtual_input_error e b) = e"
  "pa_stream (set_virtual_input_error e b) = pa_stream b"
  "\<not> playback (set_virtual_input_error e b)"
  by (simp_all add: set_virtual_input_error_def)

text \<open>The opening loop either opens the FIFO or rolls everything back and reports why.\<close>

lemma open_fifo_outcome:
  assumes "open_fifo fuel env b tr = Some (res, b', tr')" and "virtual_source_fd b < 0"
    and "module_held tr = Some (virtual_source_mod_idx b)" and "fifo_made (virtual_source_fifo_path b) tr"
  shows "case res of
      Inr u \<Rightarrow> (\<exists>fd. b' = b\<lparr>virtual_source_fd := int fd\<rparr>) \<and>
        module_held tr' = Some (virtual_source_mod_idx b) \<and> fifo_made (virtual_source_fifo_path b) tr'
    | Inl err \<Rightarrow> b' = set_virtual_input_error err (b\<lparr>virtual_source_fd := - 1\<rparr>) \<and> err \<noteq> [] \<and>
        module_held tr' = None \<and> \<not> fifo_made (virtual_source_fifo_path b) tr'"
  using assms
proof (induction fuel arbitrary: b tr)
  case 0
  then show ?case by (simp add: open_fifo_simps)
next
  case (Suc fuel)
  let ?res = "open_result env tr"
  let ?tr1 = "tr @ [OpenFifo (virtual_source_fifo_path b) ?res]"
  let ?b1 = "b\<lparr>virtual_source_fd := - 1\<rparr>"
  let ?tr2 = "?tr1 @ [PollShutdown (shutdown_seen env ?tr1)]"
  let ?tr3 = "?tr2 @ [Iterate (iterate_events env ?tr2), Usleep]"
  show ?case
  proof (cases ?res)
    case (Inr fd)
    with Suc.prems show ?thesis by (auto simp: open_fifo_simps Let_def trace_simps)
  next
    case (Inl err)
    show ?thesis
    proof (cases "\<not> shutdown_seen env ?tr1 \<and> (err = ENXIO \<or> err = EINTR)")
      case True
      with Inl Suc.prems(1,2) have "open_fifo fuel env ?b1 ?tr3 = Some (res, b', tr')"
        by (auto simp: open_fifo_simps(2) Let_def not_le)
      from Suc.IH [OF this] Suc.prems Inl show ?thesis by (cases res) (simp_all add: trace_simps)
    next
      case False
      with Inl Suc.prems show ?thesis
        by (auto simp: open_fifo_simps(2) Let_def die_def rollback_def trace_simps not_le split: if_splits)
    qed
  qed
qed

text \<open>libpulse invokes the callback of a load operation unless the operation is cancelled, which
  happens only when the context is disconnected.\<close>

definition load_completes :: "pa_env \<Rightarrow> bool" where
  "load_completes env \<longleftrightarrow> (\<forall>h its. load_result env h = Op its \<longrightarrow> concat its \<noteq> [])"

text \<open>The lifecycle invariant: state, history and operating system agree.\<close>

definition vi_inv :: "backend \<Rightarrow> history \<Rightarrow> bool" where
  "vi_inv b tr \<longleftrightarrow>
     (virtual_source_loaded b \<longleftrightarrow> virtual_source_fd b \<ge> 0) \<and>
     (if virtual_source_loaded b
      then virtual_source_mod_idx b \<noteq> pa_invalid_index \<and> module_held tr = Some (virtual_source_mod_idx b) \<and>
           fifo_made (virtual_source_fifo_path b) tr
      else module_held tr = None \<and> \<not> fifo_made (virtual_source_fifo_path b) tr)"

lemma vi_inv_unloaded:
  "\<not> virtual_source_loaded b \<Longrightarrow> vi_inv b tr \<longleftrightarrow>
     virtual_source_fd b < 0 \<and> module_held tr = None \<and> \<not> fifo_made (virtual_source_fifo_path b) tr"
  by (auto simp: vi_inv_def)

lemma setup_cases:
  assumes "setup_virtual_input fuel env b tr = Some (res, b', tr')"
    and "load_completes env" and "vi_inv b tr" and "\<not> virtual_source_loaded b"
  shows "vi_inv b' tr' \<and> virtual_source_fifo_path b' = virtual_source_fifo_path b \<and>
    virtual_source_name b' = virtual_source_name b \<and>
    (case res of
       Inr u \<Rightarrow> is_virtual_input_ready b'
     | Inl err \<Rightarrow> err \<noteq> [] \<and> \<not> virtual_source_loaded b' \<and> \<not> playback b' \<and> virtual_input_error b' = err)"
proof -
  let ?path = "virtual_source_fifo_path b"
  let ?tr1 = "cleanup_stale_virtual_sources env tr @ [Unlink ?path]"
  let ?b1 = "b\<lparr>virtual_input_error := []\<rparr>"
  let ?tr2 = "?tr1 @ [MkFifo ?path (mkfifo_result env ?tr1)]"
  let ?op = "load_result env ?tr2"
  let ?tr3 = "?tr2 @ [LoadModule ''module-pipe-source'' (module_args ?b1) ?op]"
  have b: "virtual_source_fd b < 0" "module_held tr = None" "\<not> fifo_made ?path tr"
    using assms(3,4) by (simp_all add: vi_inv_unloaded)
  show ?thesis
  proof (cases "mkfifo_result env ?tr1")
    case (Some err)
    with assms b show ?thesis
      by (auto simp: setup_virtual_input_eq Let_def die_def vi_inv_unloaded trace_simps)
  next
    case None
    show ?thesis
    proof (cases ?op)
      case NullOp
      with None assms b show ?thesis
        by (auto simp: setup_virtual_input_eq Let_def die_def vi_inv_unloaded trace_simps)
    next
      case (Op its)
      then have its: "concat its \<noteq> []" using assms(2) unfolding load_completes_def by blast
      let ?idx = "last (concat its)"
      have ld: "fold pa_load_module_cb (concat its) i = ?idx" for i
        using its by (simp only: fold_load_cb if_False)
      let ?b2 = "?b1\<lparr>virtual_source_mod_idx := ?idx\<rparr>"
      show ?thesis
      proof (cases "?idx = pa_invalid_index")
        case True
        with None Op its assms b show ?thesis
          by (auto simp: setup_virtual_input_eq Let_def die_def vi_inv_unloaded ld trace_simps)
      next
        case False
        have loaded: "module_held ?tr3 = Some ?idx" "fifo_made ?path ?tr3"
          using None Op its b False by (simp_all add: ld Let_def trace_simps)
        have eq: "setup_virtual_input fuel env b tr = (case open_fifo fuel env ?b2 ?tr3 of
             None \<Rightarrow> None
           | Some (Inl err, b3, tr4) \<Rightarrow> Some (Inl err, b3, tr4)
           | Some (Inr u, b3, tr4) \<Rightarrow> Some (Inr (), b3\<lparr>virtual_source_loaded := True\<rparr>, tr4))"
          using None Op its False assms(4) by (simp add: setup_virtual_input_eq Let_def ld)
        with assms(1) obtain r b3 tr4 where o: "open_fifo fuel env ?b2 ?tr3 = Some (r, b3, tr4)"
          by (auto split: option.splits)
        from open_fifo_outcome [OF o] b loaded assms(1,4) False eq o show ?thesis
          by (cases r) (auto simp: vi_inv_def is_virtual_input_ready_def)
      qed
    qed
  qed
qed

section \<open>Running and teardown\<close>

lemma write_pending_outcome:
  assumes "write_pending fuel env buf offset bytes_to_write b tr = Some (res, b', tr')"
  shows "module_held tr' = module_held tr \<and> fifo_made path tr' = fifo_made path tr \<and>
    (case res of
       Inr u \<Rightarrow> \<exists>pb. b' = b\<lparr>playback := pb\<rparr>
     | Inl err \<Rightarrow> err \<noteq> [] \<and> b' = set_virtual_input_error err b)"
  using assms
proof (induction fuel arbitrary: offset tr)
  case 0
  then show ?case by (simp add: write_pending_simps)
next
  case (Suc fuel)
  let ?bytes = "take (bytes_to_write - offset) (drop offset buf)"
  let ?res = "write_result env tr ?bytes"
  let ?tr1 = "tr @ [WriteFd (virtual_source_fd b) ?bytes ?res]"
  have same: "\<exists>pb. b = b\<lparr>playback := pb\<rparr>" by (rule exI [of _ "playback b"]) simp
  have h: "module_held ?tr1 = module_held tr" "fifo_made path ?tr1 = fifo_made path tr"
    by (simp_all add: trace_simps)
  consider (ends) "\<not> offset < bytes_to_write"
    | (again) "offset < bytes_to_write" "?res = Inl EAGAIN"
    | (retry) off1 where "write_pending fuel env buf off1 bytes_to_write b ?tr1 = Some (res, b', tr')"
    | (zero) "offset < bytes_to_write" "?res = Inr 0"
    | (fails) err where "offset < bytes_to_write" "?res = Inl err" "err \<noteq> EAGAIN" "err \<noteq> EINTR"
    using Suc.prems
    by (cases "?res") (auto simp: write_pending_simps(2) Let_def split: if_splits)
  then show ?case
  proof cases
    case (retry off1)
    from Suc.IH [OF retry] h show ?thesis by simp
  next
    case again
    with Suc.prems same show ?thesis
      by (auto simp: write_pending_simps(2) Let_def trace_simps split: if_splits)
  next
    case (fails err)
    with Suc.prems show ?thesis
      by (auto simp: write_pending_simps(2) Let_def trace_simps die_def set_virtual_input_error_def split: if_splits)
  qed (use Suc.prems same in \<open>auto simp: write_pending_simps(2) Let_def trace_simps\<close>)
qed

lemma run_loop_outcome:
  assumes "run_loop fuel wfuel env cb buf (b, s, tr) = Some (res, b', s', tr')"
  shows "module_held tr' = module_held tr \<and> fifo_made path tr' = fifo_made path tr \<and>
    (\<exists>rc. case res of
       Inr u \<Rightarrow> b' = b\<lparr>recording := rc, playback := False\<rparr>
     | Inl err \<Rightarrow> err \<noteq> [] \<and> b' = set_virtual_input_error err (b\<lparr>recording := rc\<rparr>))"
  using assms
proof (induction fuel arbitrary: buf b s tr)
  case 0
  then show ?case by (simp add: run_loop.simps)
next
  case (Suc fuel)
  let ?b0 = "if stop_seen env tr then stop_recording b else b"
  let ?tr0 = "tr @ [PollFlags (stop_seen env tr)]"
  let ?tr1 = "?tr0 @ [PollShutdown (shutdown_seen env ?tr0)]"
  obtain r buf1 s1 where c: "(case cb of None \<Rightarrow> (Inr 0, buf, s) | Some f \<Rightarrow> f buf s) = (r, buf1, s1)"
    by (metis surj_pair)
  obtain rc pb where b0: "?b0 = b\<lparr>recording := rc, playback := pb\<rparr>"
  proof (rule that)
    show "?b0 = b\<lparr>recording := recording ?b0, playback := playback ?b0\<rparr>" by (simp add: stop_recording_def)
  qed
  have h: "module_held ?tr1 = module_held tr" "fifo_made path ?tr1 = fifo_made path tr"
    by (simp_all add: trace_simps)
  show ?case
  proof (cases "playback ?b0 \<and> \<not> shutdown_seen env ?tr0")
    case False
    with Suc.prems b0 show ?thesis
      by (auto simp: run_loop.simps(2) Let_def trace_simps split: if_splits intro!: exI [of _ rc])
  next
    case True
    note step = Suc.prems [simplified run_loop.simps(2) [of fuel wfuel env cb buf b s tr] Let_def c]
    show ?thesis
    proof (cases r)
      case (Inl exc)
      with step True b0 show ?thesis
        by (auto simp: die_def trace_simps set_virtual_input_error_def split: cb_exception.splits)
    next
      case (Inr n)
      let ?p = "if n > length buf1 then length buf1 else n"
      show ?thesis
      proof (cases "?p = 0")
        case True': True
        with step True Inr have "run_loop fuel wfuel env cb buf1
             (?b0, s1, ?tr1 @ [Iterate (iterate_events env ?tr1), Usleep]) = Some (res, b', s', tr')"
          by auto
        from Suc.IH [OF this] b0 show ?thesis
          by (cases res) (auto simp: trace_simps set_virtual_input_error_def)
      next
        case False
        obtain r2 b2 tr2 where w: "write_pending wfuel env buf1 0 ?p ?b0 ?tr1 = Some (r2, b2, tr2)"
          using step True Inr False by (auto split: option.splits if_splits)
        note out = write_pending_outcome [OF w, of path]
        show ?thesis
        proof (cases r2)
          case (Inl err)
          with step True Inr False w have "res = Inl err" "b' = b2" "tr' = tr2" by (auto split: if_splits)
          with Inl out b0 h show ?thesis by (auto simp: set_virtual_input_error_def)
        next
          case (Inr u)
          with step True \<open>r = Inr n\<close> False w have "run_loop fuel wfuel env cb buf1 (b2, s1, tr2) = Some (res, b', s', tr')"
            by (auto split: if_splits)
          from Suc.IH [OF this] Inr out b0 h show ?thesis
            by (cases res) (auto simp: set_virtual_input_error_def)
        qed
      qed
    qed
  qed
qed

end
