(* ===== verification/Recording.thy ===== *)
theory Recording
  imports Backend_Facts
begin

text \<open>
  Properties of \<open>PulseaudioBackend::record\<close>: what reaches the data callback, how each way of ending
  leaves the stream, and the stream that a failed wait leaves behind.
\<close>

section \<open>What the mainloop hands to the data callback\<close>

fun event_fragments :: "stream_event \<Rightarrow> byte list list" where
  "event_fragments (ReadEvent ps) = fragments ps"
| "event_fragments (StateEvent st) = []"

fun call_fragments :: "pa_call \<Rightarrow> byte list list" where
  "call_fragments (Iterate evs) = concat (map event_fragments evs)"
| "call_fragments c = []"

definition captured :: "history \<Rightarrow> byte list list" where
  "captured tr = concat (map call_fragments tr)"

lemma captured_append [trace_simps]: "captured (tr @ cs) = captured tr @ captured cs"
  by (simp add: captured_def)

lemma captured_simps [simp]: "captured [] = []" "captured (c # cs) = call_fragments c @ captured cs"
  by (simp_all add: captured_def)

lemma dispatch_consume:
  assumes "dispatch (Some f) evs (b, c) = (res, b', c')"
  shows "pa_stream b' = pa_stream b" "consume f (concat (map event_fragments evs)) c = (res, c')"
proof -
  have "pa_stream b' = pa_stream b \<and> consume f (concat (map event_fragments evs)) c = (res, c')"
    using assms
  proof (induction evs arbitrary: b c)
    case (Cons e evs)
    show ?case
    proof (cases e)
      case (StateEvent st)
      have "pa_stream (stream_state_cb st b) = pa_stream b"
        by (simp add: stream_state_cb_def split: stream_state.split)
      with Cons StateEvent show ?thesis by simp
    next
      case (ReadEvent ps)
      obtain r c1 where r: "consume f (fragments ps) c = (r, c1)" by (cases "consume f (fragments ps) c")
      then obtain n where "stream_read_cb (Some f) ps c = (r, c1, n)"
        using stream_read_cb_eq [of ps c f] by auto
      with Cons ReadEvent r show ?thesis by (cases r) auto
    qed
  qed simp
  then show "pa_stream b' = pa_stream b" "consume f (concat (map event_fragments evs)) c = (res, c')" by simp_all
qed

text \<open>The relation between a stretch of the history and the consumer: it was given the fragments
  delivered in it, in order, up to the first one its callback threw on.\<close>

definition fed :: "'c data_callback \<Rightarrow> history \<Rightarrow> 'c \<Rightarrow> history \<Rightarrow> 'c \<Rightarrow> string + unit \<Rightarrow> bool" where
  "fed f tr c tr' c' thrown \<longleftrightarrow> (\<exists>new. tr' = tr @ new \<and> consume f (captured new) c = (thrown, c'))"

lemma fed_quiet: "captured new = [] \<Longrightarrow> fed f tr c (tr @ new) c (Inr ())"
  by (simp add: fed_def)

lemma fed_trans:
  assumes "fed f tr c tr1 c1 (Inr u)" and "fed f tr1 c1 tr2 c2 x"
  shows "fed f tr c tr2 c2 x"
  using assms by (auto simp: fed_def captured_append)

lemma fed_then_quiet:
  assumes "fed f tr c tr1 c1 x" and "captured new = []"
  shows "fed f tr c (tr1 @ new) c1 x"
  using assms by (auto simp: fed_def captured_append)

lemma mainloop_iterate_fed:
  assumes "mainloop_iterate env (Some f) (b, c, tr) = (res, b', c', tr')"
  shows "pa_stream b' = pa_stream b" "fed f tr c tr' c' res"
  using assms dispatch_consume [of f "iterate_events env tr" b c]
  by (auto simp: mainloop_iterate_def fed_def Let_def split: prod.splits)

abbreviation not_ready_msg :: string where
  "not_ready_msg \<equiv> ''PulseAudio stream failed to become ready.''"

lemma wait_ready_facts:
  assumes "wait_for_stream_ready fuel env (Some f) s (b, c, tr) = Some (res, b', c', tr')"
  shows "pa_stream b' = pa_stream b \<and>
    (case res of Inr u \<Rightarrow> fed f tr c tr' c' (Inr ())
     | Inl err \<Rightarrow> fed f tr c tr' c' (Inl err) \<or> fed f tr c tr' c' (Inr ()) \<and> err = not_ready_msg)"
  using assms
proof (induction fuel arbitrary: b c tr)
  case 0
  then show ?case by (simp add: wait_for_stream_ready.simps)
next
  case (Suc fuel)
  let ?tr1 = "tr @ [StreamState s (stream_get_state env tr)]"
  have quiet: "fed f tr c ?tr1 c (Inr ())" by (rule fed_quiet) simp
  obtain r1 b1 c1 tr2 where m: "mainloop_iterate env (Some f) (b, c, ?tr1) = (r1, b1, c1, tr2)"
    by (metis surj_pair)
  note it = mainloop_iterate_fed [OF m]
  from it(2) have step: "fed f tr c tr2 c1 r1" by (rule fed_trans [OF quiet])
  note unf = Suc.prems [unfolded wait_for_stream_ready.simps(2) Let_def m]
  show ?case
  proof (cases "stream_get_state env tr = PA_STREAM_READY \<or> stream_get_state env tr = PA_STREAM_FAILED \<or>
      stream_get_state env tr = PA_STREAM_TERMINATED")
    case True
    then have "(res = Inr () \<or> res = Inl not_ready_msg) \<and> b' = b \<and> c' = c \<and> tr' = ?tr1"
      using unf by (simp split: if_splits)
    then show ?thesis using quiet by (elim conjE disjE) simp_all
  next
    case False
    show ?thesis
    proof (cases r1)
      case (Inl exc)
      with unf False have "res = Inl exc" "b' = b1" "c' = c1" "tr' = tr2" by simp_all
      with step it(1) Inl show ?thesis by simp
    next
      case (Inr u)
      with unf False have again: "wait_for_stream_ready fuel env (Some f) s (b1, c1, tr2) = Some (res, b', c', tr')"
        by simp
      from step Inr have "fed f tr c tr2 c1 (Inr ())" by simp
      from fed_trans [OF this] Suc.IH [OF again] it(1) show ?thesis by (cases res) auto
    qed
  qed
qed

lemma record_loop_facts:
  assumes "record_loop fuel env (Some f) (b, c, tr) = Some (res, b', c', tr')"
  shows "pa_stream b' = pa_stream b \<and> fed f tr c tr' c' res \<and> (res = Inr () \<longrightarrow> \<not> recording b')"
  using assms
proof (induction fuel arbitrary: b c tr)
  case 0
  then show ?case by (simp add: record_loop.simps)
next
  case (Suc fuel)
  let ?b0 = "if stop_seen env tr then stop_recording b else b"
  let ?tr0 = "tr @ [PollFlags (stop_seen env tr)]"
  let ?tr1 = "?tr0 @ [PollShutdown (shutdown_seen env ?tr0)]"
  have b0: "pa_stream ?b0 = pa_stream b" by (simp add: stop_recording_def)
  have q0: "fed f tr c ?tr0 c (Inr ())" by (rule fed_quiet) simp
  have q1: "fed f tr c ?tr1 c (Inr ())" by (rule fed_then_quiet [OF q0]) simp
  obtain r1 b1 c1 tr2 where m: "mainloop_iterate env (Some f) (?b0, c, ?tr1) = (r1, b1, c1, tr2)"
    by (metis surj_pair)
  note it = mainloop_iterate_fed [OF m]
  from it(2) have step: "fed f tr c tr2 c1 r1" by (rule fed_trans [OF q1])
  note unf = Suc.prems [unfolded record_loop.simps(2) Let_def m]
  show ?case
  proof (cases "\<not> recording ?b0 \<or> shutdown_seen env ?tr0")
    case True
    then have "res = Inr () \<and> c' = c \<and> pa_stream b' = pa_stream ?b0 \<and> \<not> recording b' \<and> (tr' = ?tr0 \<or> tr' = ?tr1)"
      using unf by (cases "recording ?b0") (auto simp del: append.simps split: if_splits)
    then show ?thesis using q0 q1 b0 by (elim conjE disjE) simp_all
  next
    case False
    show ?thesis
    proof (cases r1)
      case (Inl exc)
      with unf False have "res = Inl exc" "b' = b1" "c' = c1" "tr' = tr2" by simp_all
      with step it(1) b0 Inl show ?thesis by simp
    next
      case (Inr u)
      with unf False have again: "record_loop fuel env (Some f) (b1, c1, tr2) = Some (res, b', c', tr')" by simp
      from step Inr have "fed f tr c tr2 c1 (Inr ())" by simp
      from fed_trans [OF this] Suc.IH [OF again] it(1) b0 show ?thesis by simp
    qed
  qed
qed

lemma destroy_stream_facts:
  assumes "destroy_stream env b tr = (b', tr')"
  shows "b' = b\<lparr>pa_stream := None\<rparr>" "\<exists>new. tr' = tr @ new \<and> captured new = []"
    "pa_stream b = Some s \<Longrightarrow> StreamUnref s \<in> set tr'"
  using assms by (auto simp: destroy_stream_def Let_def split: option.splits if_splits)

lemma destroy_stream_fed:
  assumes "destroy_stream env b tr = (b', tr')"
  shows "b' = b\<lparr>pa_stream := None\<rparr>" "fed f tr0 c tr c' x \<Longrightarrow> fed f tr0 c tr' c' x"
proof -
  from destroy_stream_facts [OF assms] obtain new where new: "b' = b\<lparr>pa_stream := None\<rparr>" "tr' = tr @ new" "captured new = []"
    by blast
  then show "b' = b\<lparr>pa_stream := None\<rparr>" by simp
  show "fed f tr0 c tr c' x \<Longrightarrow> fed f tr0 c tr' c' x"
    unfolding new(2) by (rule fed_then_quiet [OF _ new(3)])
qed

lemma record_device_facts:
  assumes "record_device fuel env (Some f) dev (b, c, tr) = Some (res, b', c', tr')"
  shows "case res of
     Inr u \<Rightarrow> is_source dev \<and> fed f tr c tr' c' (Inr ()) \<and> pa_stream b' = None \<and> \<not> recording b'
   | Inl err \<Rightarrow>
       if \<not> is_source dev then b' = b \<and> c' = c \<and> tr' = tr
       else fed f tr c tr' c' (Inl err) \<and> pa_stream b' \<noteq> None \<or>
            fed f tr c tr' c' (Inr ()) \<and> (pa_stream b' = None \<or> err = ''PulseAudio stream failed to become ready.'')"
proof (cases "is_source dev")
  case False
  with assms show ?thesis by (auto simp: record_device_def)
next
  case True
  obtain b1 tr1 where d1: "destroy_stream env b tr = (b1, tr1)" by (cases "destroy_stream env b tr")
  have "fed f tr c tr c (Inr ())" using fed_quiet [of "[]"] by simp
  with destroy_stream_fed [OF d1] have n1: "fed f tr c tr1 c (Inr ())" "pa_stream b1 = None" by simp_all
  show ?thesis
  proof (cases "stream_new_result env tr1")
    case None
    from fed_then_quiet [OF n1(1), of "[StreamNew (channels dev) None]"] assms True d1 n1(2) None show ?thesis
      by (auto simp: record_device_def Let_def)
  next
    case (Some s)
    let ?b2 = "b1\<lparr>pa_stream := Some s\<rparr>"
    let ?tr2 = "tr1 @ [StreamNew (channels dev) (Some s)]"
    let ?st = "connect_record_result env ?tr2"
    let ?tr3 = "?tr2 @ [ConnectRecord s (dev_name dev) (usec_to_bytes env 20000 (channels dev)) ?st]"
    have n2: "fed f tr c ?tr2 c (Inr ())" by (rule fed_then_quiet [OF n1(1)]) simp
    have n3: "fed f tr c ?tr3 c (Inr ())" by (rule fed_then_quiet [OF n2]) simp
    note rec = assms [unfolded record_device_def prod.case d1 Let_def Some option.case, simplified True simp_thms if_False]
    show ?thesis
    proof (cases "?st = 0")
      case False
      obtain b3 tr4 where d3: "destroy_stream env ?b2 ?tr3 = (b3, tr4)" by (cases "destroy_stream env ?b2 ?tr3")
      from destroy_stream_fed(2) [OF d3 n3] destroy_stream_fed(1) [OF d3]
      have "fed f tr c tr4 c (Inr ())" "pa_stream b3 = None" by simp_all
      with rec False d3 True show ?thesis by auto
    next
      case st: True
      obtain r b3 c1 tr4 where w: "wait_for_stream_ready fuel env (Some f) s (?b2, c, ?tr3) = Some (r, b3, c1, tr4)"
        using rec st by (auto split: option.splits)
      note wf = wait_ready_facts [OF w]
      show ?thesis
      proof (cases r)
        case (Inl err)
        with rec st w have "res = Inl err" "b' = b3" "c' = c1" "tr' = tr4" by auto
        with wf Inl True fed_trans [OF n3] show ?thesis by auto
      next
        case (Inr u)
        with wf have n4: "fed f tr c tr4 c1 (Inr ())" by (auto intro: fed_trans [OF n3])
        obtain r5 b4 c2 tr5 where l: "record_loop fuel env (Some f) (b3\<lparr>recording := True\<rparr>, c1, tr4) = Some (r5, b4, c2, tr5)"
          using rec st w Inr by (auto split: option.splits)
        from record_loop_facts [OF l] have n5: "fed f tr c tr5 c2 r5" "pa_stream b4 = Some s" "r5 = Inr () \<longrightarrow> \<not> recording b4"
          using fed_trans [OF n4] wf by auto
        obtain b5 tr6 where d5: "destroy_stream env b4 tr5 = (b5, tr6)" by (cases "destroy_stream env b4 tr5")
        show ?thesis
        proof (cases r5)
          case (Inl exc)
          with rec st w Inr l n5 True show ?thesis by auto
        next
          case (Inr v)
          from destroy_stream_fed(2) [OF d5 n5(1)] destroy_stream_fed(1) [OF d5] n5(3) Inr
          have "fed f tr c tr6 c2 (Inr ())" "pa_stream b5 = None" "\<not> recording b5" by simp_all
          with rec st w \<open>r = Inr u\<close> l Inr d5 True show ?thesis by auto
        qed
      qed
    qed
  qed
qed

text \<open>However a recording ends, some stretch of fragments was fed, and an exception of the data callback
  is the one \<open>record\<close> throws.\<close>

lemma record_device_fed:
  assumes "record_device fuel env (Some f) dev (b, c, tr) = Some (res, b', c', tr')"
  obtains thrown where "fed f tr c tr' c' thrown" and "thrown \<noteq> Inr () \<Longrightarrow> res = thrown"
proof (cases res)
  case (Inl err)
  have "fed f tr c tr c (Inr ())" using fed_quiet [of "[]"] by simp
  with record_device_facts [OF assms] Inl that show ?thesis by (auto split: if_splits)
next
  case (Inr u)
  with record_device_facts [OF assms] that show ?thesis by auto
qed

section \<open>Properties\<close>

text \<open>C23. Recording. Whenever \<open>record\<close> ends, the data callback has been given the fragments that the
  mainloop delivered in the meantime, in order and once, up to the first one it threw on. On a normal
  return it threw on none, the device was a source, the stream is released and the recording flag is
  off. A device that is not a source is refused before anything happens. An exception of the data
  callback becomes that of \<open>record\<close> and leaves the stream behind; after any other exception the stream
  is released, except when it failed to become ready.\<close>

theorem record_outcome:
  assumes "record_device fuel env (Some f) dev (b, c, tr) = Some (res, b', c', tr')"
  shows "case res of
     Inr u \<Rightarrow> is_source dev \<and> fed f tr c tr' c' (Inr ()) \<and> pa_stream b' = None \<and> \<not> recording b'
   | Inl err \<Rightarrow>
       if \<not> is_source dev then b' = b \<and> c' = c \<and> tr' = tr
       else fed f tr c tr' c' (Inl err) \<and> pa_stream b' \<noteq> None \<or>
            fed f tr c tr' c' (Inr ()) \<and> (pa_stream b' = None \<or> err = ''PulseAudio stream failed to become ready.'')"
  by (rule record_device_facts [OF assms])

text \<open>A device for the witnesses, and an environment whose stream fails at once.\<close>

definition mic :: audio_device where
  "mic = new_audio_device ''mic'' ''Microphone'' 3 48000 2 False True"

definition idle_backend :: backend where
  "idle_backend = \<lparr>recording = False, playback = False, pa_stream = None, virtual_source_loaded = False,
     virtual_input_error = [], virtual_source_mod_idx = pa_invalid_index, virtual_source_fifo_path = ''/tmp/p.pcm'',
     virtual_source_name = ''p'', virtual_source_fd = - 1\<rparr>"

text \<open>One fragment arrives in the first iteration; the second round sees the shutdown request.\<close>

definition capture_pa :: pa_env where
  "capture_pa = \<lparr>process_id = 42, connect_result = (\<lambda>h. 0), context_states = (\<lambda>h. [[PA_CONTEXT_READY]]),
     shutdown_seen = (\<lambda>h. 6 \<le> length h), stop_seen = (\<lambda>h. False),
     iterate_events = (\<lambda>h. [ReadEvent [PeekData [1, 2], PeekHole 4, PeekData [3, 4]]]),
     module_list = (\<lambda>h. NullOp), load_result = (\<lambda>h. NullOp), unload_result = (\<lambda>h. NullOp),
     mkfifo_result = (\<lambda>h. None), open_result = (\<lambda>h. Inl ENXIO), write_result = (\<lambda>h bs. Inr (length bs)),
     stream_new_result = (\<lambda>h. Some 3), connect_record_result = (\<lambda>h. 0), stream_get_state = (\<lambda>h. PA_STREAM_READY),
     usec_to_bytes = (\<lambda>us ch. us * 96 * unat ch div 1000), strerror = (\<lambda>e. ''error''), errno_now = (\<lambda>h. ENXIO)\<rparr>"

text \<open>What it delivers is fed to any data callback that does not throw on it.\<close>

lemma record_capture:
  assumes "is_source dev" and "consume f [[1, 2], [3, 4]] c = (Inr (), c')"
    and "pa_stream b = None" and "length h \<le> 1"
  shows "\<exists>b' h'. record_device 3 capture_pa (Some f) dev (b, c, h) = Some (Inr (), b', c', h')"
proof -
  obtain c1 where "f [1, 2] c = (Inr (), c1)" "f [3, 4] c1 = (Inr (), c')"
    using assms(2) by (auto split: prod.splits sum.splits)
  with assms(1,3,4) show ?thesis
    by (simp add: record_device_def destroy_stream_def capture_pa_def
        wait_for_stream_ready.simps record_loop.simps mainloop_iterate_def numeral_3_eq_3 Let_def)
qed

theorem record_outcome_witness:
  "\<exists>b' tr'. record_device 3 capture_pa (Some (\<lambda>d cs. (Inr (), cs @ [d]))) mic (idle_backend, [], []) = Some (Inr (), b', [[1, 2], [3, 4]], tr') \<and>
     pa_stream b' = None \<and> \<not> recording b'"
proof -
  have "is_source mic" by (simp add: mic_def new_audio_device_def)
  then obtain b' tr' where r: "record_device 3 capture_pa (Some (\<lambda>d cs. (Inr (), cs @ [d]))) mic (idle_backend, [], []) = Some (Inr (), b', [[1, 2], [3, 4]], tr')"
    using record_capture [of mic "\<lambda>d cs. (Inr (), cs @ [d])" "[]" "[[1, 2], [3, 4]]" idle_backend "[]"]
    by (auto simp: idle_backend_def)
  from record_outcome [OF r] r show ?thesis by simp
qed

text \<open>A stream that fails to become ready is left behind. \<open>record\<close> throws with the stream still
  referenced and its callbacks still pointing at the backend; the destructor of the backend
  disconnects the context and frees the mainloop without ever releasing it.\<close>

theorem failed_wait_leaves_stream:
  assumes "is_source dev" and "destroy_stream env b tr = (b1, tr1)" and "stream_new_result env tr1 = Some s"
    and "\<And>h. connect_record_result env h = 0" and "\<And>h. stream_get_state env h = PA_STREAM_FAILED"
  shows "\<exists>b' tr'. record_device (Suc fuel) env cb dev (b, c, tr) =
      Some (Inl ''PulseAudio stream failed to become ready.'', b', c, tr') \<and> pa_stream b' = Some s \<and>
    pa_stream (fst (destroy_backend env2 b' tr')) = Some s \<and>
    StreamUnref s \<notin> set (drop (length tr') (snd (destroy_backend env2 b' tr')))"
  using assms
  by (auto simp: record_device_def wait_for_stream_ready.simps destroy_backend_def destroy_virtual_input_def
      stop_recording_def Let_def split: sum.splits)

theorem failed_wait_leaves_stream_witness:
  "\<exists>b' tr'. record_device 1 (capture_pa\<lparr>stream_get_state := (\<lambda>h. PA_STREAM_FAILED)\<rparr>) (None :: unit data_callback option) mic (idle_backend, (), []) =
      Some (Inl ''PulseAudio stream failed to become ready.'', b', (), tr') \<and> pa_stream b' = Some 3"
proof -
  have "is_source mic" "destroy_stream (capture_pa\<lparr>stream_get_state := (\<lambda>h. PA_STREAM_FAILED)\<rparr>) idle_backend [] = (idle_backend, [])"
    by (simp_all add: mic_def new_audio_device_def destroy_stream_def idle_backend_def)
  from failed_wait_leaves_stream [OF this, of 3 0 "None :: unit data_callback option" "()" capture_pa] show ?thesis
    by (auto simp: capture_pa_def)
qed

end
