(* ===== verification/Config.thy ===== *)
theory Config
  imports Interfaces
begin

text \<open>
  \<open>include/config.hxx\<close> and \<open>src/config.cpp\<close>: the connection policy, the configuration object
  and its constructor. The TOML parser, the resolver and the file system are parameters
  (\<open>config_env\<close>); the queries the code makes on a parsed table are modelled here.
\<close>

section \<open>Data\<close>

datatype mode = CLIENT | SERVER

instantiation mode :: linorder
begin

definition less_eq_mode :: "mode \<Rightarrow> mode \<Rightarrow> bool" where
  "less_eq_mode a b \<longleftrightarrow> a = CLIENT \<or> b = SERVER"

definition less_mode :: "mode \<Rightarrow> mode \<Rightarrow> bool" where
  "less_mode a b \<longleftrightarrow> a = CLIENT \<and> b = SERVER"

instance
  by standard (auto simp: less_eq_mode_def less_mode_def intro: mode.exhaust)

end

record connection_policy =
  connect_timeout_ms :: u32
  handshake_timeout_ms :: u32
  max_retries :: u16
  retry_backoff_ms :: u32
  max_backoff_ms :: u32
  keepalive_interval_ms :: u32
  unreachable_after_failures :: u16

definition default_policy :: connection_policy where
  "default_policy = \<lparr>connect_timeout_ms = 5000, handshake_timeout_ms = 3000, max_retries = 3,
     retry_backoff_ms = 2000, max_backoff_ms = 30000, keepalive_interval_ms = 20000,
     unreachable_after_failures = 3\<rparr>"

record config =
  local_ip :: string
  remote_ip :: string
  remote_port :: u16
  local_port :: u16
  connection :: connection_policy
  config_dir :: string
  keys_dir :: string

text \<open>
  The members' initialisers. \<open>remote_port\<close> has none; the constructor assigns it before it
  returns on every path, so its start value is never seen.
\<close>

definition config_init :: config where
  "config_init = \<lparr>local_ip = ''localhost'', remote_ip = [], remote_port = 0, local_port = 8891,
     connection = default_policy, config_dir = [], keys_dir = []\<rparr>"

datatype config_error =
    FilesystemError string
  | IosFailure
  | SystemError int string
  | ReadPastEnd
  | TomlParseError string
  | MaxRetriesZero
  | MissingTable string
  | MissingIp string
  | MissingPort string
  | PortOutOfRange int
  | Unresolvable string int

section \<open>Queries on a parsed TOML table\<close>

datatype toml =
    TString string
  | TInteger int
  | TFloat
  | TBoolean bool
  | TDateTime
  | TArray "toml list"
  | TTable "(string \<times> toml) list"

text \<open>A node view is \<open>None\<close> when the key is absent (it converts to \<open>false\<close>).\<close>

fun toml_get :: "toml option \<Rightarrow> string \<Rightarrow> toml option" where
  "toml_get (Some (TTable kvs)) k = map_of kvs k"
| "toml_get v k = None"

fun view_is_table :: "toml option \<Rightarrow> bool" where
  "view_is_table (Some (TTable kvs)) = True"
| "view_is_table v = False"

fun value_exact_int :: "toml option \<Rightarrow> int option" where
  "value_exact_int (Some (TInteger i)) = Some i"
| "value_exact_int v = None"

lemma value_exact_int_Some_iff [simp]: "value_exact_int x = Some v \<longleftrightarrow> x = Some (TInteger v)"
  by (cases x rule: value_exact_int.cases) auto

fun value_string :: "toml option \<Rightarrow> string option" where
  "value_string (Some (TString s)) = Some s"
| "value_string v = None"

section \<open>The outside world of the constructor\<close>

record addrinfo =
  ai_family :: nat
  sin_addr :: "byte list"
  sin6_addr :: "byte list"

record config_env =
  fs_canonical :: "string \<Rightarrow> string + string"
  fs_open :: "string \<Rightarrow> int + string"
  heap_after :: "string \<Rightarrow> string"
  toml_parse :: "string \<Rightarrow> string + (string \<times> toml) list"
  getaddrinfo :: "string \<Rightarrow> int + addrinfo"
  inet_ntop :: "nat \<Rightarrow> byte list \<Rightarrow> string"

section \<open>Operations\<close>

definition remote :: "mode \<Rightarrow> mode" where
  "remote m = (if m = CLIENT then SERVER else CLIENT)"

definition mode_to_str :: "mode \<Rightarrow> string" where
  "mode_to_str m = (if m = CLIENT then ''client'' else ''server'')"

definition validate_port :: "int \<Rightarrow> config_error + u16" where
  "validate_port port =
     (if port < 1024 \<or> port > 65535 then Inl (PortOutOfRange port) else Inr (cast_u16 port))"

text \<open>\<open>AF_INET\<close> is 2 and \<open>AF_INET6\<close> is 10 on Linux. Only the first result is used.\<close>

definition validate_ip :: "config_env \<Rightarrow> string \<Rightarrow> config_error + string" where
  "validate_ip env s = (case getaddrinfo env s of
     Inl ret \<Rightarrow> Inl (Unresolvable s ret)
   | Inr out \<Rightarrow>
       Inr (if ai_family out = 10 then inet_ntop env 10 (sin6_addr out)
            else inet_ntop env 2 (sin_addr out)))"

text \<open>
  \<open>std::string(const char *)\<close> reads up to the first NUL. The vector that holds the file has
  none of its own, so the read goes on into the memory that follows it; \<open>None\<close> when no NUL
  is met in the memory the environment describes.
\<close>

definition c_string :: "string \<Rightarrow> string option" where
  "c_string mem =
     (if CHR 0x00 \<in> set mem then Some (takeWhile (\<lambda>c. c \<noteq> CHR 0x00) mem) else None)"

definition file_to_str :: "config_env \<Rightarrow> string \<Rightarrow> config_error + string" where
  "file_to_str env path = (case fs_canonical env path of
     Inl e \<Rightarrow> Inl (FilesystemError e)
   | Inr p \<Rightarrow> (case fs_open env p of
       Inl errno \<Rightarrow> Inl (if errno = 0 then IosFailure else SystemError errno p)
     | Inr contents \<Rightarrow> (case c_string (contents @ heap_after env contents) of
         None \<Rightarrow> Inl ReadPastEnd
       | Some s \<Rightarrow> Inr s)))"

definition opt_u32 :: "toml option \<Rightarrow> string \<Rightarrow> u32 \<Rightarrow> u32" where
  "opt_u32 t k old =
     (case value_exact_int (toml_get t k) of Some v \<Rightarrow> cast_u32 v | None \<Rightarrow> old)"

definition opt_u16 :: "toml option \<Rightarrow> string \<Rightarrow> u16 \<Rightarrow> u16" where
  "opt_u16 t k old =
     (case value_exact_int (toml_get t k) of Some v \<Rightarrow> cast_u16 v | None \<Rightarrow> old)"

definition parse_net ::
    "toml option \<Rightarrow> connection_policy \<Rightarrow> config_error + connection_policy" where
  "parse_net t p =
     (if \<not> view_is_table t then Inr p
      else
        let p1 = p\<lparr>connect_timeout_ms := opt_u32 t ''connect_timeout_ms'' (connect_timeout_ms p)\<rparr>;
            p2 = p1\<lparr>handshake_timeout_ms :=
                      opt_u32 t ''handshake_timeout_ms'' (handshake_timeout_ms p1)\<rparr>;
            p3 = p2\<lparr>max_retries := opt_u16 t ''max_retries'' (max_retries p2)\<rparr>
        in if value_exact_int (toml_get t ''max_retries'') \<noteq> None \<and> max_retries p3 = 0
           then Inl MaxRetriesZero
           else Inr (p3\<lparr>
             retry_backoff_ms := opt_u32 t ''retry_backoff_ms'' (retry_backoff_ms p3),
             max_backoff_ms := opt_u32 t ''max_backoff_ms'' (max_backoff_ms p3),
             keepalive_interval_ms := opt_u32 t ''keepalive_interval_ms'' (keepalive_interval_ms p3),
             unreachable_after_failures :=
               opt_u16 t ''unreachable_after_failures'' (unreachable_after_failures p3)\<rparr>))"

definition apply_remote ::
    "config_env \<Rightarrow> toml option \<Rightarrow> string \<Rightarrow> config \<Rightarrow> config_error + config" where
  "apply_remote env remotes name c =
     (if \<not> view_is_table remotes then Inl (MissingTable name)
      else case value_string (toml_get remotes ''ip'') of
        None \<Rightarrow> Inl (MissingIp name)
      | Some ip \<Rightarrow> bind_err (validate_ip env ip) (\<lambda>rip.
          case value_exact_int (toml_get remotes ''port'') of
            None \<Rightarrow> Inl (MissingPort name)
          | Some port \<Rightarrow> bind_err (validate_port port) (\<lambda>rport.
              Inr (c\<lparr>remote_ip := rip, remote_port := rport\<rparr>))))"

definition apply_local ::
    "config_env \<Rightarrow> toml option \<Rightarrow> string \<Rightarrow> config \<Rightarrow> config_error + config" where
  "apply_local env locals name c =
     (case locals of
        None \<Rightarrow> Inr c
      | Some node \<Rightarrow>
          let ip = (case value_string (toml_get locals ''ip'') of
                      Some s \<Rightarrow> s | None \<Rightarrow> ''localhost'')
          in bind_err (validate_ip env ip) (\<lambda>lip.
               case value_exact_int (toml_get locals ''port'') of
                 None \<Rightarrow> Inl (MissingPort name)
               | Some port \<Rightarrow> bind_err (validate_port port) (\<lambda>lport.
                   Inr (c\<lparr>local_ip := lip, local_port := lport\<rparr>))))"

definition apply_table ::
    "config_env \<Rightarrow> (string \<times> toml) list \<Rightarrow> mode \<Rightarrow> config \<Rightarrow> config_error + config" where
  "apply_table env table m c =
     (let view = Some (TTable table)
      in bind_err (parse_net (toml_get view ''net'') (connection c)) (\<lambda>pol.
         bind_err (apply_remote env (toml_get view (mode_to_str (remote m)))
                     (mode_to_str (remote m)) (c\<lparr>connection := pol\<rparr>)) (\<lambda>c'.
           apply_local env (toml_get view (mode_to_str m)) (mode_to_str m) c')))"

text \<open>\<open>std::filesystem::path::parent_path\<close> of an absolute canonical path.\<close>

definition parent_path :: "string \<Rightarrow> string" where
  "parent_path p =
     (let upto = rev (dropWhile (\<lambda>ch. ch \<noteq> CHR ''/'') (rev p))
      in if length upto \<le> 1 then ''/'' else butlast upto)"

definition new_config :: "config_env \<Rightarrow> string \<Rightarrow> mode \<Rightarrow> config_error + config" where
  "new_config env cfg_path m =
     (case fs_canonical env cfg_path of
        Inl e \<Rightarrow> Inl (FilesystemError e)
      | Inr p \<Rightarrow>
          let c = config_init\<lparr>config_dir := parent_path p, keys_dir := parent_path p\<rparr>
          in bind_err (file_to_str env p) (\<lambda>contents.
               case toml_parse env contents of
                 Inl e \<Rightarrow> Inl (TomlParseError e)
               | Inr table \<Rightarrow> apply_table env table m c))"

text \<open>\<open>get_user_config_path\<close> logs when \<open>HOME\<close> is unset and has no other outcome.\<close>

definition get_user_config_path :: "string option \<Rightarrow> string option" where
  "get_user_config_path home_dir = None"


section \<open>Facts about the parts\<close>

lemma remote_involution [simp]: "remote (remote m) = m"
  by (cases m) (simp_all add: remote_def)

lemma remote_simps [simp]: "remote CLIENT = SERVER" "remote SERVER = CLIENT"
  by (simp_all add: remote_def)

lemma mode_to_str_simps [simp]: "mode_to_str CLIENT = ''client''" "mode_to_str SERVER = ''server''"
  by (simp_all add: mode_to_str_def)

lemma validate_port_Inr_iff:
  "validate_port p = Inr w \<longleftrightarrow> 1024 \<le> p \<and> p \<le> 65535 \<and> w = cast_u16 p"
  by (auto simp: validate_port_def)

lemma validate_port_uint: "validate_port p = Inr w \<Longrightarrow> uint w = p \<and> 1024 \<le> uint w"
  by (simp add: validate_port_Inr_iff cast_u16_exact)

lemma parse_net_table:
  assumes "parse_net t p = Inr q" and "view_is_table t"
  shows "q = \<lparr>connect_timeout_ms = opt_u32 t ''connect_timeout_ms'' (connect_timeout_ms p),
       handshake_timeout_ms = opt_u32 t ''handshake_timeout_ms'' (handshake_timeout_ms p),
       max_retries = opt_u16 t ''max_retries'' (max_retries p),
       retry_backoff_ms = opt_u32 t ''retry_backoff_ms'' (retry_backoff_ms p),
       max_backoff_ms = opt_u32 t ''max_backoff_ms'' (max_backoff_ms p),
       keepalive_interval_ms = opt_u32 t ''keepalive_interval_ms'' (keepalive_interval_ms p),
       unreachable_after_failures =
         opt_u16 t ''unreachable_after_failures'' (unreachable_after_failures p)\<rparr>"
  using assms by (cases p) (simp add: parse_net_def Let_def split: if_splits)

lemma parse_net_error_iff:
  "parse_net t p = Inl e \<longleftrightarrow>
     view_is_table t \<and> e = MaxRetriesZero \<and>
     (\<exists>v. value_exact_int (toml_get t ''max_retries'') = Some v \<and> v mod 65536 = 0)"
  by (auto simp: parse_net_def Let_def opt_u16_def cast_u16_zero_iff)

lemma parse_net_max_retries:
  assumes "parse_net t p = Inr q" and "max_retries p \<noteq> 0"
  shows "max_retries q \<noteq> 0"
proof (cases "view_is_table t")
  case True
  from assms(1) have "\<not> (\<exists>v. value_exact_int (toml_get t ''max_retries'') = Some v \<and> v mod 65536 = 0)"
    using parse_net_error_iff [of t p MaxRetriesZero] True by auto
  with parse_net_table [OF assms(1) True] assms(2) show ?thesis
    by (auto simp: opt_u16_def cast_u16_zero_iff split: option.splits)
next
  case False
  with assms show ?thesis by (simp add: parse_net_def)
qed

lemma apply_remote_Inr_iff:
  "apply_remote env remotes name c = Inr c' \<longleftrightarrow>
     (\<exists>ip rip port rport. view_is_table remotes \<and>
        value_string (toml_get remotes ''ip'') = Some ip \<and> validate_ip env ip = Inr rip \<and>
        value_exact_int (toml_get remotes ''port'') = Some port \<and>
        validate_port port = Inr rport \<and>
        c' = c\<lparr>remote_ip := rip, remote_port := rport\<rparr>)"
  by (auto simp: apply_remote_def bind_err_Inr_iff split: option.splits)

lemma apply_local_Some_Inr_iff:
  "apply_local env (Some node) name c = Inr c' \<longleftrightarrow>
     (\<exists>lip port lport.
        validate_ip env (case value_string (toml_get (Some node) ''ip'') of
                           Some s \<Rightarrow> s | None \<Rightarrow> ''localhost'') = Inr lip \<and>
        value_exact_int (toml_get (Some node) ''port'') = Some port \<and>
        validate_port port = Inr lport \<and>
        c' = c\<lparr>local_ip := lip, local_port := lport\<rparr>)"
  by (auto simp: apply_local_def Let_def bind_err_Inr_iff split: option.splits)

lemma apply_table_Inr_iff:
  "apply_table env table m c = Inr c' \<longleftrightarrow>
     (\<exists>pol c1. parse_net (map_of table ''net'') (connection c) = Inr pol \<and>
        apply_remote env (map_of table (mode_to_str (remote m))) (mode_to_str (remote m))
          (c\<lparr>connection := pol\<rparr>) = Inr c1 \<and>
        apply_local env (map_of table (mode_to_str m)) (mode_to_str m) c1 = Inr c')"
  by (auto simp: apply_table_def Let_def bind_err_Inr_iff)

lemma new_config_Inr_iff:
  "new_config env path m = Inr c \<longleftrightarrow>
     (\<exists>p contents table. fs_canonical env path = Inr p \<and> file_to_str env p = Inr contents \<and>
        toml_parse env contents = Inr table \<and>
        apply_table env table m
          (config_init\<lparr>config_dir := parent_path p, keys_dir := parent_path p\<rparr>) = Inr c)"
  by (simp add: new_config_def Let_def bind_err_Inr_iff case_sum_Inr_iff)

text \<open>What every successfully constructed configuration satisfies.\<close>

definition config_ok :: "config \<Rightarrow> bool" where
  "config_ok c \<longleftrightarrow> 1024 \<le> uint (remote_port c) \<and> 1024 \<le> uint (local_port c) \<and>
     max_retries (connection c) \<noteq> 0 \<and> keys_dir c = config_dir c"

lemma apply_table_config_ok:
  assumes "apply_table env table m c0 = Inr c"
    and "1024 \<le> uint (local_port c0)" and "max_retries (connection c0) \<noteq> 0"
    and "keys_dir c0 = config_dir c0"
  shows "config_ok c"
proof -
  from assms(1) obtain pol c1 where
      pol: "parse_net (map_of table ''net'') (connection c0) = Inr pol"
    and rem: "apply_remote env (map_of table (mode_to_str (remote m))) (mode_to_str (remote m))
        (c0\<lparr>connection := pol\<rparr>) = Inr c1"
    and loc: "apply_local env (map_of table (mode_to_str m)) (mode_to_str m) c1 = Inr c"
    by (auto simp: apply_table_Inr_iff)
  from parse_net_max_retries [OF pol assms(3)] have "max_retries pol \<noteq> 0" .
  with rem assms(2,4) have c1: "config_ok c1"
    by (auto simp: apply_remote_Inr_iff config_ok_def dest: validate_port_uint)
  show ?thesis
  proof (cases "map_of table (mode_to_str m)")
    case None
    with loc c1 show ?thesis by (simp add: apply_local_def)
  next
    case (Some node)
    with loc c1 show ?thesis
      by (auto simp: apply_local_Some_Inr_iff config_ok_def dest: validate_port_uint)
  qed
qed

section \<open>Properties\<close>

text \<open>Concrete worlds for the witnesses: an identity resolver and one parsed table.\<close>

definition sample_env :: "(string \<times> toml) list \<Rightarrow> config_env" where
  "sample_env table = \<lparr>fs_canonical = (\<lambda>_. Inr ''/etc/audpipe/audpipe.toml''),
     fs_open = (\<lambda>_. Inr ''toml''), heap_after = (\<lambda>_. [CHR 0x00]),
     toml_parse = (\<lambda>_. Inr table),
     getaddrinfo = (\<lambda>s. Inr \<lparr>ai_family = 10, sin_addr = [], sin6_addr = [1]\<rparr>),
     inet_ntop = (\<lambda>f a. ''::1'')\<rparr>"

definition sample_table :: "(string \<times> toml) list" where
  "sample_table = [(''client'', TTable [(''ip'', TString ''localhost''), (''port'', TInteger 7981)]),
     (''server'', TTable [(''ip'', TString ''localhost''), (''port'', TInteger 8179)])]"

lemma sample_config:
  "new_config (sample_env sample_table) ''./audpipe.toml'' m = Inr
     \<lparr>local_ip = ''::1'', remote_ip = ''::1'',
      remote_port = (if m = CLIENT then 8179 else 7981),
      local_port = (if m = CLIENT then 7981 else 8179),
      connection = default_policy, config_dir = ''/etc/audpipe'', keys_dir = ''/etc/audpipe''\<rparr>"
  by (cases m) (simp_all add: new_config_def sample_env_def sample_table_def file_to_str_def
      c_string_def apply_table_def parse_net_def apply_remote_def apply_local_def
      validate_ip_def validate_port_def cast_u16_def config_init_def parent_path_def)



text \<open>One configuration file serves both peers: if the file loads in client mode and in
  server mode, each side's remote socket is the other side's local socket, and both have the
  same connection policy.\<close>

theorem peers_agree:
  assumes "new_config env path CLIENT = Inr c" and "new_config env path SERVER = Inr s"
  shows "remote_ip c = local_ip s \<and> remote_port c = local_port s \<and>
         local_ip c = remote_ip s \<and> local_port c = remote_port s \<and> connection c = connection s"
proof -
  from assms obtain p table where
      c: "apply_table env table CLIENT
            (config_init\<lparr>config_dir := parent_path p, keys_dir := parent_path p\<rparr>) = Inr c"
    and s: "apply_table env table SERVER
            (config_init\<lparr>config_dir := parent_path p, keys_dir := parent_path p\<rparr>) = Inr s"
    by (auto simp: new_config_Inr_iff)
  from c obtain srv where srv: "map_of table ''server'' = Some srv"
    by (cases "map_of table ''server''") (auto simp: apply_table_Inr_iff apply_remote_Inr_iff)
  from s obtain cli where cli: "map_of table ''client'' = Some cli"
    by (cases "map_of table ''client''") (auto simp: apply_table_Inr_iff apply_remote_Inr_iff)
  from c s show ?thesis
    by (auto simp: apply_table_Inr_iff apply_remote_Inr_iff apply_local_Some_Inr_iff srv cli)
qed

theorem peers_agree_witness:
  "\<exists>c s. new_config (sample_env sample_table) ''./audpipe.toml'' CLIENT = Inr c \<and>
     new_config (sample_env sample_table) ''./audpipe.toml'' SERVER = Inr s \<and>
     remote_port c = local_port s \<and> local_port c = remote_port s"
  using peers_agree [OF sample_config [of CLIENT] sample_config [of SERVER]]
    sample_config [of CLIENT] sample_config [of SERVER] by blast

text \<open>A port is accepted exactly when it lies in [1024, 65535], and the accepted 16-bit value
  is the number that was written; every other number is refused with that number in the error.\<close>

theorem validate_port_exact:
  "if 1024 \<le> p \<and> p \<le> 65535 then \<exists>w. validate_port p = Inr w \<and> uint w = p
   else validate_port p = Inl (PortOutOfRange p)"
  by (auto simp: validate_port_def cast_u16_exact)

text \<open>What the numbers of the \<open>[net]\<close> section come out as: the written 64-bit number modulo the
  width of the field, or the old value when the key is absent or not an integer.\<close>

definition net_number :: "(string \<times> toml) list \<Rightarrow> string \<Rightarrow> int \<Rightarrow> int \<Rightarrow> int" where
  "net_number kvs k modulus old =
     (case map_of kvs k of Some (TInteger v) \<Rightarrow> v mod modulus | _ \<Rightarrow> old)"

lemma uint_opt_u32:
  "uint (opt_u32 (Some (TTable kvs)) k old) = net_number kvs k 4294967296 (uint old)"
  by (auto simp: opt_u32_def net_number_def cast_simps split: option.splits toml.splits)

lemma uint_opt_u16:
  "uint (opt_u16 (Some (TTable kvs)) k old) = net_number kvs k 65536 (uint old)"
  by (auto simp: opt_u16_def net_number_def cast_simps split: option.splits toml.splits)

definition net_policy :: "(string \<times> toml) list \<Rightarrow> connection_policy \<Rightarrow> connection_policy" where
  "net_policy kvs p =
     (let w32 = (\<lambda>k old. word_of_int (net_number kvs k (2 ^ 32) (uint (old :: u32))) :: u32);
          w16 = (\<lambda>k old. word_of_int (net_number kvs k (2 ^ 16) (uint (old :: u16))) :: u16)
      in \<lparr>connect_timeout_ms = w32 ''connect_timeout_ms'' (connect_timeout_ms p),
          handshake_timeout_ms = w32 ''handshake_timeout_ms'' (handshake_timeout_ms p),
          max_retries = w16 ''max_retries'' (max_retries p),
          retry_backoff_ms = w32 ''retry_backoff_ms'' (retry_backoff_ms p),
          max_backoff_ms = w32 ''max_backoff_ms'' (max_backoff_ms p),
          keepalive_interval_ms = w32 ''keepalive_interval_ms'' (keepalive_interval_ms p),
          unreachable_after_failures =
            w16 ''unreachable_after_failures'' (unreachable_after_failures p)\<rparr>)"

lemma opt_u32_net_number:
  "opt_u32 (Some (TTable kvs)) k old = word_of_int (net_number kvs k 4294967296 (uint old))"
  using uint_opt_u32 [of kvs k old] by (metis word_of_int_uint)

lemma opt_u16_net_number:
  "opt_u16 (Some (TTable kvs)) k old = word_of_int (net_number kvs k 65536 (uint old))"
  using uint_opt_u16 [of kvs k old] by (metis word_of_int_uint)

text \<open>The \<open>[net]\<close> section is refused exactly when \<open>max_retries\<close> is an integer whose low
  16 bits are zero (so 65536 is refused like 0), and otherwise every field holds the written
  number reduced modulo its width, with no other check: the only guard is on the narrowed retry
  limit.\<close>

theorem parse_net_reads_modulo:
  "parse_net (Some (TTable kvs)) p =
     (if \<exists>v. map_of kvs ''max_retries'' = Some (TInteger v) \<and> v mod 65536 = 0
      then Inl MaxRetriesZero else Inr (net_policy kvs p))"
proof (cases "parse_net (Some (TTable kvs)) p")
  case (Inl e)
  then show ?thesis by (auto simp: parse_net_error_iff)
next
  case (Inr q)
  then have "\<not> (\<exists>v. map_of kvs ''max_retries'' = Some (TInteger v) \<and> v mod 65536 = 0)"
    using parse_net_error_iff [of "Some (TTable kvs)" p MaxRetriesZero] by auto
  moreover have "q = net_policy kvs p"
    by (simp add: parse_net_table [OF Inr] net_policy_def Let_def
        opt_u32_net_number opt_u16_net_number)
  ultimately show ?thesis using Inr by simp
qed

text \<open>Negative durations are not refused. A retry backoff of \<open>-n\<close> milliseconds loads as
  \<open>2^32 - n\<close> milliseconds (for -1, more than 49 days), and the section is accepted.\<close>

theorem negative_backoff_wraps:
  assumes "- 4294967296 \<le> v" and "v < 0"
  shows "\<exists>q. parse_net (Some (TTable [(''retry_backoff_ms'', TInteger v)])) default_policy = Inr q \<and>
             uint (retry_backoff_ms q) = 4294967296 + v"
proof -
  have "v mod 4294967296 = (v + 4294967296) mod 4294967296" by simp
  also have "\<dots> = v + 4294967296" using assms by (intro mod_pos_pos_trivial) auto
  finally show ?thesis
    by (simp add: parse_net_def opt_u32_def cast_simps Let_def)
qed

theorem negative_backoff_wraps_witness:
  "\<exists>q. parse_net (Some (TTable [(''retry_backoff_ms'', TInteger (- 1))])) default_policy = Inr q \<and>
       uint (retry_backoff_ms q) = 4294967295"
  using negative_backoff_wraps [of "- 1"] by simp

text \<open>Reading the configuration file runs off the end of the buffer. For a file without a NUL
  byte the text handed to the parser is the file's own contents exactly when the memory right
  after the buffer happens to start with a NUL; otherwise foreign bytes are appended, or the
  read never finds an end.\<close>

theorem file_to_str_needs_foreign_nul:
  assumes "fs_canonical env path = Inr p" and "fs_open env p = Inr contents"
    and "CHR 0x00 \<notin> set contents"
  shows "file_to_str env path = Inr contents \<longleftrightarrow>
           (\<exists>rest. heap_after env contents = CHR 0x00 # rest)"
proof -
  let ?mem = "heap_after env contents"
  have "takeWhile (\<lambda>c. c \<noteq> CHR 0x00) (contents @ ?mem) = contents @ takeWhile (\<lambda>c. c \<noteq> CHR 0x00) ?mem"
    using assms(3) by (intro takeWhile_append2) auto
  with assms show ?thesis
    by (cases ?mem) (auto simp: file_to_str_def c_string_def)
qed

theorem file_to_str_needs_foreign_nul_witness:
  "CHR 0x00 \<notin> set ''toml'' \<and> file_to_str (sample_env []) ''a'' = Inr ''toml'' \<and>
   file_to_str ((sample_env [])\<lparr>heap_after := \<lambda>_. ''xy'' @ [CHR 0x00]\<rparr>) ''a'' \<noteq> Inr ''toml''"
  using file_to_str_needs_foreign_nul [of "sample_env []" "''a''" "''/etc/audpipe/audpipe.toml''" "''toml''"]
    file_to_str_needs_foreign_nul [of "(sample_env [])\<lparr>heap_after := \<lambda>_. ''xy'' @ [CHR 0x00]\<rparr>"
      "''a''" "''/etc/audpipe/audpipe.toml''" "''toml''"]
  by (simp add: sample_env_def)

text \<open>The local section is optional as a whole but not key by key: without it the local socket
  keeps the defaults \<open>localhost\<close>, unresolved, and 8891; as soon as the section is present, a
  missing \<open>port\<close> is an error although a default port exists.\<close>

theorem local_defaults:
  assumes "apply_table env table m config_init = r"
  shows "(map_of table (mode_to_str m) = None \<longrightarrow>
            (\<forall>c. r = Inr c \<longrightarrow> local_ip c = ''localhost'' \<and> local_port c = 8891)) \<and>
         (\<forall>kvs. map_of table (mode_to_str m) = Some (TTable kvs) \<and> map_of kvs ''port'' = None \<longrightarrow>
            (\<exists>e. r = Inl e))"
proof -
  have "\<exists>e. r = Inl e" if "map_of table (mode_to_str m) = Some (TTable kvs)" "map_of kvs ''port'' = None" for kvs
    using that assms by (cases r) (auto simp: apply_table_Inr_iff apply_local_Some_Inr_iff)
  moreover have "local_ip c = ''localhost'' \<and> local_port c = 8891"
    if "map_of table (mode_to_str m) = None" "r = Inr c" for c
    using that assms
    by (auto simp: apply_table_Inr_iff apply_local_def apply_remote_Inr_iff config_init_def)
  ultimately show ?thesis by blast
qed

theorem local_defaults_witness:
  "apply_table (sample_env []) [(''client'', TTable [(''ip'', TString ''h'')]),
      (''server'', TTable [(''ip'', TString ''h''), (''port'', TInteger 8179)])] CLIENT config_init
     = Inl (MissingPort ''client'') \<and>
   (\<exists>c. apply_table (sample_env []) [(''server'', TTable [(''ip'', TString ''h''), (''port'', TInteger 8179)])]
      CLIENT config_init = Inr c \<and> local_ip c = ''localhost'' \<and> local_port c = 8891)"
proof -
  let ?t = "[(''server'', TTable [(''ip'', TString ''h''), (''port'', TInteger 8179)])]"
  have "\<exists>c. apply_table (sample_env []) ?t CLIENT config_init = Inr c"
    by (simp add: apply_table_def parse_net_def apply_remote_def apply_local_def validate_ip_def
        validate_port_def sample_env_def Let_def)
  then obtain c where "apply_table (sample_env []) ?t CLIENT config_init = Inr c" ..
  with local_defaults [OF this]
  have "\<exists>c. apply_table (sample_env []) ?t CLIENT config_init = Inr c \<and>
      local_ip c = ''localhost'' \<and> local_port c = 8891"
    by simp
  then show ?thesis
    by (simp add: apply_table_def parse_net_def apply_remote_def apply_local_def validate_ip_def
        validate_port_def sample_env_def Let_def)
qed

end
