(* ===== verification/Keys.thy ===== *)
theory Keys
  imports Prelude
begin

text \<open>
  \<open>include/keys.hxx\<close> and \<open>src/keys.cpp\<close>: the long-term key files of \<open>KeyManager\<close> and the JSON form
  of trusted peers. Crypto++ and nlohmann-json are parameters: the environment record holds their
  codecs (saving and loading keys, Base64, hex, the JSON parser) and which file-system calls fail.
  A private key drawn at random is an argument of the operation that draws it.
\<close>

section \<open>Environment and state\<close>

text \<open>A path below a directory: the directory (its \<open>parent_path\<close>) and the file's name.\<close>

type_synonym key_path = "string \<times> string"
type_synonym key_fs = "key_path \<Rightarrow> byte list option"

text \<open>A peer as the JSON document has it; absent fields take the struct's defaults.\<close>

record json_peer =
  json_signer_id :: "string option"
  json_pubkey_base64 :: "string option"
  json_label :: "string option"
  json_revoked :: "bool option"

text \<open>\<open>schema::TrustedPeer\<close>.\<close>

record schema_peer =
  schema_signer_id :: string
  schema_pubkey_base64 :: string
  schema_label :: string
  schema_revoked :: bool

text \<open>\<open>TrustedPeer\<close>.\<close>

record 'pk trusted_peer =
  signer_id :: "byte list"
  peer_pubkey :: 'pk
  peer_label :: string
  peer_revoked :: bool

record ('sk, 'pk) key_env =
  create_directory_ok :: "string \<Rightarrow> bool"
  open_ok :: "key_path \<Rightarrow> bool"
  append_ok :: "key_path \<Rightarrow> bool"
  public_of :: "'sk \<Rightarrow> 'pk"
  save_private :: "'sk \<Rightarrow> byte list"
  save_public :: "'pk \<Rightarrow> byte list"
  load_private :: "byte list \<Rightarrow> 'sk option"
  load_public :: "byte list \<Rightarrow> 'pk option"
  base64_encode_lines :: "byte list \<Rightarrow> byte list"
  base64_encode :: "byte list \<Rightarrow> string"
  base64_decode_file :: "byte list \<Rightarrow> byte list"
  base64_decode :: "string \<Rightarrow> byte list"
  hex_encode :: "byte list \<Rightarrow> string"
  hex_decode :: "string \<Rightarrow> byte list"
  parse_peers :: "byte list \<Rightarrow> (json_peer list \<times> byte list) option"

datatype key_error = FileError key_path | AlreadyOpen key_path | WriteError key_path
  | BerDecodeError | JsonError | KeyRuntimeError string

text \<open>
  \<open>KeyManager\<close>. Of the three streams only being open matters, and what is still unread of
  \<open>trusted_peers_file\<close>. \<open>None\<close> as a key is the default-constructed one.
\<close>

record ('sk, 'pk) key_manager =
  keyfile_prefix :: string
  km_keys_dir :: string
  loaded :: bool
  signer :: "'sk option"
  verifier :: "'pk option"
  pubkey_open :: bool
  privkey_open :: bool
  trusted_peers_file :: "byte list option"
  pubkey_path :: key_path
  privkey_path :: key_path
  trusted_peers_path :: key_path
  privkey :: "'sk option"
  pubkey :: "'pk option"

definition new_key_manager :: "string \<Rightarrow> string \<Rightarrow> ('sk, 'pk) key_manager" where
  "new_key_manager dir pre = \<lparr>keyfile_prefix = pre, km_keys_dir = dir, loaded = False, signer = None,
     verifier = None, pubkey_open = False, privkey_open = False, trusted_peers_file = None,
     pubkey_path = ([], []), privkey_path = ([], []), trusted_peers_path = ([], []),
     privkey = None, pubkey = None\<rparr>"

section \<open>Key files\<close>

text \<open>
  \<open>ensure_file_open\<close>: create the directory, open once in append mode (which makes the file), close,
  and open again. Opening a stream that is already open sets its failbit, which throws.
\<close>

definition ensure_file_open :: "('sk, 'pk) key_env \<Rightarrow> key_path \<Rightarrow> bool \<Rightarrow> key_fs \<Rightarrow> key_error + key_fs" where
  "ensure_file_open env file_path is_open fs =
     (if fst file_path \<noteq> [] \<and> \<not> create_directory_ok env (fst file_path) then Inl (FileError file_path)
      else if is_open then Inl (AlreadyOpen file_path)
      else if \<not> open_ok env file_path then Inl (FileError file_path)
      else Inr (case fs file_path of None \<Rightarrow> fs(file_path \<mapsto> []) | Some contents \<Rightarrow> fs))"

text \<open>The streams are open in append mode: whatever is written goes to the end.\<close>

definition append_file :: "('sk, 'pk) key_env \<Rightarrow> key_path \<Rightarrow> byte list \<Rightarrow> key_fs \<Rightarrow> key_error + key_fs" where
  "append_file env file_path bytes fs =
     (if append_ok env file_path
      then Inr (fs(file_path \<mapsto> (case fs file_path of None \<Rightarrow> [] | Some c \<Rightarrow> c) @ bytes))
      else Inl (WriteError file_path))"

definition create_pubkey :: "('sk, 'pk) key_env \<Rightarrow> ('sk, 'pk) key_manager \<times> key_fs
    \<Rightarrow> (key_error + unit) \<times> ('sk, 'pk) key_manager \<times> key_fs" where
  "create_pubkey env = (\<lambda>(km, fs). case signer km of
     None \<Rightarrow> (Inl (KeyRuntimeError ''KeyManager->signer not set but called `KeyManager::pubkey`! This is an internal invariant. Probably file an issue if you see this.''), km, fs)
   | Some sk \<Rightarrow>
       let km1 = km\<lparr>verifier := Some (public_of env sk)\<rparr>; pk = public_of env sk
       in case append_file env (pubkey_path km1) (base64_encode_lines env (save_public env pk)) fs of
            Inl e \<Rightarrow> (Inl e, km1, fs)
          | Inr fs1 \<Rightarrow> (Inr (), km1\<lparr>pubkey := Some pk\<rparr>, fs1))"

definition create :: "('sk, 'pk) key_env \<Rightarrow> 'sk \<Rightarrow> ('sk, 'pk) key_manager \<times> key_fs
    \<Rightarrow> (key_error + unit) \<times> ('sk, 'pk) key_manager \<times> key_fs" where
  "create env fresh = (\<lambda>(km, fs).
     let km1 = km\<lparr>signer := Some fresh\<rparr>
     in case append_file env (privkey_path km1) (base64_encode_lines env (save_private env fresh)) fs of
          Inl e \<Rightarrow> (Inl e, km1, fs)
        | Inr fs1 \<Rightarrow> (case create_pubkey env (km1, fs1) of
            (Inl e, km2, fs2) \<Rightarrow> (Inl e, km2, fs2)
          | (Inr u, km2, fs2) \<Rightarrow> (Inr (), km2\<lparr>privkey := Some fresh\<rparr>, fs2)))"

text \<open>\<open>load_from_file\<close> feeds a whole file to the Base64 decoder; a missing file throws.\<close>

definition load_from_file :: "('sk, 'pk) key_env \<Rightarrow> key_path \<Rightarrow> key_fs \<Rightarrow> key_error + byte list" where
  "load_from_file env file_path fs = (case fs file_path of
     None \<Rightarrow> Inl (FileError file_path)
   | Some contents \<Rightarrow> Inr (base64_decode_file env contents))"

definition load :: "('sk, 'pk) key_env \<Rightarrow> ('sk, 'pk) key_manager \<times> key_fs
    \<Rightarrow> (key_error + unit) \<times> ('sk, 'pk) key_manager \<times> key_fs" where
  "load env = (\<lambda>(km, fs).
     let km1 = km\<lparr>privkey_open := False, pubkey_open := False\<rparr>
     in case load_from_file env (pubkey_path km1) fs of
          Inl e \<Rightarrow> (Inl e, km1, fs)
        | Inr dec \<Rightarrow> (case load_public env dec of
            None \<Rightarrow> (Inl BerDecodeError, km1, fs)
          | Some pk \<Rightarrow>
              let km2 = km1\<lparr>pubkey := Some pk\<rparr>
              in case load_from_file env (privkey_path km2) fs of
                   Inl e \<Rightarrow> (Inl e, km2, fs)
                 | Inr dec2 \<Rightarrow> (case load_private env dec2 of
                     None \<Rightarrow> (Inl BerDecodeError, km2, fs)
                   | Some sk \<Rightarrow> (Inr (), km2\<lparr>privkey := Some sk\<rparr>, fs))))"

definition file_size :: "key_path \<Rightarrow> key_fs \<Rightarrow> nat" where
  "file_size file_path fs = (case fs file_path of None \<Rightarrow> 0 | Some c \<Rightarrow> length c)"

text \<open>The paths \<open>load_or_create\<close> sets before it opens anything.\<close>

definition set_paths :: "('sk, 'pk) key_manager \<Rightarrow> ('sk, 'pk) key_manager" where
  "set_paths km = km\<lparr>pubkey_path := (km_keys_dir km, keyfile_prefix km @ ''_ed25519.pub''),
     privkey_path := (km_keys_dir km, keyfile_prefix km @ ''_ed25519''),
     trusted_peers_path := (km_keys_dir km, ''trusted_peers.json'')\<rparr>"

definition load_or_create :: "('sk, 'pk) key_env \<Rightarrow> 'sk \<Rightarrow> ('sk, 'pk) key_manager \<times> key_fs
    \<Rightarrow> (key_error + unit) \<times> ('sk, 'pk) key_manager \<times> key_fs" where
  "load_or_create env fresh = (\<lambda>(km, fs).
     if loaded km then (Inr (), km, fs)
     else
       let km1 = set_paths km
       in case ensure_file_open env (pubkey_path km1) (pubkey_open km1) fs of
            Inl e \<Rightarrow> (Inl e, km1, fs)
          | Inr fs1 \<Rightarrow>
              let km2 = km1\<lparr>pubkey_open := True\<rparr>
              in case ensure_file_open env (privkey_path km2) (privkey_open km2) fs1 of
                   Inl e \<Rightarrow> (Inl e, km2, fs1)
                 | Inr fs2 \<Rightarrow>
                     let km3 = km2\<lparr>privkey_open := True\<rparr>
                     in case ensure_file_open env (trusted_peers_path km3) (trusted_peers_file km3 \<noteq> None) fs2 of
                          Inl e \<Rightarrow> (Inl e, km3, fs2)
                        | Inr fs3 \<Rightarrow>
                            let km4 = km3\<lparr>trusted_peers_file := fs3 (trusted_peers_path km3)\<rparr>
                            in if file_size (privkey_path km4) fs3 = 0 \<or> file_size (pubkey_path km4) fs3 = 0
                               then create env fresh (km4, fs3)
                               else load env (km4, fs3))"

definition ensure_loaded :: "('sk, 'pk) key_env \<Rightarrow> 'sk \<Rightarrow> ('sk, 'pk) key_manager \<times> key_fs
    \<Rightarrow> (key_error + unit) \<times> ('sk, 'pk) key_manager \<times> key_fs" where
  "ensure_loaded env fresh = (\<lambda>(km, fs).
     if loaded km \<and> signer km \<noteq> None \<and> verifier km \<noteq> None then (Inr (), km, fs)
     else load_or_create env fresh (km, fs))"

text \<open>Signing and verifying have empty bodies.\<close>

definition sign :: "('sk, 'pk) key_manager \<Rightarrow> ('sk, 'pk) key_manager" where
  "sign km = km"

definition verify :: "('sk, 'pk) key_manager \<Rightarrow> ('sk, 'pk) key_manager" where
  "verify km = km"

text \<open>The destructor closes the two key files.\<close>

definition destroy_key_manager :: "('sk, 'pk) key_manager \<Rightarrow> ('sk, 'pk) key_manager" where
  "destroy_key_manager km = km\<lparr>privkey_open := False, pubkey_open := False\<rparr>"

section \<open>Trusted peers\<close>

definition peer_from_json :: "json_peer \<Rightarrow> schema_peer" where
  "peer_from_json j =
     \<lparr>schema_signer_id = (case json_signer_id j of None \<Rightarrow> [] | Some x \<Rightarrow> x),
      schema_pubkey_base64 = (case json_pubkey_base64 j of None \<Rightarrow> [] | Some x \<Rightarrow> x),
      schema_label = (case json_label j of None \<Rightarrow> [] | Some x \<Rightarrow> x),
      schema_revoked = (case json_revoked j of None \<Rightarrow> False | Some x \<Rightarrow> x)\<rparr>"

text \<open>An \<open>ArraySink\<close> stores what fits into the zeroed 32-byte array and drops the rest.\<close>

definition decode_hex_id :: "('sk, 'pk) key_env \<Rightarrow> string \<Rightarrow> byte list" where
  "decode_hex_id env hex = overwrite (replicate 32 0) (hex_decode env hex)"

definition decode_pubkey_base64 :: "('sk, 'pk) key_env \<Rightarrow> string \<Rightarrow> key_error + 'pk" where
  "decode_pubkey_base64 env b64 = (case load_public env (base64_decode env b64) of
     None \<Rightarrow> Inl BerDecodeError | Some pk \<Rightarrow> Inr pk)"

definition encode_hex_id :: "('sk, 'pk) key_env \<Rightarrow> byte list \<Rightarrow> string" where
  "encode_hex_id env sid = hex_encode env sid"

definition encode_pubkey_base64 :: "('sk, 'pk) key_env \<Rightarrow> 'pk \<Rightarrow> string" where
  "encode_pubkey_base64 env pk = base64_encode env (save_public env pk)"

text \<open>The validating constructor.\<close>

definition new_trusted_peer :: "('sk, 'pk) key_env \<Rightarrow> schema_peer \<Rightarrow> key_error + 'pk trusted_peer" where
  "new_trusted_peer env j =
     (if schema_signer_id j = [] then Inl (KeyRuntimeError ''Empty `signer_id` field when reading from JSON file!'')
      else if schema_pubkey_base64 j = [] then Inl (KeyRuntimeError ''Empty `pubkey_base64` field when reading from JSON file!'')
      else if length (schema_signer_id j) \<noteq> 64 then Inl (KeyRuntimeError ''Incorrect `signer_id` length as this is hex encoded!'')
      else bind_err (decode_pubkey_base64 env (schema_pubkey_base64 j)) (\<lambda>pk.
        Inr \<lparr>signer_id = decode_hex_id env (schema_signer_id j), peer_pubkey = pk,
             peer_label = schema_label j, peer_revoked = schema_revoked j\<rparr>))"

definition to_json :: "('sk, 'pk) key_env \<Rightarrow> 'pk trusted_peer \<Rightarrow> schema_peer" where
  "to_json env p = \<lparr>schema_signer_id = encode_hex_id env (signer_id p),
     schema_pubkey_base64 = encode_pubkey_base64 env (peer_pubkey p),
     schema_label = peer_label p, schema_revoked = peer_revoked p\<rparr>"

text \<open>Reads one JSON value off the open stream.\<close>

definition get_trusted_peers :: "('sk, 'pk) key_env \<Rightarrow> ('sk, 'pk) key_manager
    \<Rightarrow> (key_error + 'pk trusted_peer list) \<times> ('sk, 'pk) key_manager" where
  "get_trusted_peers env km = (case trusted_peers_file km of
     None \<Rightarrow> (Inl JsonError, km)
   | Some unread \<Rightarrow> (case parse_peers env unread of
       None \<Rightarrow> (Inl JsonError, km\<lparr>trusted_peers_file := Some []\<rparr>)
     | Some (json_peers, rest) \<Rightarrow>
         (map_err (\<lambda>j. new_trusted_peer env (peer_from_json j)) json_peers,
          km\<lparr>trusted_peers_file := Some rest\<rparr>)))"

end
