(* ===== verification/Client.thy ===== *)
theory Client
  imports Config Rtp Audio Shutdown
begin

text \<open>
  \<open>include/client.hxx\<close> and \<open>src/client.cpp\<close>: the receiving side. RTP frames are queued by
  \<open>recv_callback\<close> (on uvgRTP's thread) and turned into PCM by the write callback (on the virtual
  input's thread). The Opus decoder is a parameter: a function from its own state and a payload
  to a return code, the samples it stores at the start of the PCM buffer, and its next state. The
  run flags of the singleton backend are an argument; \<open>Main_Prog\<close> puts its construction before.
\<close>

section \<open>State\<close>

record client =
  should_stop :: bool
  healthy :: bool
  frames_received :: u64
  last_error :: string
  pcm_decbuf :: "sample list"
  playback_queue :: "byte list"
  compressed_queue :: "byte list list"
  client_rtp :: "rtp option"
  conn_pol :: connection_policy
  decoder_open :: bool
  thread_started :: bool

text \<open>A frame from uvgRTP: \<open>None\<close> for a null payload pointer, else the \<open>payload_len\<close> bytes.\<close>

record rtp_frame =
  payload :: "byte list option"
  dgram_size :: nat

type_synonym 'd opus_decoder = "'d \<Rightarrow> byte list \<Rightarrow> int \<times> sample list \<times> 'd"

definition pcm_decbuf_size :: nat where
  "pcm_decbuf_size = 960 * 2"

section \<open>Health and shutdown\<close>

definition set_error :: "string \<Rightarrow> client \<times> 'a audio_scheme \<Rightarrow> client \<times> 'a audio_scheme" where
  "set_error err = (\<lambda>(c, a).
     if \<not> healthy c then (c, a)
     else (c\<lparr>healthy := False, last_error := err, should_stop := True\<rparr>, stop_recording a))"

definition is_healthy :: "client \<Rightarrow> bool" where
  "is_healthy c = healthy c"

definition client_request_shutdown ::
    "client \<times> uvg_call list \<times> 'a audio_scheme \<Rightarrow> client \<times> uvg_call list \<times> 'a audio_scheme" where
  "client_request_shutdown = (\<lambda>(c, tr, a).
     let c1 = c\<lparr>should_stop := True\<rparr>
     in case client_rtp c1 of
          None \<Rightarrow> (c1, tr, stop_recording a)
        | Some r \<Rightarrow> (case stop (r, tr) of
            (r', tr') \<Rightarrow> (c1\<lparr>client_rtp := Some r'\<rparr>, tr', stop_recording a)))"

definition get_frames_received :: "client \<Rightarrow> u64" where
  "get_frames_received c = frames_received c"

definition get_rtp :: "client \<Rightarrow> rtp option" where
  "get_rtp c = client_rtp c"

section \<open>Receiving frames\<close>

definition max_compressed_queue_frames :: nat where
  "max_compressed_queue_frames = 256"

text \<open>The critical section of \<open>recv_callback\<close>.\<close>

definition enqueue_frame :: "byte list \<Rightarrow> client \<Rightarrow> client" where
  "enqueue_frame data c =
     (let q = compressed_queue c;
          q' = (if length q \<ge> max_compressed_queue_frames then tl q else q)
      in c\<lparr>compressed_queue := q' @ [data], frames_received := frames_received c + 1\<rparr>)"

text \<open>The result is the client and the frames handed back with \<open>dealloc_frame\<close>.\<close>

definition recv_callback ::
    "rtp_frame option \<Rightarrow> client option \<Rightarrow> client option \<times> rtp_frame list" where
  "recv_callback frame self = (case (self, frame) of
     (Some c, Some f) \<Rightarrow>
       if should_stop c \<or> \<not> healthy c then (Some c, [f])
       else (case payload f of
           Some data \<Rightarrow> if length data > 0 then (Some (enqueue_frame data c), [f]) else (Some c, [f])
         | None \<Rightarrow> (Some c, [f]))
   | _ \<Rightarrow> (self, []))"

text \<open>The pair passed to the \<open>Rtp\<close> constructor: the hook and the client's address.\<close>

definition make_recv_callback :: "nat \<Rightarrow> nat option \<times> nat" where
  "make_recv_callback self = (Some 1, self)"

section \<open>Producing PCM\<close>

text \<open>The inner loop: move bytes from the playback queue to \<open>dst[written..]\<close>.\<close>

fun drain :: "nat \<Rightarrow> byte list \<Rightarrow> byte list \<Rightarrow> nat \<times> byte list \<times> byte list" where
  "drain written dst [] = (written, dst, [])"
| "drain written dst (b # q) =
     (if written < length dst then drain (Suc written) (dst[written := b]) q
      else (written, dst, b # q))"

text \<open>Decoding one compressed frame and queueing its PCM bytes.\<close>

definition decode_step :: "'d opus_decoder \<Rightarrow> byte list \<Rightarrow> client \<Rightarrow> 'd \<Rightarrow> client \<times> 'd" where
  "decode_step dec frame c d = (case dec d frame of (ret, out, d') \<Rightarrow>
     let c1 = c\<lparr>pcm_decbuf := overwrite (pcm_decbuf c) out\<rparr>
     in if ret < 0 then (c1, d')
        else (c1\<lparr>playback_queue := playback_queue c1
                @ take (nat ret * 2 * 2) (bytes_of_samples (pcm_decbuf c1))\<rparr>, d'))"

lemma decode_step_queue [simp]: "compressed_queue (fst (decode_step dec f c d)) = compressed_queue c"
  by (simp add: decode_step_def Let_def split: prod.splits)

function fill :: "'d opus_decoder \<Rightarrow> nat \<Rightarrow> byte list \<Rightarrow> client \<Rightarrow> 'd \<Rightarrow> nat \<times> byte list \<times> client \<times> 'd" where
  "fill dec written dst c d =
     (if written < length dst then
        (case drain written dst (playback_queue c) of (written1, dst1, q1) \<Rightarrow>
           let c1 = c\<lparr>playback_queue := q1\<rparr>
           in if written1 = length dst1 then (written1, dst1, c1, d)
              else (case compressed_queue c1 of
                  [] \<Rightarrow> (written1, dst1, c1, d)
                | frame # rest \<Rightarrow>
                    (case decode_step dec frame (c1\<lparr>compressed_queue := rest\<rparr>) d of
                       (c2, d2) \<Rightarrow> fill dec written1 dst1 c2 d2)))
      else (written, dst, c, d))"
  by pat_completeness auto
termination
  by (relation "measure (\<lambda>(dec, written, dst, c, d). length (compressed_queue c))")
    (simp_all add: case_prod_beta)

declare fill.simps [simp del]

text \<open>
  The lambda given to \<open>set_write_callback\<close>. A null \<open>dst\<close> is a buffer of no bytes. The two queue
  accesses per round are critical sections of one mutex; here the callback runs undisturbed,
  and \<open>Client_Threads\<close> has its steps interleaved with \<open>recv_callback\<close>.
\<close>

definition write_cb ::
    "'d opus_decoder \<Rightarrow> byte list \<Rightarrow> client \<times> 'd \<Rightarrow> nat \<times> byte list \<times> client \<times> 'd" where
  "write_cb dec dst = (\<lambda>(c, d).
     if length dst = 0 \<or> should_stop c \<or> \<not> healthy c then (0, dst, c, d)
     else fill dec 0 dst c d)"

section \<open>Construction\<close>

text \<open>
  The retry loop's surroundings: the client under construction, uvgRTP's history, the backend's
  flags, whether the write callback is registered, how often the shutdown flag has been polled,
  and the milliseconds slept.
\<close>

record 'a conn =
  conn_client :: client
  conn_calls :: "uvg_call list"
  conn_audio :: "'a audio_scheme"
  registered :: bool
  polls :: nat
  slept :: nat

text \<open>The backoff: sleeps of 100 ms until \<open>backoff\<close> is reached or a poll sees the shutdown flag.\<close>

function backoff_wait :: "(nat \<Rightarrow> bool) \<Rightarrow> nat \<Rightarrow> nat \<Rightarrow> nat \<Rightarrow> nat \<times> nat" where
  "backoff_wait shut backoff waited k =
     (if waited < backoff then
        (if \<not> shut k then backoff_wait shut backoff (waited + 100) (Suc k) else (waited, Suc k))
      else (waited, k))"
  by pat_completeness auto
termination
  by (relation "measure (\<lambda>(shut, backoff, waited, k). backoff - waited)") auto

declare backoff_wait.simps [simp del]

definition conn_set_error :: "string \<Rightarrow> 'a conn \<Rightarrow> 'a conn" where
  "conn_set_error err s = (case set_error err (conn_client s, conn_audio s) of
     (c, a) \<Rightarrow> s\<lparr>conn_client := c, conn_audio := a\<rparr>)"

definition retries_error :: "nat \<Rightarrow> string \<Rightarrow> string" where
  "retries_error attempt reason =
     ''Failed to initialise RTP after '' @ show_nat attempt @ '' attempts. Reason: '' @ reason"

function connect ::
    "uvg_env \<Rightarrow> (nat \<Rightarrow> bool) \<Rightarrow> socket \<Rightarrow> socket \<Rightarrow> nat \<Rightarrow> nat \<Rightarrow> nat \<Rightarrow> 'a conn
       \<Rightarrow> (rtp_error + unit) \<times> 'a conn" where
  "connect env shut lsock rsock self limit attempt s =
     (if attempt \<le> limit then
        (case new_rtp_receiver env lsock rsock (make_recv_callback self) (conn_calls s) of
           (Inr r, tr) \<Rightarrow>
             (Inr (), s\<lparr>conn_calls := tr, conn_client := (conn_client s)\<lparr>client_rtp := Some r\<rparr>\<rparr>)
         | (Inl (Abort m), tr) \<Rightarrow> (Inl (Abort m), s\<lparr>conn_calls := tr\<rparr>)
         | (Inl (Throw m), tr) \<Rightarrow>
             let s1 = s\<lparr>conn_calls := tr, conn_client := (conn_client s)\<lparr>client_rtp := None\<rparr>\<rparr>
             in if attempt = limit
                then (Inl (Throw (retries_error attempt m)), conn_set_error (retries_error attempt m) s1)
                else (case backoff_wait shut (unat (retry_backoff_ms (conn_pol (conn_client s1)))) 0 (polls s1) of
                    (waited, k) \<Rightarrow>
                      let s2 = s1\<lparr>slept := slept s1 + waited, polls := Suc k\<rparr>
                      in if shut k
                         then (Inl (Throw ''Shutdown requested.''),
                               conn_set_error ''Shutdown requested during RTP connection backoff.'' s2)
                         else connect env shut lsock rsock self limit (Suc attempt) s2))
      else (Inr (), s))"
  by pat_completeness auto
termination
  by (relation "measure (\<lambda>(env, shut, l, r, self, limit, attempt, s). Suc limit - attempt)") auto

declare connect.simps [simp del]

definition client_init :: "connection_policy \<Rightarrow> client" where
  "client_init pol = \<lparr>should_stop = False, healthy = True, frames_received = 0, last_error = [],
     pcm_decbuf = [], playback_queue = [], compressed_queue = [], client_rtp = None,
     conn_pol = pol, decoder_open = False, thread_started = False\<rparr>"

text \<open>
  The constructor. \<open>opus_error\<close> is what \<open>opus_decoder_create\<close> reports (0 is \<open>OPUS_OK\<close>) and
  \<open>opus_strerror\<close> its text; \<open>self\<close> is the address of the object.
\<close>

definition new_client ::
    "uvg_env \<Rightarrow> (nat \<Rightarrow> bool) \<Rightarrow> int \<Rightarrow> (int \<Rightarrow> string) \<Rightarrow> nat \<Rightarrow> socket \<Rightarrow> socket \<Rightarrow> connection_policy
       \<Rightarrow> uvg_call list \<Rightarrow> 'a audio_scheme \<Rightarrow> nat \<Rightarrow> (rtp_error + unit) \<times> 'a conn" where
  "new_client env shut opus_error opus_strerror self lsock rsock pol tr a k =
     (let s = \<lparr>conn_client = client_init pol, conn_calls = tr, conn_audio = a, registered = False,
              polls = k, slept = 0\<rparr>
      in if opus_error \<noteq> 0
         then let msg = ''Failed to create opus decoder. Reason: '' @ opus_strerror opus_error
              in (Inl (Throw msg), conn_set_error msg s)
         else
           let s1 = s\<lparr>conn_client := (conn_client s)\<lparr>decoder_open := True,
                        pcm_decbuf := replicate pcm_decbuf_size 0\<rparr>, registered := True\<rparr>
           in (case connect env shut lsock rsock self (unat (max_retries pol)) 1 s1 of
                 (Inl e, s2) \<Rightarrow> (Inl e, s2)
               | (Inr u, s2) \<Rightarrow>
                   (Inr u, s2\<lparr>conn_client := (conn_client s2)\<lparr>thread_started := True\<rparr>\<rparr>)))"


section \<open>The stream of PCM a client still has to deliver\<close>

text \<open>The abstract view of the write callback: queued PCM followed by what the queued frames
  decode to, one after the other.\<close>

fun pcm_stream :: "'d opus_decoder \<Rightarrow> sample list \<Rightarrow> 'd \<Rightarrow> byte list list \<Rightarrow> byte list" where
  "pcm_stream dec buf d [] = []"
| "pcm_stream dec buf d (f # fs) = (case dec d f of (ret, out, d') \<Rightarrow>
     (if ret < 0 then [] else take (nat ret * 2 * 2) (bytes_of_samples (overwrite buf out)))
     @ pcm_stream dec (overwrite buf out) d' fs)"

text \<open>The PCM buffer and the decoder after a run of frames.\<close>

fun decode_run :: "'d opus_decoder \<Rightarrow> sample list \<Rightarrow> 'd \<Rightarrow> byte list list \<Rightarrow> sample list \<times> 'd" where
  "decode_run dec buf d [] = (buf, d)"
| "decode_run dec buf d (f # fs) = (case dec d f of (ret, out, d') \<Rightarrow> decode_run dec (overwrite buf out) d' fs)"

lemma pcm_stream_append:
  "pcm_stream dec buf d (xs @ ys) =
     pcm_stream dec buf d xs @ (case decode_run dec buf d xs of (buf1, d1) \<Rightarrow> pcm_stream dec buf1 d1 ys)"
  by (induction xs arbitrary: buf d) (auto split: prod.splits)

definition remaining :: "'d opus_decoder \<Rightarrow> client \<Rightarrow> 'd \<Rightarrow> byte list" where
  "remaining dec c d = playback_queue c @ pcm_stream dec (pcm_decbuf c) d (compressed_queue c)"

text \<open>Fields a write callback does not touch.\<close>

definition pcm_frame :: "client \<Rightarrow> client \<Rightarrow> bool" where
  "pcm_frame c c' \<longleftrightarrow> (\<exists>buf pq cq. length buf = length (pcm_decbuf c) \<and>
     c' = c\<lparr>pcm_decbuf := buf, playback_queue := pq, compressed_queue := cq\<rparr>)"

lemma pcm_frame_refl [simp]: "pcm_frame c c"
  unfolding pcm_frame_def
  by (intro exI [of _ "pcm_decbuf c"] exI [of _ "playback_queue c"] exI [of _ "compressed_queue c"]) simp

lemma pcm_frame_queue [simp]: "pcm_frame c (c\<lparr>playback_queue := q\<rparr>)"
  unfolding pcm_frame_def
  by (intro exI [of _ "pcm_decbuf c"] exI [of _ q] exI [of _ "compressed_queue c"]) simp

lemma pcm_frame_trans: "pcm_frame a b \<Longrightarrow> pcm_frame b c \<Longrightarrow> pcm_frame a c"
  by (auto simp: pcm_frame_def) (metis client.surjective client.update_convs(5-7))

lemma pcm_frame_fields:
  assumes "pcm_frame c c'"
  shows "should_stop c' = should_stop c" "healthy c' = healthy c"
    "frames_received c' = frames_received c" "client_rtp c' = client_rtp c"
    "length (pcm_decbuf c') = length (pcm_decbuf c)"
  using assms by (auto simp: pcm_frame_def)

lemma drain_eq:
  "w \<le> length dst \<Longrightarrow> drain w dst q =
     (min (length dst) (w + length q),
      take w dst @ take (length dst - w) q @ drop (w + length q) dst,
      drop (length dst - w) q)"
proof (induction q arbitrary: w dst)
  case (Cons b q)
  show ?case
  proof (cases "w < length dst")
    case True
    then have *: "take (Suc w) (dst[w := b]) = take w dst @ [b]"
      by (simp add: take_Suc_conv_app_nth)
    from True have "length dst - w = Suc (length dst - Suc w)" by simp
    with True Cons.IH [of "Suc w" "dst[w := b]"] show ?thesis
      by (simp add: *)
  qed (use Cons.prems in simp)
qed simp

lemma decode_step_remaining:
  assumes "decode_step dec f c d = (c', d')"
  shows "remaining dec c' d' =
      playback_queue c @ pcm_stream dec (pcm_decbuf c) d (f # compressed_queue c)"
    and "pcm_frame c c'"
    and "compressed_queue c' = compressed_queue c"
proof -
  obtain ret out d1 where dec: "dec d f = (ret, out, d1)" by (cases "dec d f")
  show "remaining dec c' d' = playback_queue c @ pcm_stream dec (pcm_decbuf c) d (f # compressed_queue c)"
    and "compressed_queue c' = compressed_queue c"
    using assms by (auto simp: decode_step_def dec Let_def remaining_def split: if_splits)
  show "pcm_frame c c'"
    unfolding pcm_frame_def
    by (rule exI [of _ "pcm_decbuf c'"], rule exI [of _ "playback_queue c'"], rule exI [of _ "compressed_queue c"])
       (use assms in \<open>auto simp: decode_step_def dec Let_def split: if_splits\<close>)
qed

lemma fill_spec:
  assumes "w \<le> length dst" and "fill dec w dst c d = (n, dst', c', d')"
  shows "n = min (length dst) (w + length (remaining dec c d)) \<and>
    dst' = take w dst @ take (length dst - w) (remaining dec c d) @ drop (w + length (remaining dec c d)) dst \<and>
    remaining dec c' d' = drop (length dst - w) (remaining dec c d) \<and> pcm_frame c c'"
  using assms
proof (induction dec w dst c d arbitrary: n dst' c' d' rule: fill.induct)
  case (1 dec w dst c d)
  let ?q = "playback_queue c" and ?len = "length dst"
  consider "\<not> w < ?len" | "w < ?len" "?len - w \<le> length ?q"
    | "w < ?len" "length ?q < ?len - w" "compressed_queue c = []"
    | f rest where "w < ?len" "length ?q < ?len - w" "compressed_queue c = f # rest"
    by (cases "compressed_queue c") (meson leI)+
  then show ?case
  proof cases
    case 1
    with "1.prems" show ?thesis by (auto simp: fill.simps [of dec "length dst" dst c d])
  next
    case 2
    with "1.prems" show ?thesis
      by (auto simp: fill.simps [of dec w dst c d] drain_eq remaining_def Let_def)
  next
    case 3
    with "1.prems" show ?thesis
      by (auto simp: fill.simps [of dec w dst c d] drain_eq remaining_def Let_def split: if_splits)
  next
    case (4 f rest)
    let ?c1 = "c\<lparr>playback_queue := []\<rparr>"
    let ?dst1 = "take w dst @ ?q @ drop (w + length ?q) dst"
    have drained: "drain w dst ?q = (w + length ?q, ?dst1, [])"
      using 4 by (simp add: drain_eq)
    have len1: "length ?dst1 = ?len" using 4 by simp
    have neq: "w + length ?q \<noteq> ?len" using 4 by simp
    obtain c2 d2 where step: "decode_step dec f (?c1\<lparr>compressed_queue := rest\<rparr>) d = (c2, d2)"
      by fastforce
    note dec = decode_step_remaining [OF step]
    have rem: "remaining dec c d = ?q @ remaining dec c2 d2"
      using dec(1) 4 by (simp add: remaining_def)
    have run: "fill dec (w + length ?q) ?dst1 c2 d2 = (n, dst', c', d')"
      using "1.prems"(2) 4(1,3) len1 neq
      by (simp add: fill.simps [of dec w dst c d] drained step Let_def)
    have le: "w + length ?q \<le> length ?dst1" using len1 4 by simp
    have "n = min (length ?dst1) (w + length ?q + length (remaining dec c2 d2)) \<and>
        dst' = take (w + length ?q) ?dst1 @ take (length ?dst1 - (w + length ?q)) (remaining dec c2 d2)
               @ drop (w + length ?q + length (remaining dec c2 d2)) ?dst1 \<and>
        remaining dec c' d' = drop (length ?dst1 - (w + length ?q)) (remaining dec c2 d2) \<and> pcm_frame c2 c'"
      by (rule "1.IH" [OF 4(1) drained [symmetric] refl refl _ _ step [symmetric] le run])
        (use 4 len1 in auto)
    moreover have "pcm_frame c c2"
    proof -
      have "pcm_frame c (?c1\<lparr>compressed_queue := rest\<rparr>)"
        unfolding pcm_frame_def
        by (intro exI [of _ "pcm_decbuf c"] exI [of _ "[]"] exI [of _ rest]) simp
      then show ?thesis using dec(2) by (rule pcm_frame_trans)
    qed
    ultimately show ?thesis
      using 4 len1 by (auto simp: rem ac_simps intro: pcm_frame_trans)
  qed
qed


lemma write_cb_spec:
  assumes "write_cb dec dst (c, d) = (n, dst', c', d')"
  shows "n \<le> length dst \<and> length dst' = length dst \<and> drop n dst' = drop n dst \<and> pcm_frame c c'"
proof (cases "length dst = 0 \<or> should_stop c \<or> \<not> healthy c")
  case True
  with assms show ?thesis by (auto simp: write_cb_def)
next
  case False
  with assms have "fill dec 0 dst c d = (n, dst', c', d')" by (auto simp: write_cb_def)
  from fill_spec [OF _ this] show ?thesis
    by (cases "length (remaining dec c d) \<le> length dst") auto
qed

lemma write_cb_remaining:
  assumes "write_cb dec dst (c, d) = (n, dst', c', d')" and "\<not> should_stop c" and "healthy c"
  shows "n = min (length dst) (length (remaining dec c d)) \<and>
         take n dst' = take (length dst) (remaining dec c d) \<and>
         remaining dec c' d' = drop (length dst) (remaining dec c d)"
proof (cases "length dst = 0")
  case True
  with assms show ?thesis by (auto simp: write_cb_def)
next
  case False
  with assms have "fill dec 0 dst c d = (n, dst', c', d')" by (auto simp: write_cb_def)
  from fill_spec [OF _ this] show ?thesis
    by (cases "length (remaining dec c d) \<le> length dst") auto
qed

text \<open>The callback takes frames off the queue only to decode them, one after the other.\<close>

text \<open>What a write callback decodes is the front of the frame queue.\<close>

lemma fill_takes_frames:
  "fill dec w dst c d = (n, dst', c', d') \<Longrightarrow> w \<le> length dst \<Longrightarrow>
     \<exists>fs. compressed_queue c = fs @ compressed_queue c' \<and> decode_run dec (pcm_decbuf c) d fs = (pcm_decbuf c', d') \<and>
       w \<le> n \<and> take w dst' = take w dst \<and> drop w (take n dst') @ playback_queue c' = playback_queue c @ pcm_stream dec (pcm_decbuf c) d fs"
proof (induction dec w dst c d arbitrary: n dst' c' d' rule: fill.induct)
  case (1 dec w dst c d)
  show ?case
  proof (cases "w < length dst")
    case False
    with "1.prems" show ?thesis by (auto simp: fill.simps [of dec w dst c d])
  next
    case True
    obtain w1 dst1 q1 where dr: "drain w dst (playback_queue c) = (w1, dst1, q1)" by (metis surj_pair)
    have d1: "w1 = min (length dst) (w + length (playback_queue c))" "length dst1 = length dst" "w \<le> w1" "w1 \<le> length dst1"
      "take w dst1 = take w dst" "drop w (take w1 dst1) @ q1 = playback_queue c"
      using dr True by (auto simp: drain_eq min_def not_le)
    show ?thesis
    proof (cases "w1 \<noteq> length dst1 \<and> compressed_queue c \<noteq> []")
      case False
      with "1.prems" True have "n = w1" "dst' = dst1" "c' = c\<lparr>playback_queue := q1\<rparr>" "d' = d"
        by (auto simp: fill.simps [of dec w dst c d] dr Let_def split: if_splits list.splits)
      with d1 show ?thesis by (intro exI [of _ "[]"]) simp
    next
      case more: True
      then obtain f rest where q: "compressed_queue c = f # rest" by (cases "compressed_queue c") auto
      have empty: "q1 = []" using d1 more True dr by (auto simp: drain_eq min_def split: if_splits)
      let ?c1 = "c\<lparr>playback_queue := q1\<rparr>"
      obtain c2 d2 where step: "decode_step dec f (?c1\<lparr>compressed_queue := rest\<rparr>) d = (c2, d2)" by fastforce
      have run: "fill dec w1 dst1 c2 d2 = (n, dst', c', d')"
        using "1.prems"(1) True more q step by (simp add: fill.simps [of dec w dst c d] dr Let_def)
      have "compressed_queue c2 = rest" using step decode_step_queue [of dec f "?c1\<lparr>compressed_queue := rest\<rparr>" d] by simp
      obtain ret out d3 where de: "dec d f = (ret, out, d3)" by (cases "dec d f")
      have c2: "d2 = d3" "pcm_decbuf c2 = overwrite (pcm_decbuf c) out"
        "playback_queue c2 = (if ret < 0 then [] else take (nat ret * 2 * 2) (bytes_of_samples (overwrite (pcm_decbuf c) out)))"
        using step empty by (auto simp: decode_step_def de Let_def split: if_splits)
      have "w1 \<noteq> length dst1" "compressed_queue ?c1 = f # rest" using more q by simp_all
      from "1.IH" [OF True dr [symmetric] refl refl this step [symmetric] run d1(4)]
      obtain fs where fs: "rest = fs @ compressed_queue c'" "decode_run dec (pcm_decbuf c2) d2 fs = (pcm_decbuf c', d')"
        "w1 \<le> n" "take w1 dst' = take w1 dst1" "drop w1 (take n dst') @ playback_queue c' = playback_queue c2 @ pcm_stream dec (pcm_decbuf c2) d2 fs"
        using \<open>compressed_queue c2 = rest\<close> by auto
      have "take w dst' = take w dst" using fs(4) d1(3,5) by (metis min.absorb2 take_take min.commute)
      moreover have "drop w (take n dst') = drop w (take w1 dst1) @ drop w1 (take n dst')"
      proof -
        have "take n dst' = take w1 dst1 @ drop w1 (take n dst')"
          using fs(3,4) by (metis append_take_drop_id min.absorb1 take_take)
        then show ?thesis using d1(3,4) by (metis (no_types, lifting) diff_is_0_eq' drop_0 drop_append length_take min.absorb2)
      qed
      ultimately show ?thesis
        using fs d1 q empty c2 de by (intro exI [of _ "f # fs"]) auto
    qed
  qed
qed

lemma write_cb_takes_frames:
  assumes "write_cb dec dst (c, d) = (n, dst', c', d')"
  shows "\<exists>fs. compressed_queue c = fs @ compressed_queue c' \<and> decode_run dec (pcm_decbuf c) d fs = (pcm_decbuf c', d') \<and>
    take n dst' @ playback_queue c' = playback_queue c @ pcm_stream dec (pcm_decbuf c) d fs"
proof (cases "length dst = 0 \<or> should_stop c \<or> \<not> healthy c")
  case True
  with assms show ?thesis by (intro exI [of _ "[]"]) (auto simp: write_cb_def)
next
  case False
  with assms have "fill dec 0 dst c d = (n, dst', c', d')" by (auto simp: write_cb_def)
  from fill_takes_frames [OF this] show ?thesis by simp
qed

section \<open>Contracts the client provides\<close>

interpretation client_pcm: pcm_source "write_cb dec" for dec :: "'d opus_decoder"
proof unfold_locales
  fix dst n dst' and s s' :: "client \<times> 'd"
  assume cb: "write_cb dec dst s = (n, dst', s')"
  obtain c d c' d' where s: "s = (c, d)" "s' = (c', d')" by (cases s, cases s')
  note spec = write_cb_spec [OF cb [unfolded s]]
  show "n \<le> length dst" "length dst' = length dst" "drop n dst' = drop n dst" using spec by auto
qed

interpretation client_queue: bounded_fifo enqueue_frame compressed_queue max_compressed_queue_frames
  by unfold_locales (auto simp: enqueue_frame_def max_compressed_queue_frames_def Let_def)

interpretation client_health: latch "set_error err" "\<lambda>p. \<not> healthy (fst p)" for err
  by unfold_locales (auto simp: set_error_def split: prod.splits)

interpretation client_stop: latch client_request_shutdown
    "\<lambda>p :: client \<times> uvg_call list \<times> audio. should_stop (fst p) \<and> stop_recording (snd (snd p)) = snd (snd p) \<and>
       (case client_rtp (fst p) of None \<Rightarrow> True | Some r \<Rightarrow> is_stopped r)"
proof unfold_locales
  fix p :: "client \<times> uvg_call list \<times> audio"
  obtain c tr a where p: "p = (c, tr, a)" by (cases p)
  show "should_stop (fst (client_request_shutdown p)) \<and>
      stop_recording (snd (snd (client_request_shutdown p))) = snd (snd (client_request_shutdown p)) \<and>
      (case client_rtp (fst (client_request_shutdown p)) of None \<Rightarrow> True | Some r \<Rightarrow> is_stopped r)"
  proof (cases "client_rtp c")
    case (Some r)
    then show ?thesis
      using stop_stopped [of "(r, tr)"]
      by (auto simp: p client_request_shutdown_def is_stopped_def split: prod.splits)
  qed (simp add: p client_request_shutdown_def)
  assume "should_stop (fst p) \<and> stop_recording (snd (snd p)) = snd (snd p) \<and>
       (case client_rtp (fst p) of None \<Rightarrow> True | Some r \<Rightarrow> is_stopped r)"
  then show "client_request_shutdown p = p"
    using stop_again [of "(the (client_rtp c), tr)"]
    by (auto simp: p client_request_shutdown_def is_stopped_def split: option.splits prod.splits)
qed

end
