(* ===== verification/Client_Facts.thy ===== *)
theory Client_Facts
  imports Client
begin

text \<open>
  Properties of \<open>src/client.cpp\<close> operation by operation: the write callback against the abstract
  PCM stream, the frame queue, the health latch, shutdown, and the retry loop of the constructor.
\<close>

section \<open>The write callback\<close>

text \<open>A toy decoder for the witnesses: payload byte \<open>b\<close> decodes to one stereo sample pair \<open>(b, b)\<close>;
  an empty payload is an error. Its state counts the calls.\<close>

definition toy_decoder :: "nat opus_decoder" where
  "toy_decoder d f = (if f = [] then (- 4, [], Suc d)
     else (int (length f), concat (map (\<lambda>b. [ucast b, ucast b]) f), Suc d))"

definition toy_client :: client where
  "toy_client = (client_init default_policy)\<lparr>pcm_decbuf := [0, 0, 0, 0],
     playback_queue := [9], compressed_queue := [[1], [], [2]]\<rparr>"

text \<open>C4. The write callback refines the abstract stream. Unless the client is stopped or unhealthy
  it copies as many bytes as fit of what is still to be delivered (the queued PCM, then the
  decoded queued frames, frames that fail to decode contributing nothing) to the start of the
  buffer, returns their number, leaves the rest of the buffer alone, and keeps exactly the
  undelivered rest: no byte is lost, repeated or reordered. Otherwise it delivers nothing and
  changes nothing.\<close>

theorem write_cb_delivers:
  assumes "write_cb dec dst (c, d) = (n, dst', c', d')"
  shows "if should_stop c \<or> \<not> healthy c then n = 0 \<and> dst' = dst \<and> c' = c \<and> d' = d
         else n = min (length dst) (length (remaining dec c d)) \<and>
              dst' = take n (remaining dec c d) @ drop n dst \<and>
              remaining dec c' d' = drop n (remaining dec c d)"
proof (cases "should_stop c \<or> \<not> healthy c")
  case True
  with assms show ?thesis by (auto simp: write_cb_def)
next
  case False
  then have "\<not> should_stop c" "healthy c" by auto
  note rem = write_cb_remaining [OF assms this] and frame = write_cb_spec [OF assms]
  from rem have "take n dst' = take n (remaining dec c d)" and "remaining dec c' d' = drop n (remaining dec c d)"
    by (auto simp: min_def)
  moreover from frame have "dst' = take n dst' @ drop n dst" by (metis append_take_drop_id)
  ultimately show ?thesis using False rem by auto
qed

theorem write_cb_delivers_witness:
  "\<exists>n dst' c' d'. write_cb toy_decoder (replicate 7 0) (toy_client, 0) = (n, dst', c', d') \<and>
     dst' = [9, 1, 0, 1, 0, 2, 0] \<and> remaining toy_decoder c' d' = [2, 0]"
proof -
  obtain n dst' c' d' where w: "write_cb toy_decoder (replicate 7 0) (toy_client, 0) = (n, dst', c', d')"
    by (metis surj_pair)
  have rem: "remaining toy_decoder toy_client 0 = [9, 1, 0, 1, 0, 2, 0, 2, 0]"
    by (simp add: remaining_def toy_client_def toy_decoder_def client_init_def overwrite_def
        bytes_of_samples_def sample_bytes_def)
  have "\<not> should_stop toy_client \<and> healthy toy_client"
    by (simp add: toy_client_def client_init_def)
  with write_cb_delivers [OF w] have "n = 7 \<and> dst' = [9, 1, 0, 1, 0, 2, 0] \<and> remaining toy_decoder c' d' = [2, 0]"
    by (simp add: rem)
  with w show ?thesis by blast
qed

text \<open>What libopus documents of \<open>opus_decode\<close> with a frame size of 960: it returns an error or the
  number of samples per channel it stored, at most 960.\<close>

definition opus_decode_contract :: "'d opus_decoder \<Rightarrow> bool" where
  "opus_decode_contract dec \<longleftrightarrow> (\<forall>d f ret out d'. dec d f = (ret, out, d') \<longrightarrow>
     ret \<le> 960 \<and> length out \<le> 960 * 2 \<and> (0 \<le> ret \<longrightarrow> length out = nat ret * 2))"



section \<open>The frame queue\<close>

text \<open>The callback invoked for each frame of a list: the client and all frames handed back.\<close>

fun recv_all :: "rtp_frame list \<Rightarrow> client \<Rightarrow> client \<times> rtp_frame list" where
  "recv_all [] c = (c, [])"
| "recv_all (f # fs) c = (case recv_callback (Some f) (Some c) of
     (c', freed) \<Rightarrow> (case recv_all fs (the c') of (c'', freed') \<Rightarrow> (c'', freed @ freed')))"

definition payloads :: "rtp_frame list \<Rightarrow> byte list list" where
  "payloads fs = filter (\<lambda>d. d \<noteq> []) (List.map_filter payload fs)"

lemma payloads_simps [simp]:
  "payloads [] = []"
  "payloads (f # fs) = (case payload f of None \<Rightarrow> payloads fs
     | Some d \<Rightarrow> if d = [] then payloads fs else d # payloads fs)"
  by (simp_all add: payloads_def List.map_filter_def split: option.splits)

lemma recv_callback_live:
  "\<not> should_stop c \<Longrightarrow> healthy c \<Longrightarrow> recv_callback (Some f) (Some c) =
     (Some (case payload f of None \<Rightarrow> c | Some d \<Rightarrow> if d = [] then c else enqueue_frame d c), [f])"
  by (simp add: recv_callback_def split: option.splits)

lemma enqueue_frame_fields [simp]:
  "should_stop (enqueue_frame d c) = should_stop c" "healthy (enqueue_frame d c) = healthy c"
  "frames_received (enqueue_frame d c) = frames_received c + 1"
  "playback_queue (enqueue_frame d c) = playback_queue c"
  "pcm_decbuf (enqueue_frame d c) = pcm_decbuf c"
  by (simp_all add: enqueue_frame_def Let_def)

lemma subseq_drop_middle: "subseq (xs @ y # ys) zs \<Longrightarrow> subseq (xs @ ys) zs"
  by (meson list_emb_append_mono subseq_Cons' subseq_order.order_refl subseq_order.order_trans)

text \<open>Queueing a frame, with the oldest one dropped from a full queue, keeps the order of arrival.\<close>

lemma enqueue_subseq:
  assumes "subseq (xs @ compressed_queue c) zs"
  shows "subseq (xs @ compressed_queue (enqueue_frame data c)) (zs @ [data])"
proof (cases "length (compressed_queue c) \<ge> max_compressed_queue_frames")
  case True
  then obtain y ys where q: "compressed_queue c = y # ys"
    by (cases "compressed_queue c") (auto simp: max_compressed_queue_frames_def)
  with assms have "subseq (xs @ ys) zs" by (metis subseq_drop_middle)
  then have "subseq ((xs @ ys) @ [data]) (zs @ [data])" by (rule list_emb_append_mono) simp
  with True q show ?thesis by (simp add: enqueue_frame_def Let_def)
next
  case False
  from assms have "subseq ((xs @ compressed_queue c) @ [data]) (zs @ [data])"
    by (rule list_emb_append_mono) simp
  with False show ?thesis by (simp add: enqueue_frame_def Let_def)
qed

lemma enqueue_all_frames_received:
  "frames_received (fold enqueue_frame ds c) = frames_received c + of_nat (length ds)"
  by (induction ds arbitrary: c) simp_all

lemma recv_all_live:
  "\<not> should_stop c \<Longrightarrow> healthy c \<Longrightarrow> recv_all fs c = (fold enqueue_frame (payloads fs) c, fs)"
  by (induction fs arbitrary: c) (simp_all add: recv_callback_live split: option.splits)

text \<open>C21. Receiving. For a running client the queue of compressed frames holds, after any number of
  callbacks, the newest 256 non-empty payloads in order of arrival (older ones are dropped first),
  the counter has grown by the number of non-empty payloads (modulo 2^64), and every frame has been
  handed back to uvgRTP exactly once, empty or not.\<close>

theorem recv_keeps_newest:
  assumes "\<not> should_stop c" and "healthy c" and "length (compressed_queue c) \<le> 256"
    and "recv_all fs c = (c', freed)"
  shows "compressed_queue c' =
           (let all = compressed_queue c @ payloads fs in drop (length all - 256) all) \<and>
         frames_received c' = frames_received c + of_nat (length (payloads fs)) \<and> freed = fs"
  using client_queue.push_all_elems [of c "payloads fs"] assms
  by (auto simp: recv_all_live enqueue_all_frames_received max_compressed_queue_frames_def)

theorem recv_keeps_newest_witness:
  "\<exists>c' freed. recv_all (replicate 300 \<lparr>payload = Some [1], dgram_size = 13\<rparr>) (client_init default_policy) = (c', freed) \<and>
     length (compressed_queue c') = 256 \<and> frames_received c' = 300 \<and> length freed = 300"
proof -
  let ?f = "\<lparr>payload = Some [1 :: byte], dgram_size = 13\<rparr>"
  obtain c' freed where run: "recv_all (replicate 300 ?f) (client_init default_policy) = (c', freed)"
    by (metis surj_pair)
  have "payloads (replicate n ?f) = replicate n [1]" for n by (induction n) simp_all
  with recv_keeps_newest [OF _ _ _ run] run show ?thesis
    by (auto simp: client_init_def)
qed

section \<open>Errors and shutdown\<close>

text \<open>The first error wins. Reporting an error on a healthy client records its text, makes the
  client unhealthy and stopped and clears the backend's run flags; every later error, whatever
  its text, changes nothing.\<close>

theorem first_error_sticks:
  assumes "healthy c" and "set_error e1 (c, a) = (c1, a1)"
  shows "last_error c1 = e1 \<and> \<not> is_healthy c1 \<and> should_stop c1 \<and> \<not> recording a1 \<and> \<not> playback a1 \<and>
         fold (\<lambda>e. set_error e) es (c1, a1) = (c1, a1)"
proof -
  from assms have c1: "\<not> healthy (fst (c1, a1))" by (auto simp: set_error_def)
  have "fold (\<lambda>e. set_error e) es (c1, a1) = (c1, a1)"
    by (induction es) (simp_all add: client_health.trip_absorbed [OF c1])
  with assms show ?thesis by (auto simp: set_error_def is_healthy_def)
qed

theorem first_error_sticks_witness:
  "\<exists>c1 a1. set_error ''boom'' (client_init default_policy, \<lparr>recording = True, playback = True\<rparr>) = (c1, a1) \<and>
     fold (\<lambda>e. set_error e) [''later'', ''last''] (c1, a1) = (c1, a1) \<and> last_error c1 = ''boom''"
proof -
  obtain c1 a1 where e: "set_error ''boom'' (client_init default_policy, \<lparr>recording = True, playback = True\<rparr>) = (c1, a1)"
    by (metis surj_pair)
  from first_error_sticks [OF _ e, of "[''later'', ''last'']"] e show ?thesis
    by (simp add: client_init_def)
qed

lemma recv_all_stopped: "should_stop c \<Longrightarrow> recv_all fs c = (c, fs)"
  by (induction fs) (simp_all add: recv_callback_def)

text \<open>After \<open>request_shutdown\<close> the client is quiet: frames that still arrive are handed back
  without being queued or counted, the write callback delivers nothing and does not touch the
  decoder, the RTP object is stopped, the backend's run flags are clear, and asking again changes
  nothing.\<close>

theorem shutdown_quiesces:
  assumes "client_request_shutdown (c, tr, a) = (c1, tr1, a1)"
  shows "recv_all fs c1 = (c1, fs) \<and> write_cb dec dst (c1, d) = (0, dst, c1, d) \<and>
         (\<forall>r. get_rtp c1 = Some r \<longrightarrow> is_stopped r \<and> \<not> is_initialised r) \<and>
         \<not> recording (a1 :: audio) \<and> \<not> playback a1 \<and>
         client_request_shutdown (c1, tr1, a1) = (c1, tr1, a1)"
proof -
  have trip: "should_stop c1 \<and> stop_recording a1 = a1 \<and>
      (case client_rtp c1 of None \<Rightarrow> True | Some r \<Rightarrow> is_stopped r)"
    using client_stop.tripped_trip [of "(c, tr, a)"] by (simp add: assms)
  moreover have "client_request_shutdown (c1, tr1, a1) = (c1, tr1, a1)"
    using client_stop.trip_idem [of "(c, tr, a)"] by (simp add: assms)
  moreover have "\<not> recording a1 \<and> \<not> playback a1"
    using trip stop_recording_flags [of a1] by metis
  ultimately show ?thesis
    by (auto simp: recv_all_stopped write_cb_def get_rtp_def is_initialised_def is_stopped_def)
qed

theorem shutdown_quiesces_witness:
  "\<exists>c1 tr1 a1. client_request_shutdown (toy_client\<lparr>client_rtp := Some sample_sender\<rparr>, [],
       \<lparr>recording = True, playback = True\<rparr>) = (c1, tr1, a1) \<and>
     recv_all [\<lparr>payload = Some [1], dgram_size = 13\<rparr>] c1 = (c1, [\<lparr>payload = Some [1], dgram_size = 13\<rparr>]) \<and>
     write_cb toy_decoder [0, 0] (c1, 0) = (0, [0, 0], c1, 0)"
proof -
  obtain c1 tr1 a1 where q: "client_request_shutdown (toy_client\<lparr>client_rtp := Some sample_sender\<rparr>, [],
       \<lparr>recording = True, playback = True\<rparr>) = (c1, tr1, a1)"
    by (metis surj_pair)
  with shutdown_quiesces [OF q, of "[\<lparr>payload = Some [1], dgram_size = 13\<rparr>]" toy_decoder "[0, 0]" 0]
  show ?thesis by blast
qed


section \<open>The retry loop\<close>

text \<open>How many sleeps of 100 ms a backoff takes when nothing interrupts it.\<close>

definition backoff_steps :: "nat \<Rightarrow> nat" where
  "backoff_steps backoff = (backoff + 99) div 100"

lemma backoff_steps_less: "j < backoff_steps b \<longleftrightarrow> 100 * j < b"
  by (auto simp: backoff_steps_def)

lemma backoff_wait_from:
  assumes "i \<le> j" and "\<And>m. i \<le> m \<Longrightarrow> m < j \<Longrightarrow> \<not> shut (k + m)"
    and "j \<le> backoff_steps b" and "j = backoff_steps b \<or> shut (k + j)"
  shows "backoff_wait shut b (100 * i) (k + i) =
           (100 * j, if j = backoff_steps b then k + j else Suc (k + j))"
  using assms
proof (induction "j - i" arbitrary: i)
  case 0
  then have [simp]: "i = j" by simp
  show ?case
    using 0 backoff_steps_less [of j b]
    by (auto simp: backoff_wait.simps [of shut b "100 * j"])
next
  case (Suc n)
  then have lt: "i < j" by simp
  with Suc.prems have "100 * i < b" using backoff_steps_less [of i b] by simp
  moreover have "\<not> shut (k + i)" using Suc.prems(2) [of i] lt by simp
  moreover have "backoff_wait shut b (100 * Suc i) (k + Suc i) =
      (100 * j, if j = backoff_steps b then k + j else Suc (k + j))"
    using Suc lt by (intro Suc.hyps(1)) auto
  ultimately show ?case
    by (subst backoff_wait.simps) (simp add: add.commute)
qed

text \<open>A backoff sleeps in steps of 100 ms until the configured time is covered or the first
  poll that sees the shutdown flag, whichever comes first; so it never overshoots the
  configured time by 100 ms or more, and a request for shutdown is noticed within one step.\<close>

theorem backoff_wait_exact:
  assumes "j \<le> backoff_steps b" and "\<And>m. m < j \<Longrightarrow> \<not> shut (k + m)"
    and "j = backoff_steps b \<or> shut (k + j)"
  shows "backoff_wait shut b 0 k = (100 * j, if j = backoff_steps b then k + j else Suc (k + j)) \<and>
         100 * j < b + 100"
proof -
  have "100 * backoff_steps b < b + 100" by (simp add: backoff_steps_def)
  with assms(1) show ?thesis
    using backoff_wait_from [of 0 j shut k b] assms by auto
qed

theorem backoff_wait_exact_witness:
  "backoff_wait (\<lambda>n. n \<ge> 7) 2000 0 4 = (300, 8) \<and> backoff_wait (\<lambda>n. False) 2050 0 4 = (2100, 25)"
  using backoff_wait_exact [of 3 2000 "\<lambda>n. n \<ge> 7" 4] backoff_wait_exact [of 21 2050 "\<lambda>n. False" 4]
  by (simp add: backoff_steps_def)

text \<open>Every attempt to construct the receiver throws.\<close>

definition always_throws :: "uvg_env \<Rightarrow> socket \<Rightarrow> socket \<Rightarrow> nat \<Rightarrow> bool" where
  "always_throws env l r self \<longleftrightarrow>
     (\<forall>tr. \<exists>m tr'. new_rtp_receiver env l r (make_recv_callback self) tr = (Inl (Throw m), tr'))"

lemma conn_set_error_simps [simp]:
  "conn_calls (conn_set_error e s) = conn_calls s" "slept (conn_set_error e s) = slept s"
  "polls (conn_set_error e s) = polls s" "registered (conn_set_error e s) = registered s"
  by (simp_all add: conn_set_error_def split: prod.splits)

lemma conn_set_error_client:
  "healthy (conn_client s) \<Longrightarrow> conn_client (conn_set_error e s) =
     (conn_client s)\<lparr>healthy := False, last_error := e, should_stop := True\<rparr> \<and>
   conn_audio (conn_set_error e s) = stop_recording (conn_audio s)"
  by (simp add: conn_set_error_def set_error_def)

text \<open>What each single step of the retry loop keeps, the loop keeps.\<close>

lemma connect_invariant:
  assumes "connect env shut l r self limit attempt s = (res, s')" and "P s"
    and calls: "\<And>s tr. P s \<Longrightarrow> P (s\<lparr>conn_calls := tr\<rparr>)"
    and emplace: "\<And>s x. P s \<Longrightarrow> P (s\<lparr>conn_client := (conn_client s)\<lparr>client_rtp := x\<rparr>\<rparr>)"
    and err: "\<And>s e. P s \<Longrightarrow> P (conn_set_error e s)"
    and waits: "\<And>s w k. P s \<Longrightarrow> P (s\<lparr>slept := w, polls := k\<rparr>)"
  shows "P s'"
  using assms(1,2)
proof (induction "Suc limit - attempt" arbitrary: attempt s)
  case 0
  then show ?case by (subst (asm) connect.simps) simp
next
  case (Suc n)
  obtain tr r0 where c: "new_rtp_receiver env l r (make_recv_callback self) (conn_calls s) = (r0, tr)"
    by (metis surj_pair)
  have le: "attempt \<le> limit" using Suc.hyps(2) by simp
  have em: "P (s\<lparr>conn_calls := tr, conn_client := (conn_client s)\<lparr>client_rtp := x\<rparr>\<rparr>)" for x
    using emplace [OF calls [OF Suc.prems(2), of tr], of x] by simp
  show ?case
  proof (cases "\<exists>m. r0 = Inl (Throw m)")
    case False
    with Suc.prems(1) le em calls [OF Suc.prems(2), of tr] show ?thesis
      by (subst (asm) connect.simps) (auto simp: c split: sum.splits rtp_error.splits)
  next
    case True
    then obtain m where m: "r0 = Inl (Throw m)" by blast
    let ?s1 = "s\<lparr>conn_calls := tr, conn_client := (conn_client s)\<lparr>client_rtp := None\<rparr>\<rparr>"
    obtain waited k where w: "backoff_wait shut (unat (retry_backoff_ms (conn_pol (conn_client ?s1)))) 0 (polls ?s1) = (waited, k)"
      by (metis surj_pair)
    let ?s2 = "?s1\<lparr>slept := slept ?s1 + waited, polls := Suc k\<rparr>"
    have p2: "P ?s2" using waits [OF em [of None], where k = "Suc k" and w = "slept ?s1 + waited"] by simp
    show ?thesis
    proof (cases "attempt = limit")
      case True
      then have "s' = conn_set_error (retries_error attempt m) ?s1"
        using Suc.prems(1) le m by (subst (asm) connect.simps) (simp add: c Let_def)
      with err [OF em [of None]] show ?thesis by simp
    next
      case False
      have step: "(if shut k then (Inl (Throw ''Shutdown requested.''), conn_set_error ''Shutdown requested during RTP connection backoff.'' ?s2)
          else connect env shut l r self limit (Suc attempt) ?s2) = (res, s')"
        using Suc.prems(1) le m w False by (subst (asm) connect.simps) (simp add: c Let_def)
      have "n = Suc limit - Suc attempt" using Suc.hyps(2) by simp
      from Suc.hyps(1) [OF this _ p2] step err [OF p2] show ?thesis by (auto split: if_splits)
    qed
  qed
qed

lemma connect_all_fail:
  assumes "always_throws env l r self" and "\<And>k. \<not> shut k" and "\<And>tr. session_answer env tr \<noteq> None"
    and "attempt \<le> limit" and "healthy (conn_client s)"
  shows "\<exists>m s'. connect env shut l r self limit attempt s = (Inl (Throw (retries_error limit m)), s') \<and>
     slept s' = slept s + (limit - attempt) *
        (100 * backoff_steps (unat (retry_backoff_ms (conn_pol (conn_client s))))) \<and>
     size (live_sessions (conn_calls s')) = size (live_sessions (conn_calls s)) + Suc (limit - attempt) \<and>
     \<not> healthy (conn_client s') \<and> last_error (conn_client s') = retries_error limit m \<and>
     registered s' = registered s \<and> client_rtp (conn_client s') = None"
  using assms(4,5)
proof (induction "limit - attempt" arbitrary: attempt s)
  case 0
  then have [simp]: "attempt = limit" by simp
  obtain m tr where new: "new_rtp_receiver env l r (make_recv_callback self) (conn_calls s) = (Inl (Throw m), tr)"
    using assms(1) unfolding always_throws_def by blast
  have "size (live_sessions tr) = Suc (size (live_sessions (conn_calls s)))"
    using failed_receiver_live [OF new] assms(3) [of "conn_calls s"] by (auto split: option.splits)
  then show ?case
    using 0 by (subst connect.simps) (auto simp: new Let_def conn_set_error_client)
next
  case (Suc n)
  then have lt: "attempt < limit" by simp
  let ?b = "unat (retry_backoff_ms (conn_pol (conn_client s)))"
  obtain m tr where new: "new_rtp_receiver env l r (make_recv_callback self) (conn_calls s) = (Inl (Throw m), tr)"
    using assms(1) unfolding always_throws_def by blast
  have live: "size (live_sessions tr) = Suc (size (live_sessions (conn_calls s)))"
    using failed_receiver_live [OF new] assms(3) [of "conn_calls s"] by (auto split: option.splits)
  have wait: "backoff_wait shut ?b 0 (polls s) = (100 * backoff_steps ?b, polls s + backoff_steps ?b)"
    using backoff_wait_from [of 0 "backoff_steps ?b" shut "polls s" ?b] assms(2) by simp
  let ?s = "s\<lparr>conn_calls := tr, conn_client := (conn_client s)\<lparr>client_rtp := None\<rparr>,
      slept := slept s + 100 * backoff_steps ?b, polls := Suc (polls s + backoff_steps ?b)\<rparr>"
  have step: "connect env shut l r self limit attempt s = connect env shut l r self limit (Suc attempt) ?s"
    using lt assms(2) by (subst connect.simps) (simp add: new wait Let_def)
  have "limit - attempt = Suc (limit - Suc attempt)" using lt by simp
  with Suc.hyps(1) [of "Suc attempt" ?s] Suc.hyps(2) Suc.prems lt live show ?case
    by (auto simp: step algebra_simps)
qed

text \<open>The number of sessions asked for.\<close>

fun is_create_session :: "uvg_call \<Rightarrow> bool" where
  "is_create_session (CreateSession l r a) = True"
| "is_create_session c = False"

definition attempts_made :: "uvg_call list \<Rightarrow> nat" where
  "attempts_made tr = length (filter is_create_session tr)"

lemma receiver_attempt:
  assumes "new_rtp_receiver env l r cb tr = (res, tr')"
  shows "attempts_made tr' = Suc (attempts_made tr)"
proof -
  have "attempts_made (snd (init_rtp env False lp rp rt tr0)) = attempts_made tr0" for lp rp rt tr0
    by (simp add: init_rtp_def attempts_made_def Let_def split: option.splits)
  with assms show ?thesis
    by (auto simp: new_rtp_receiver_def Let_def attempts_made_def) (metis (no_types, lifting)
      filter.simps filter_append is_create_session.simps(1) length_append_singleton snd_conv)
qed

lemma connect_Inr:
  assumes "connect env shut l r self limit attempt s = (Inr u, s')" and "attempt \<le> limit"
  shows "(\<exists>rt. client_rtp (conn_client s') = Some rt \<and> is_initialised rt) \<and>
     attempts_made (conn_calls s') \<le> attempts_made (conn_calls s) + Suc (limit - attempt) \<and>
     healthy (conn_client s') = healthy (conn_client s) \<and> registered s' = registered s \<and>
     decoder_open (conn_client s') = decoder_open (conn_client s) \<and>
     should_stop (conn_client s') = should_stop (conn_client s)"
  using assms
proof (induction "limit - attempt" arbitrary: attempt s)
  case 0
  then show ?case
    by (subst (asm) connect.simps)
       (auto simp: Let_def is_initialised_def attempts_made_def elim!: new_rtp_receiver_Inr
         split: prod.splits sum.splits rtp_error.splits if_splits)
next
  case (Suc n)
  obtain res tr where new: "new_rtp_receiver env l r (make_recv_callback self) (conn_calls s) = (res, tr)"
    by fastforce
  note made = receiver_attempt [OF new]
  consider rt where "res = Inr rt" | m where "res = Inl (Abort m)" | m where "res = Inl (Throw m)"
    by (cases res) (auto, metis rtp_error.exhaust)
  then show ?case
  proof cases
    case 1
    have "is_initialised rt"
      using new 1 by (auto elim!: new_rtp_receiver_Inr simp: is_initialised_def)
    with 1 Suc.prems made show ?thesis
      by (subst (asm) connect.simps) (auto simp: new)
  next
    case 2
    with Suc.prems show ?thesis by (subst (asm) connect.simps) (simp add: new)
  next
    case 3
    obtain w k where wait: "backoff_wait shut (unat (retry_backoff_ms (conn_pol (conn_client s)))) 0 (polls s) = (w, k)"
      by fastforce
    let ?s = "s\<lparr>conn_calls := tr, conn_client := (conn_client s)\<lparr>client_rtp := None\<rparr>,
        slept := slept s + w, polls := Suc k\<rparr>"
    have run: "connect env shut l r self limit (Suc attempt) ?s = (Inr u, s')"
      using Suc.hyps(2) Suc.prems 3
      by (subst (asm) connect.simps) (simp add: new wait Let_def split: if_splits)
    have n: "n = limit - Suc attempt" and le: "Suc attempt \<le> limit" using Suc.hyps(2) by simp_all
    from Suc.hyps(1) [OF n run le] made Suc.hyps(2) show ?thesis
      by (simp add: n [symmetric])
  qed
qed


lemma connect_Abort:
  assumes "connect env shut l r self limit attempt s = (Inl (Abort m), s')"
  shows "thread_started (conn_client s') = thread_started (conn_client s)"
  using assms
proof (induction "Suc limit - attempt" arbitrary: attempt s)
  case 0
  then show ?case by (subst (asm) connect.simps) simp
next
  case (Suc n)
  obtain res tr where new: "new_rtp_receiver env l r (make_recv_callback self) (conn_calls s) = (res, tr)"
    by fastforce
  obtain w k where wait: "backoff_wait shut (unat (retry_backoff_ms (conn_pol (conn_client s)))) 0 (polls s) = (w, k)"
    by fastforce
  let ?s = "s\<lparr>conn_calls := tr, conn_client := (conn_client s)\<lparr>client_rtp := None\<rparr>,
        slept := slept s + w, polls := Suc k\<rparr>"
  from Suc.prems Suc.hyps(2) consider "s' = s\<lparr>conn_calls := tr\<rparr>"
    | "connect env shut l r self limit (Suc attempt) ?s = (Inl (Abort m), s')"
    by (subst (asm) connect.simps)
      (auto simp: new wait Let_def split: sum.splits rtp_error.splits if_splits)
  then show ?case
  proof cases
    case 2
    from Suc.hyps(1) [OF _ 2] Suc.hyps(2) show ?thesis by simp
  qed simp
qed

text \<open>What a constructor that throws leaves of the client.\<close>

lemma connect_Throw:
  assumes "connect env shut l r self limit attempt s = (Inl (Throw m), s')"
    and "healthy (conn_client s)"
  shows "\<not> healthy (conn_client s') \<and> should_stop (conn_client s') \<and> last_error (conn_client s') \<noteq> [] \<and>
     thread_started (conn_client s') = thread_started (conn_client s) \<and>
     conn_audio s' = stop_recording (conn_audio s)"
  using assms
proof (induction "Suc limit - attempt" arbitrary: attempt s)
  case 0
  then show ?case by (subst (asm) connect.simps) simp
next
  case (Suc n)
  then have le: "attempt \<le> limit" by simp
  obtain res tr where new: "new_rtp_receiver env l r (make_recv_callback self) (conn_calls s) = (res, tr)"
    by fastforce
  obtain w k where wait: "backoff_wait shut (unat (retry_backoff_ms (conn_pol (conn_client s)))) 0 (polls s) = (w, k)"
    by fastforce
  from Suc.prems(1) le obtain m' where res: "res = Inl (Throw m')"
    by (subst (asm) connect.simps) (auto simp: new split: sum.splits rtp_error.splits)
  let ?s = "s\<lparr>conn_calls := tr, conn_client := (conn_client s)\<lparr>client_rtp := None\<rparr>,
        slept := slept s + w, polls := Suc k\<rparr>"
  consider "attempt = limit" | "attempt \<noteq> limit" "shut k" | "attempt \<noteq> limit" "\<not> shut k" by blast
  then show ?case
  proof cases
    case 3
    have run: "connect env shut l r self limit (Suc attempt) ?s = (Inl (Throw m), s')"
      using Suc.prems(1) le 3 by (subst (asm) connect.simps) (simp add: new res wait Let_def)
    from Suc.hyps(1) [OF _ run] Suc.hyps(2) Suc.prems show ?thesis by simp
  qed (use Suc.prems le in \<open>subst (asm) connect.simps,
        auto simp: new res wait Let_def conn_set_error_client retries_error_def\<close>)+
qed

text \<open>A policy and a world for the witnesses: streams are refused.\<close>

definition refusing_uvg :: uvg_env where
  "refusing_uvg = sample_uvg\<lparr>stream_answer := \<lambda>_. None\<rparr>"

lemma refusing_uvg_throws: "always_throws refusing_uvg l r self"
  by (simp add: always_throws_def new_rtp_receiver_def init_rtp_def refusing_uvg_def sample_uvg_def
      make_recv_callback_def Let_def)

text \<open>Giving up. If every attempt to open the RTP stream throws and nobody asks for shutdown, the
  constructor makes exactly \<open>max_retries\<close> attempts, sleeps one full backoff between consecutive
  ones and none after the last, then reports an error that names the number of attempts and
  throws it. Every attempt that got as far as creating a session has leaked one, and the write
  callback registered before the loop stays registered in the backend although the client it
  refers to was never constructed.\<close>

theorem constructor_gives_up:
  fixes a :: audio
  assumes "always_throws env l r self" and "\<And>k. \<not> shut k" and "\<And>tr. session_answer env tr \<noteq> None"
    and "max_retries pol \<noteq> 0"
  shows "\<exists>m s. new_client env shut 0 es self l r pol tr a k
             = (Inl (Throw (retries_error (unat (max_retries pol)) m)), s) \<and>
           slept s = (unat (max_retries pol) - 1) * (100 * backoff_steps (unat (retry_backoff_ms pol))) \<and>
           size (live_sessions (conn_calls s)) = size (live_sessions tr) + unat (max_retries pol) \<and>
           last_error (conn_client s) = retries_error (unat (max_retries pol)) m \<and>
           \<not> is_healthy (conn_client s) \<and> \<not> thread_started (conn_client s) \<and> registered s"
proof -
  let ?limit = "unat (max_retries pol)"
  let ?s = "\<lparr>conn_client = (client_init pol)\<lparr>decoder_open := True,
       pcm_decbuf := replicate pcm_decbuf_size 0\<rparr>, conn_calls = tr, conn_audio = a, registered = True,
       polls = k, slept = 0\<rparr>"
  have le: "1 \<le> ?limit" using assms(4) by (simp add: unat_gt_0 Suc_le_eq)
  have healthy: "healthy (conn_client ?s)" by (simp add: client_init_def)
  obtain m s where run: "connect env shut l r self ?limit 1 ?s = (Inl (Throw (retries_error ?limit m)), s)"
      "slept s = (?limit - 1) * (100 * backoff_steps (unat (retry_backoff_ms pol)))"
      "size (live_sessions (conn_calls s)) = size (live_sessions tr) + Suc (?limit - 1)"
      "\<not> healthy (conn_client s)" "last_error (conn_client s) = retries_error ?limit m" "registered s"
    using connect_all_fail [of env l r self shut, OF assms(1-3) le healthy] by (auto simp: client_init_def)
  moreover have "\<not> thread_started (conn_client s)"
    using connect_Throw [OF run(1) healthy] by (simp add: client_init_def)
  ultimately show ?thesis
    using le by (intro exI [of _ m] exI [of _ s])
      (simp add: new_client_def Let_def is_healthy_def client_init_def)
qed

theorem constructor_gives_up_witness:
  "\<exists>m s. new_client refusing_uvg (\<lambda>_. False) 0 (\<lambda>_. []) 1 (''a'', 7981) (''b'', 8179) default_policy []
       \<lparr>recording = False, playback = False\<rparr> 0 = (Inl (Throw (retries_error 3 m)), s) \<and>
     slept s = 4000 \<and> size (live_sessions (conn_calls s)) = 3 \<and> registered s"
  using constructor_gives_up [of refusing_uvg "(''a'', 7981)" "(''b'', 8179)" 1 "\<lambda>_. False" default_policy
      "\<lambda>_. []" "[]" "\<lparr>recording = False, playback = False\<rparr>" 0] refusing_uvg_throws
  by (auto simp: default_policy_def backoff_steps_def refusing_uvg_def sample_uvg_def live_sessions_def)

text \<open>C22. The constructor's outcomes. With a retry limit of at least one, a constructor that returns
  leaves a healthy running client whose RTP object is initialised, whose decoder is open, whose
  write callback is registered and whose thread is started, after at most \<open>max_retries\<close>
  sessions were asked for; one that throws, for whatever reason, leaves an unhealthy stopped
  client with a non-empty error text, no thread, and the backend's run flags cleared.\<close>

theorem constructor_outcome:
  fixes a :: audio
  assumes "new_client env shut oe es self l r pol tr a k = (res, s)" and "max_retries pol \<noteq> 0"
  shows "case res of
     Inr u \<Rightarrow> is_healthy (conn_client s) \<and> \<not> should_stop (conn_client s) \<and> thread_started (conn_client s) \<and>
       decoder_open (conn_client s) \<and> registered s \<and>
       (\<exists>rt. get_rtp (conn_client s) = Some rt \<and> is_initialised rt) \<and>
       attempts_made (conn_calls s) \<le> attempts_made tr + unat (max_retries pol)
   | Inl (Throw m) \<Rightarrow> \<not> is_healthy (conn_client s) \<and> should_stop (conn_client s) \<and>
       last_error (conn_client s) \<noteq> [] \<and> \<not> thread_started (conn_client s) \<and>
       \<not> recording (conn_audio s) \<and> \<not> playback (conn_audio s)
   | Inl (Abort m) \<Rightarrow> \<not> thread_started (conn_client s)"
proof (cases "oe = 0")
  case False
  with assms(1) show ?thesis
    by (auto simp: new_client_def Let_def conn_set_error_client client_init_def is_healthy_def)
next
  case True
  let ?limit = "unat (max_retries pol)"
  let ?s = "\<lparr>conn_client = (client_init pol)\<lparr>decoder_open := True,
       pcm_decbuf := replicate pcm_decbuf_size 0\<rparr>, conn_calls = tr, conn_audio = a, registered = True,
       polls = k, slept = 0\<rparr>"
  have le: "1 \<le> ?limit" using assms(2) by (simp add: unat_gt_0 Suc_le_eq)
  have healthy: "healthy (conn_client ?s)" by (simp add: client_init_def)
  obtain res' s' where run: "connect env shut l r self ?limit 1 ?s = (res', s')" by fastforce
  with True assms(1) have res: "res = res'"
    by (auto simp: new_client_def Let_def client_init_def split: sum.splits)
  show ?thesis
  proof (cases res')
    case (Inr u)
    with True assms(1) run have "s = s'\<lparr>conn_client := (conn_client s')\<lparr>thread_started := True\<rparr>\<rparr>"
      by (auto simp: new_client_def Let_def client_init_def)
    with connect_Inr [OF run [unfolded Inr] le] le show ?thesis
      by (simp add: res Inr is_healthy_def get_rtp_def client_init_def)
  next
    case (Inl e)
    with True assms(1) run have s: "s = s'"
      by (auto simp: new_client_def Let_def client_init_def)
    show ?thesis
    proof (cases e)
      case (Throw m)
      from connect_Throw [OF run [unfolded Inl Throw] healthy] show ?thesis
        by (simp add: res Inl s Throw is_healthy_def client_init_def)
    next
      case (Abort m)
      from connect_Abort [OF run [unfolded Inl Abort]] show ?thesis
        by (simp add: res Inl s Abort client_init_def)
    qed
  qed
qed

theorem constructor_outcome_witness:
  "\<exists>s. new_client sample_uvg (\<lambda>_. False) 0 (\<lambda>_. []) 1 (''a'', 7981) (''b'', 8179) default_policy []
       \<lparr>recording = False, playback = False\<rparr> 0 = (Inr (), s) \<and> is_healthy (conn_client s) \<and>
     attempts_made (conn_calls s) \<le> 3"
proof -
  let ?run = "new_client sample_uvg (\<lambda>_. False) 0 (\<lambda>_. []) 1 (''a'', 7981) (''b'', 8179) default_policy []
       \<lparr>recording = False, playback = False\<rparr> 0"
  have "fst ?run = Inr ()"
    by (simp add: new_client_def Let_def connect.simps new_rtp_receiver_def init_rtp_def sample_uvg_def
        make_recv_callback_def default_policy_def)
  then obtain s where run: "?run = (Inr (), s)" by (metis prod.collapse)
  from constructor_outcome [OF run] run show ?thesis
    by (auto simp: default_policy_def attempts_made_def)
qed

end
