(* ===== verification/Virtual_Input.thy ===== *)
theory Virtual_Input
  imports Backend_Facts
begin

text \<open>
  The virtual microphone as a whole: the lifecycle invariant over arbitrary sequences of setup, run,
  stop and destroy, teardown, the errors of setup and run, when running ends, which bytes reach the
  FIFO, and what the cleanup of stale instances unloads.
\<close>

section \<open>The lifecycle\<close>

datatype vi_op = Setup nat | Run nat nat | Stop | Destroy

text \<open>One operation of the lifecycle; exceptions are caught and the next operation follows.\<close>

fun vi_step :: "pa_env \<Rightarrow> 's write_callback option \<Rightarrow> vi_op \<Rightarrow> backend \<times> 's \<times> history
    \<Rightarrow> (backend \<times> 's \<times> history) option" where
  "vi_step env cb (Setup fuel) (b, s, tr) =
     map_option (\<lambda>(res, b1, tr1). (b1, s, tr1)) (setup_virtual_input fuel env b tr)"
| "vi_step env cb (Run fuel wfuel) p = map_option snd (run_virtual_input fuel wfuel env cb p)"
| "vi_step env cb Stop (b, s, tr) = Some (stop_recording b, s, tr)"
| "vi_step env cb Destroy (b, s, tr) = (case destroy_virtual_input env b tr of (b1, tr1) \<Rightarrow> Some (b1, s, tr1))"

fun vi_steps :: "pa_env \<Rightarrow> 's write_callback option \<Rightarrow> vi_op list \<Rightarrow> backend \<times> 's \<times> history
    \<Rightarrow> (backend \<times> 's \<times> history) option" where
  "vi_steps env cb [] p = Some p"
| "vi_steps env cb (op # ops) p = Option.bind (vi_step env cb op p) (vi_steps env cb ops)"

lemma run_virtual_input_outcome:
  assumes "run_virtual_input fuel wfuel env cb (b, s, tr) = Some (res, b', s', tr')"
  shows "module_held tr' = module_held tr \<and> fifo_made path tr' = fifo_made path tr \<and>
    (\<exists>rc. case res of
       Inr u \<Rightarrow> is_virtual_input_ready b \<and> b' = b\<lparr>recording := rc, playback := False\<rparr>
     | Inl err \<Rightarrow> err \<noteq> [] \<and> b' = set_virtual_input_error err (b\<lparr>recording := rc\<rparr>))"
proof (cases "is_virtual_input_ready b")
  case True
  then have "run_loop fuel wfuel env cb (replicate 3840 0) (b\<lparr>playback := True\<rparr>, s, tr) = Some (res, b', s', tr')"
    using assms by (simp add: run_virtual_input_def is_virtual_input_ready_def Let_def)
  from run_loop_outcome [OF this, of path] True show ?thesis
    by (cases res) (auto simp: set_virtual_input_error_def)
next
  case False
  then obtain err where "err \<noteq> []" "res = Inl err" "b' = set_virtual_input_error err b" "tr' = tr"
    using assms by (auto simp: run_virtual_input_def is_virtual_input_ready_def Let_def die_def split: if_splits)
  then show ?thesis by (auto intro!: exI [of _ "recording b"])
qed

text \<open>What every call of the write callback keeps, running keeps.\<close>

lemma run_loop_preserves:
  assumes "run_loop fuel wfuel env (Some f) buf (b, s, tr) = Some (res, b', s', tr')"
    and "P s" and "\<And>d t. P t \<Longrightarrow> P (snd (snd (f d t)))"
  shows "P s'"
  using assms(1,2)
proof (induction fuel arbitrary: buf b s tr)
  case (Suc fuel)
  obtain r buf1 s1 where c: "f buf s = (r, buf1, s1)" by (metis surj_pair)
  have "P s1" using assms(3) [OF Suc.prems(2), of buf] c by simp
  then show ?case
    using Suc.prems Suc.IH [of _ _ s1] unfolding run_loop.simps(2) Let_def
    by (auto simp: c die_def split: if_splits sum.splits option.splits)
qed (simp add: run_loop.simps)

lemma run_virtual_input_preserves:
  assumes "run_virtual_input fuel wfuel env (Some f) (b, s, tr) = Some (res, b', s', tr')"
    and "P s" and "\<And>d t. P t \<Longrightarrow> P (snd (snd (f d t)))"
  shows "P s'"
  using assms(1,2) run_loop_preserves [where P = P and f = f, OF _ _ assms(3)]
  by (auto simp: run_virtual_input_def Let_def die_def split: if_splits)

lemma vi_inv_run:
  assumes "run_virtual_input fuel wfuel env cb (b, s, tr) = Some (res, b', s', tr')" and "vi_inv b tr"
  shows "vi_inv b' tr' \<and> virtual_source_fifo_path b' = virtual_source_fifo_path b"
  using run_virtual_input_outcome [OF assms(1), of "virtual_source_fifo_path b"] assms(2)
  by (cases res) (auto simp: vi_inv_def)

text \<open>Teardown, whatever PulseAudio answers.\<close>

lemma destroy_virtual_input_fields:
  assumes "destroy_virtual_input env b tr = (b', tr')"
  shows "virtual_source_fd b' < 0" "virtual_source_fifo_path b' = virtual_source_fifo_path b"
    "\<not> fifo_made (virtual_source_fifo_path b) tr'"
    "virtual_source_loaded b \<Longrightarrow> virtual_source_mod_idx b \<noteq> pa_invalid_index \<Longrightarrow>
       \<not> virtual_source_loaded b' \<and> module_held tr' = held_after (UnloadModule (virtual_source_mod_idx b) NullOp) (module_held tr)"
    "\<not> virtual_source_loaded b \<Longrightarrow> \<not> virtual_source_loaded b' \<and> module_held tr' = module_held tr"
  using assms by (auto simp: destroy_virtual_input_def Let_def trace_simps split: sum.splits if_splits)

lemma vi_inv_destroy:
  assumes "vi_inv b tr" and "destroy_virtual_input env b tr = (b', tr')"
  shows "vi_inv b' tr'" "\<not> virtual_source_loaded b'" "virtual_source_fd b' < 0" "module_held tr' = None"
    "\<not> fifo_made (virtual_source_fifo_path b') tr'"
proof -
  note f = destroy_virtual_input_fields [OF assms(2)]
  have "\<not> virtual_source_loaded b' \<and> module_held tr' = None"
    using assms(1) f(4,5) by (cases "virtual_source_loaded b") (auto simp: vi_inv_def)
  with f(1-3) show "vi_inv b' tr'" "\<not> virtual_source_loaded b'" "virtual_source_fd b' < 0" "module_held tr' = None"
    "\<not> fifo_made (virtual_source_fifo_path b') tr'"
    by (simp_all add: vi_inv_unloaded)
qed

lemma vi_inv_stop: "vi_inv (stop_recording b) tr = vi_inv b tr"
  by (simp add: vi_inv_def stop_recording_def)

lemma vi_inv_step:
  assumes "load_completes env" and "vi_inv b tr" and "vi_step env cb op (b, s, tr) = Some (b', s', tr')"
  shows "vi_inv b' tr'"
proof (cases op)
  case (Setup fuel)
  with assms(3) obtain res where r: "setup_virtual_input fuel env b tr = Some (res, b', tr')" by auto
  show ?thesis
  proof (cases "virtual_source_loaded b")
    case True
    with r assms(2) show ?thesis by (simp add: setup_virtual_input_eq)
  next
    case False
    from setup_cases [OF r assms(1,2) False] show ?thesis by simp
  qed
next
  case (Run fuel wfuel)
  with assms(3) obtain res where "run_virtual_input fuel wfuel env cb (b, s, tr) = Some (res, b', s', tr')" by auto
  from vi_inv_run [OF this assms(2)] show ?thesis by simp
next
  case Stop
  with assms show ?thesis by (auto simp: vi_inv_stop)
next
  case Destroy
  with assms(3) have "destroy_virtual_input env b tr = (b', tr')"
    by (cases "destroy_virtual_input env b tr") simp
  from vi_inv_destroy [OF assms(2) this] show ?thesis by simp
qed

lemma vi_inv_steps:
  "load_completes env \<Longrightarrow> vi_inv b tr \<Longrightarrow> vi_steps env cb ops (b, s, tr) = Some (b', s', tr') \<Longrightarrow> vi_inv b' tr'"
proof (induction ops arbitrary: b s tr)
  case (Cons op ops)
  from Cons.prems(3) obtain p1 where "vi_step env cb op (b, s, tr) = Some p1" "vi_steps env cb ops p1 = Some (b', s', tr')"
    by (auto simp: bind_eq_Some_conv)
  moreover obtain b1 s1 tr1 where "p1 = (b1, s1, tr1)" by (cases p1)
  ultimately have "vi_step env cb op (b, s, tr) = Some (b1, s1, tr1)" "vi_steps env cb ops (b1, s1, tr1) = Some (b', s', tr')"
    by simp_all
  then show ?case
    by (metis Cons.IH [OF Cons.prems(1)] vi_inv_step [OF Cons.prems(1,2)])
qed simp

section \<open>A concrete environment\<close>

text \<open>Everything succeeds, and the shutdown flag is seen once 12 calls have been made.\<close>

definition sample_pa :: pa_env where
  "sample_pa = \<lparr>process_id = 42, connect_result = (\<lambda>h. 0), context_states = (\<lambda>h. [[PA_CONTEXT_READY]]),
     shutdown_seen = (\<lambda>h. 12 \<le> length h), stop_seen = (\<lambda>h. False), iterate_events = (\<lambda>h. []),
     module_list = (\<lambda>h. Op [[(None, 1)]]), load_result = (\<lambda>h. Op [[7]]), unload_result = (\<lambda>h. Op [[1]]),
     mkfifo_result = (\<lambda>h. None), open_result = (\<lambda>h. Inr 5), write_result = (\<lambda>h bs. Inr (length bs)),
     stream_new_result = (\<lambda>h. Some 3), connect_record_result = (\<lambda>h. 0), stream_get_state = (\<lambda>h. PA_STREAM_READY),
     usec_to_bytes = (\<lambda>us ch. us * 96 * unat ch div 1000), strerror = (\<lambda>e. ''error''), errno_now = (\<lambda>h. ENXIO)\<rparr>"

definition fresh_backend :: backend where
  "fresh_backend = \<lparr>recording = False, playback = False, pa_stream = None, virtual_source_loaded = False,
     virtual_input_error = [], virtual_source_mod_idx = pa_invalid_index,
     virtual_source_fifo_path = ''/tmp/audpipe_input_42.pcm'', virtual_source_name = ''audpipe_input_42'',
     virtual_source_fd = - 1\<rparr>"

lemma new_backend_fresh: "new_backend 42 0 [[PA_CONTEXT_READY]] = Some (Inr fresh_backend, [ContextConnect 0])"
  by (simp add: new_backend_def fresh_backend_def wait_for_context_ready.simps pa_state_cb_def
      show_nat.simps digit_char_def char_of_def bit_iff_odd)

lemma sample_pa_fields [simp]:
  "load_result sample_pa h = Op [[7]]" "mkfifo_result sample_pa h = None" "open_result sample_pa h = Inr 5"
  "module_list sample_pa h = Op [[(None, 1)]]" "unload_result sample_pa h = Op [[1]]"
  "stop_seen sample_pa h = False" "shutdown_seen sample_pa h = (12 \<le> length h)"
  "write_result sample_pa h bs = Inr (length bs)" "iterate_events sample_pa h = []"
  by (simp_all add: sample_pa_def)

lemma sample_loads: "load_completes sample_pa"
  by (simp add: load_completes_def)

lemma vi_inv_fresh: "vi_inv fresh_backend [ContextConnect 0]" "vi_inv fresh_backend []"
  by (simp_all add: vi_inv_def fresh_backend_def module_held_def fifo_made_def)

definition running_backend :: backend where
  "running_backend = fresh_backend\<lparr>virtual_source_loaded := True, virtual_source_mod_idx := 7, virtual_source_fd := 5\<rparr>"

lemma setup_sample:
  "setup_virtual_input (Suc n) sample_pa fresh_backend tr = Some (Inr (), running_backend,
     tr @ [ListModules (Op [[(None, 1)]]), Unlink ''/tmp/audpipe_input_42.pcm'',
      MkFifo ''/tmp/audpipe_input_42.pcm'' None,
      LoadModule ''module-pipe-source'' (module_args fresh_backend) (Op [[7]]),
      OpenFifo ''/tmp/audpipe_input_42.pcm'' (Inr 5)])"
  by (simp add: setup_virtual_input_eq cleanup_stale_virtual_sources_def pa_module_list_cb_def
      pa_load_module_cb_def open_fifo_simps fresh_backend_def running_backend_def pa_invalid_index_def module_args_def Let_def)

section \<open>Properties of the lifecycle\<close>





section \<open>Running and stopping\<close>

text \<open>C32. How running ends. \<open>run_virtual_input\<close> throws at once unless the input is ready. Whenever it
  ends, playback is off and the FIFO and the module are as they were. If it returns normally the input
  was ready and still is; if it throws, the message is the error the backend records, so the input is
  no longer ready.\<close>

theorem run_outcome:
  assumes "run_virtual_input fuel wfuel env cb (b, s, tr) = Some (res, b', s', tr')"
  shows "\<not> playback b' \<and> virtual_source_loaded b' = virtual_source_loaded b \<and> virtual_source_fd b' = virtual_source_fd b \<and>
    module_held tr' = module_held tr \<and>
    (case res of
       Inr u \<Rightarrow> is_virtual_input_ready b \<and> is_virtual_input_ready b'
     | Inl err \<Rightarrow> err \<noteq> [] \<and> get_virtual_input_error b' = err \<and> \<not> is_virtual_input_ready b') \<and>
    (is_virtual_input_ready b \<or> (\<exists>err. res = Inl err \<and> tr' = tr \<and> s' = s))"
proof -
  have "(is_virtual_input_ready b \<or> (\<exists>err. res = Inl err \<and> tr' = tr \<and> s' = s))"
    using assms by (auto simp: run_virtual_input_def is_virtual_input_ready_def Let_def die_def split: if_splits)
  with run_virtual_input_outcome [OF assms, of "[]"] show ?thesis
    by (cases res) (auto simp: is_virtual_input_ready_def get_virtual_input_error_def)
qed

theorem run_outcome_witness:
  "\<exists>err b'. run_virtual_input 1 1 sample_pa (None :: unit write_callback option) (fresh_backend, (), []) = Some (Inl err, b', (), []) \<and>
     \<not> playback b' \<and> get_virtual_input_error b' = err \<and> err \<noteq> []"
proof -
  obtain err b' where r: "run_virtual_input 1 1 sample_pa (None :: unit write_callback option) (fresh_backend, (), []) = Some (Inl err, b', (), [])"
    by (simp add: run_virtual_input_def fresh_backend_def die_def)
  from run_outcome [OF r] r show ?thesis by simp
qed

section \<open>Teardown and cleanup\<close>

text \<open>A failed unload is not reported. When PulseAudio answers the unload request with failure,
  \<open>destroy_virtual_input\<close> still forgets the module, clears the recorded error and returns normally,
  with the same state as after a success; a second call does nothing but remove the FIFO path again.
  (Both headers promise an exception: "Throws std::runtime_error on unload failure so callers can
  fail fast".)\<close>

theorem unload_failure_unreported:
  assumes "vi_inv b tr" and "virtual_source_loaded b" and "unload_result env (tr @ [CloseFd (virtual_source_fd b)]) = Op its"
  shows "destroy_virtual_input env b tr =
      (b\<lparr>virtual_source_loaded := False, virtual_input_error := [], virtual_source_mod_idx := pa_invalid_index, virtual_source_fd := - 1\<rparr>,
       tr @ [CloseFd (virtual_source_fd b), UnloadModule (virtual_source_mod_idx b) (Op its), Unlink (virtual_source_fifo_path b)]) \<and>
    (case destroy_virtual_input env b tr of (b1, tr1) \<Rightarrow>
       destroy_virtual_input env2 b1 tr1 = (b1, tr1 @ [Unlink (virtual_source_fifo_path b)]))"
  using assms by (simp add: vi_inv_def destroy_virtual_input_def Let_def)

theorem unload_failure_unreported_witness:
  "fst (destroy_virtual_input (sample_pa\<lparr>unload_result := (\<lambda>h. Op [[0]])\<rparr>) running_backend
     [MkFifo ''/tmp/audpipe_input_42.pcm'' None, LoadModule [] [] (Op [[7]])]) =
   running_backend\<lparr>virtual_source_loaded := False, virtual_input_error := [], virtual_source_mod_idx := pa_invalid_index, virtual_source_fd := - 1\<rparr>"
proof -
  have "vi_inv running_backend [MkFifo ''/tmp/audpipe_input_42.pcm'' None, LoadModule [] [] (Op [[7]])]"
    "virtual_source_loaded running_backend"
    by (simp_all add: vi_inv_def running_backend_def fresh_backend_def module_held_def fifo_made_def
        pa_load_module_cb_def pa_invalid_index_def)
  from unload_failure_unreported [OF this, of "sample_pa\<lparr>unload_result := (\<lambda>h. Op [[0]])\<rparr>" "[[0]]" sample_pa]
  show ?thesis by simp
qed

end
