(* ===== verification/Fifo_Stream.thy ===== *)
theory Fifo_Stream
  imports Virtual_Input
begin

text \<open>
  Which bytes the virtual microphone's FIFO receives: the contract of a write callback that takes
  bytes off a stream, carried through both loops of \<open>run_virtual_input\<close>; and which modules the
  cleanup of stale instances unloads.
\<close>

section \<open>One inner loop\<close>

text \<open>POSIX: \<open>write\<close> accepts at most the bytes it is given.\<close>

definition posix_write :: "pa_env \<Rightarrow> bool" where
  "posix_write env \<longleftrightarrow> (\<forall>h bs n. write_result env h bs = Inr n \<longrightarrow> n \<le> length bs)"

text \<open>A reader that keeps up: every write is accepted whole.\<close>

definition writes_fully :: "pa_env \<Rightarrow> bool" where
  "writes_fully env \<longleftrightarrow> (\<forall>h bs. write_result env h bs = Inr (length bs))"

lemma write_pending_prefix:
  assumes "posix_write env" and "write_pending fuel env buf offset bytes_to_write b tr = Some (res, b', tr')"
    and "offset \<le> bytes_to_write" and "bytes_to_write \<le> length buf"
  shows "\<exists>k \<le> bytes_to_write - offset. accepted tr' = accepted tr @ take k (drop offset buf)"
  using assms(2-4)
proof (induction fuel arbitrary: offset tr)
  case 0
  then show ?case by (simp add: write_pending_simps)
next
  case (Suc fuel)
  let ?bytes = "take (bytes_to_write - offset) (drop offset buf)"
  let ?res = "write_result env tr ?bytes"
  let ?tr1 = "tr @ [WriteFd (virtual_source_fd b) ?bytes ?res]"
  consider (ends) "accepted tr' = accepted tr"
    | (retry) "write_pending fuel env buf offset bytes_to_write b ?tr1 = Some (res, b', tr')" "?res = Inl EINTR"
    | (progress) n where "?res = Inr n" "offset < bytes_to_write"
        "write_pending fuel env buf (offset + n) bytes_to_write b ?tr1 = Some (res, b', tr')"
    using Suc.prems(1)
    by (cases "?res") (auto simp: write_pending_simps(2) Let_def die_def trace_simps split: if_splits)
  then show ?case
  proof cases
    case ends
    then show ?thesis by (intro exI [of _ 0]) simp
  next
    case retry
    from Suc.IH [OF retry(1) Suc.prems(2,3)] retry(2) show ?thesis by (simp add: trace_simps)
  next
    case (progress n)
    have n: "n \<le> bytes_to_write - offset"
      using assms(1) progress(1) Suc.prems(3) unfolding posix_write_def by fastforce
    then have "offset + n \<le> bytes_to_write" using progress(2) by simp
    from Suc.IH [OF progress(3) this Suc.prems(3)] obtain k
      where k: "k \<le> bytes_to_write - (offset + n)" "accepted tr' = accepted ?tr1 @ take k (drop (offset + n) buf)"
      by blast
    have "accepted ?tr1 = accepted tr @ take n (drop offset buf)"
      using progress(1) n by (simp add: trace_simps min_def)
    with k(2) have "accepted tr' = accepted tr @ take (n + k) (drop offset buf)"
      by (simp add: take_add add.commute [of n offset])
    then show ?thesis using k(1) n by (intro exI [of _ "n + k"]) simp
  qed
qed

lemma write_pending_full:
  assumes "writes_fully env" and "write_pending fuel env buf 0 n b tr = Some (res, b', tr')" and "n \<le> length buf"
  shows "res = Inr () \<and> b' = b \<and> accepted tr' = accepted tr @ take n buf"
proof (cases fuel)
  case 0
  with assms(2) show ?thesis by (simp add: write_pending_simps)
next
  case (Suc k)
  show ?thesis
  proof (cases k)
    case 0
    with assms Suc show ?thesis
      by (cases "n = 0") (auto simp: write_pending_simps Let_def writes_fully_def min_def split: if_splits)
  next
    case (Suc j)
    with assms \<open>fuel = Suc k\<close> show ?thesis
      by (cases "n = 0") (auto simp: write_pending_simps(2) Let_def writes_fully_def min_def trace_simps split: if_splits)
  qed
qed

text \<open>A pipe in non-blocking mode takes a write of at most \<open>PIPE_BUF\<close> (4096) bytes whole or not at all.\<close>

definition pipe_write :: "pa_env \<Rightarrow> bool" where
  "pipe_write env \<longleftrightarrow> (\<forall>h bs n. write_result env h bs = Inr n \<and> length bs \<le> 4096 \<longrightarrow> n = length bs)"

lemma write_pending_atomic:
  assumes "pipe_write env" and "write_pending fuel env buf 0 n b tr = Some (res, b', tr')" and "n \<le> length buf" and "n \<le> 4096"
  shows "accepted tr' = accepted tr \<or> accepted tr' = accepted tr @ take n buf"
  using assms(2)
proof (induction fuel arbitrary: tr)
  case 0
  then show ?case by (simp add: write_pending.simps)
next
  case (Suc fuel)
  let ?res = "write_result env tr (take n buf)"
  let ?tr1 = "tr @ [WriteFd (virtual_source_fd b) (take n buf) ?res]"
  consider (ends) "accepted tr' = accepted tr"
    | (retry) "write_pending fuel env buf 0 n b ?tr1 = Some (res, b', tr')" "?res = Inl EINTR"
    | (wrote) k where "?res = Inr k" "write_pending fuel env buf k n b ?tr1 = Some (res, b', tr')"
    using Suc.prems by (cases "?res") (auto simp: write_pending_simps(2) Let_def die_def trace_simps split: if_splits)
  then show ?case
  proof cases
    case retry
    from Suc.IH [OF retry(1)] retry(2) show ?thesis by (simp add: trace_simps)
  next
    case (wrote k)
    have "length (take n buf) = n" using assms(3) by simp
    moreover from this have "k = length (take n buf)" using assms(1,4) wrote(1) unfolding pipe_write_def by metis
    ultimately have "k = n" by simp
    with wrote have "tr' = ?tr1" by (cases fuel) (auto simp: write_pending.simps write_round_def)
    with wrote(1) \<open>k = n\<close> show ?thesis by (simp add: trace_simps)
  qed simp
qed

section \<open>The whole run, for a callback that takes bytes off a stream\<close>

text \<open>Setting up writes nothing.\<close>

lemma open_fifo_accepted:
  "open_fifo fuel env b tr = Some (res, b', tr') \<Longrightarrow> accepted tr' = accepted tr"
proof (induction fuel arbitrary: b tr)
  case 0
  then show ?case by (simp add: open_fifo_simps)
next
  case (Suc fuel)
  show ?case
    using Suc.prems Suc.IH
    by (auto simp: open_fifo_simps(2) Let_def die_def rollback_def trace_simps split: if_splits sum.splits)
qed

lemma setup_accepted:
  assumes "setup_virtual_input fuel env b tr = Some (res, b', tr')"
  shows "accepted tr' = accepted tr"
  using assms
  by (auto simp: setup_virtual_input_eq Let_def die_def trace_simps
      dest!: open_fifo_accepted split: if_splits sum.splits option.splits)

text \<open>Creating the virtual input ends without calling the write callback, or runs its loop.\<close>

lemma create_cases:
  assumes "create_virtual_input fuel wfuel env cb (b, s, tr) = Some (res, b', s', tr')"
    and "setup_virtual_input fuel env b tr = Some (r1, b1, tr1)"
  shows "s' = s \<and> tr' = tr1 \<or> run_loop fuel wfuel env cb (replicate 3840 0) (b1\<lparr>playback := True\<rparr>, s, tr1) = Some (res, b', s', tr')"
  using assms by (cases r1) (auto simp: create_virtual_input_def run_virtual_input_def Let_def die_def split: if_splits)

context pcm_source
begin

text \<open>If every call produces a multiple of \<open>m\<close> bytes, a multiple of \<open>m\<close> bytes reaches the pipe.\<close>

lemma run_loop_chunks:
  assumes "pipe_write env" and "\<And>dst s n dst' s'. cb dst s = (n, dst', s') \<Longrightarrow> P s \<Longrightarrow> length dst = len \<Longrightarrow> P s' \<and> m dvd n"
    and "len \<le> 4096" and "length buf = len" and "P s"
    and "run_loop fuel wfuel env (Some (no_throw cb)) buf (b, s, tr) = Some (res, b', s', tr')"
  shows "\<exists>out. accepted tr' = accepted tr @ out \<and> m dvd length out"
  using assms(4-6)
proof (induction fuel arbitrary: buf b s tr)
  case 0
  then show ?case by (simp add: run_loop.simps)
next
  case (Suc fuel)
  let ?b0 = "if stop_seen env tr then stop_recording b else b"
  let ?tr0 = "tr @ [PollFlags (stop_seen env tr)]"
  let ?tr1 = "?tr0 @ [PollShutdown (shutdown_seen env ?tr0)]"
  obtain n buf1 s1 where c: "cb buf s = (n, buf1, s1)" by (cases "cb buf s")
  have n: "n \<le> length buf1" "length buf1 = len" using produced_le [OF c] buffer_length [OF c] Suc.prems(1) by simp_all
  have inv: "P s1" "m dvd n" using assms(2) [OF c Suc.prems(2,1)] by simp_all
  have acc: "accepted ?tr1 = accepted tr" by (simp add: trace_simps)
  have p: "(if n > length buf1 then length buf1 else n) = n" using n by simp
  note step = Suc.prems(3) [simplified run_loop.simps(2) [of fuel wfuel env _ buf b s tr] Let_def no_throw_def c
      option.case prod.case sum.case p]
  consider (ends) "accepted tr' = accepted tr"
    | (silent) "run_loop fuel wfuel env (Some (no_throw cb)) buf1
           (?b0, s1, ?tr1 @ [Iterate (iterate_events env ?tr1), Usleep]) = Some (res, b', s', tr')"
    | (wrote) r2 b2 tr2 where "write_pending wfuel env buf1 0 n ?b0 ?tr1 = Some (r2, b2, tr2)"
        "tr' = tr2 \<or> run_loop fuel wfuel env (Some (no_throw cb)) buf1 (b2, s1, tr2) = Some (res, b', s', tr')"
  proof (cases "playback ?b0 \<and> \<not> shutdown_seen env ?tr0")
    case False
    with Suc.prems(3) have "accepted tr' = accepted tr"
      by (auto simp: run_loop.simps(2) Let_def trace_simps split: if_splits)
    then show thesis by (rule ends)
  next
    case True
    show thesis
    proof (cases "n = 0")
      case n0: True
      with step True silent show thesis by (auto simp: no_throw_def)
    next
      case False
      obtain r2 b2 tr2 where w: "write_pending wfuel env buf1 0 n ?b0 ?tr1 = Some (r2, b2, tr2)"
        using step True False by (auto split: option.splits if_splits)
      with step True False wrote [OF w] show thesis by (cases r2) (auto simp: no_throw_def split: if_splits)
    qed
  qed
  then show ?case
  proof cases
    case ends
    then show ?thesis by (intro exI [of _ "[]"]) simp
  next
    case silent
    from Suc.IH [OF n(2) inv(1) silent] show ?thesis by (auto simp: trace_simps)
  next
    case (wrote r2 b2 tr2)
    have "n \<le> 4096" using n assms(3) by simp
    from write_pending_atomic [OF assms(1) wrote(1) n(1) this] acc
    obtain k where k: "accepted tr2 = accepted tr @ take k buf1" "k = 0 \<or> k = n" by fastforce
    have "m dvd length (take k buf1)" using k(2) n(1) inv(2) by auto
    from wrote(2) show ?thesis
    proof
      assume "tr' = tr2"
      with k(1) \<open>m dvd length (take k buf1)\<close> show ?thesis by blast
    next
      assume "run_loop fuel wfuel env (Some (no_throw cb)) buf1 (b2, s1, tr2) = Some (res, b', s', tr')"
      from Suc.IH [OF n(2) inv(1) this] obtain out where "accepted tr' = accepted tr2 @ out" "m dvd length out" by blast
      with k(1) \<open>m dvd length (take k buf1)\<close> show ?thesis by (intro exI [of _ "take k buf1 @ out"]) (simp only: append_assoc length_append dvd_add)
    qed
  qed
qed

lemma create_chunks:
  assumes "pipe_write env" and "\<And>dst s n dst' s'. cb dst s = (n, dst', s') \<Longrightarrow> P s \<Longrightarrow> length dst = 3840 \<Longrightarrow> P s' \<and> m dvd n"
    and "P s" and "create_virtual_input fuel wfuel env (Some (no_throw cb)) (b, s, tr) = Some (res, b', s', tr')"
  shows "\<exists>out. accepted tr' = accepted tr @ out \<and> m dvd length out"
proof -
  obtain r1 b1 tr1 where su: "setup_virtual_input fuel env b tr = Some (r1, b1, tr1)"
    using assms(4) by (auto simp: create_virtual_input_def split: option.splits)
  have acc: "accepted tr1 = accepted tr" by (rule setup_accepted [OF su])
  from create_cases [OF assms(4) su] show ?thesis
  proof
    assume "s' = s \<and> tr' = tr1"
    with acc show ?thesis by (intro exI [of _ "[]"]) simp
  next
    assume "run_loop fuel wfuel env (Some (no_throw cb)) (replicate 3840 0) (b1\<lparr>playback := True\<rparr>, s, tr1) = Some (res, b', s', tr')"
    from run_loop_chunks [where P = P and m = m and len = 3840, OF assms(1,2) _ _ assms(3) this] acc show ?thesis by simp
  qed
qed

end

context pcm_stream_source
begin

lemma run_loop_stream:
  assumes "posix_write env" and "may s' x"
    and "run_loop fuel wfuel env (Some (no_throw cb)) buf (b, s, tr) = Some (res, b', s', tr')"
  shows "\<exists>out y. accepted tr' = accepted tr @ out \<and> may s y \<and> subseq (out @ x) y \<and>
    (writes_fully env \<longrightarrow> res = Inr () \<and> y = out @ x)"
  using assms(3)
proof (induction fuel arbitrary: buf b s tr)
  case 0
  then show ?case by (simp add: run_loop.simps)
next
  case (Suc fuel)
  let ?b0 = "if stop_seen env tr then stop_recording b else b"
  let ?tr0 = "tr @ [PollFlags (stop_seen env tr)]"
  let ?tr1 = "?tr0 @ [PollShutdown (shutdown_seen env ?tr0)]"
  obtain n buf1 s1 where c: "cb buf s = (n, buf1, s1)" by (cases "cb buf s")
  have n: "n \<le> length buf1" using produced_le [OF c] buffer_length [OF c] by simp
  have acc: "accepted ?tr1 = accepted tr" by (simp add: trace_simps)
  show ?case
  proof (cases "playback ?b0 \<and> \<not> shutdown_seen env ?tr0")
    case False
    with Suc.prems have "s' = s \<and> res = Inr () \<and> accepted tr' = accepted tr"
      by (auto simp: run_loop.simps(2) Let_def trace_simps split: if_splits)
    with assms(2) show ?thesis by (intro exI [of _ "[]"] exI [of _ x]) simp
  next
    case True
    have p: "(if n > length buf1 then length buf1 else n) = n" using n by simp
    note step = Suc.prems [simplified run_loop.simps(2) [of fuel wfuel env _ buf b s tr] Let_def no_throw_def c
        option.case prod.case sum.case p]
    show ?thesis
    proof (cases "n = 0")
      case n0: True
      with step True have "run_loop fuel wfuel env (Some (no_throw cb)) buf1
           (?b0, s1, ?tr1 @ [Iterate (iterate_events env ?tr1), Usleep]) = Some (res, b', s', tr')"
        by (auto simp: no_throw_def)
      from Suc.IH [OF this] may_step [OF c] n0 show ?thesis by (auto simp: trace_simps)
    next
      case False
      obtain r2 b2 tr2 where w: "write_pending wfuel env buf1 0 n ?b0 ?tr1 = Some (r2, b2, tr2)"
        using step True False by (auto split: option.splits if_splits)
      obtain k where k: "k \<le> n" "accepted tr2 = accepted tr @ take k buf1"
        using write_pending_prefix [OF assms(1) w] n acc by auto
      have sub: "subseq (take k buf1 @ xs) (take n buf1 @ xs)" for xs
        using k(1) by (metis list_emb_append_mono prefix_imp_subseq subseq_order.refl take_is_prefix take_take min_absorb1)
      have full: "r2 = Inr () \<and> take k buf1 = take n buf1" if "writes_fully env"
        using write_pending_full [OF that w n] k acc by auto
      show ?thesis
      proof (cases r2)
        case (Inl err)
        with step True False w have "tr' = tr2" "s' = s1" by (auto split: if_splits)
        with may_step [OF c] assms(2) k sub [of x] full Inl show ?thesis
          by (intro exI [of _ "take k buf1"] exI [of _ "take n buf1 @ x"]) auto
      next
        case (Inr u)
        with step True False w have again: "run_loop fuel wfuel env (Some (no_throw cb)) buf1 (b2, s1, tr2) = Some (res, b', s', tr')"
          by (auto simp: no_throw_def split: if_splits)
        from Suc.IH [OF this] obtain out y where out: "accepted tr' = accepted tr2 @ out" "may s1 y" "subseq (out @ x) y"
            "writes_fully env \<longrightarrow> res = Inr () \<and> y = out @ x"
          by blast
        have "subseq (take k buf1 @ out @ x) (take n buf1 @ y)"
          using sub [of "out @ x"] out(3) by (meson subseq_order.order_trans list_emb_append_mono subseq_order.order_refl)
        with out k full may_step [OF c out(2)] show ?thesis
          by (intro exI [of _ "take k buf1 @ out"] exI [of _ "take n buf1 @ y"]) auto
      qed
    qed
  qed
qed

lemma create_stream:
  assumes "posix_write env" and "may s' x"
    and "create_virtual_input fuel wfuel env (Some (no_throw cb)) (b, s, tr) = Some (res, b', s', tr')"
  shows "\<exists>out y. accepted tr' = accepted tr @ out \<and> may s y \<and> subseq (out @ x) y \<and> (writes_fully env \<longrightarrow> y = out @ x)"
proof -
  obtain r1 b1 tr1 where su: "setup_virtual_input fuel env b tr = Some (r1, b1, tr1)"
    using assms(3) by (auto simp: create_virtual_input_def split: option.splits)
  have acc: "accepted tr1 = accepted tr" by (rule setup_accepted [OF su])
  from create_cases [OF assms(3) su] show ?thesis
  proof
    assume "s' = s \<and> tr' = tr1"
    with acc assms(2) show ?thesis by (intro exI [of _ "[]"] exI [of _ x]) simp
  next
    assume "run_loop fuel wfuel env (Some (no_throw cb)) (replicate 3840 0) (b1\<lparr>playback := True\<rparr>, s, tr1) = Some (res, b', s', tr')"
    from run_loop_stream [OF assms(1,2) this] acc show ?thesis by auto
  qed
qed

end

text \<open>A full pipe loses audio. If the FIFO takes the first \<open>k\<close> of the \<open>n\<close> bytes the callback
  produced and then reports EAGAIN, the inner loop ends normally after one short pause and the other
  \<open>n - k\<close> bytes are never written: the next round asks the callback for new ones. Only a shutdown
  request seen at that moment also ends playback.\<close>

theorem full_pipe_drops_rest:
  assumes "k < n" and "n \<le> length buf" and "0 < k"
    and "write_result env tr (take n buf) = Inr k"
    and "write_result env (tr @ [WriteFd (virtual_source_fd b) (take n buf) (Inr k)]) (take (n - k) (drop k buf)) = Inl EAGAIN"
  shows "\<exists>tr'. write_pending (Suc (Suc fuel)) env buf 0 n b tr =
      Some (Inr (), (if shutdown_seen env (tr @ [WriteFd (virtual_source_fd b) (take n buf) (Inr k),
                          WriteFd (virtual_source_fd b) (take (n - k) (drop k buf)) (Inl EAGAIN)])
                     then b\<lparr>playback := False\<rparr> else b), tr') \<and> accepted tr' = accepted tr @ take k buf"
  using assms by (auto simp: write_pending_simps(2) Let_def trace_simps min_def)

theorem full_pipe_drops_rest_witness:
  "\<exists>tr'. write_pending 2 (sample_pa\<lparr>write_result := (\<lambda>h bs. if h = [] then Inr 1 else Inl EAGAIN)\<rparr>) [1, 2, 3] 0 3 running_backend [] =
      Some (Inr (), running_backend, tr') \<and> accepted tr' = [1]"
  using full_pipe_drops_rest [of 1 3 "[1, 2, 3]" "sample_pa\<lparr>write_result := (\<lambda>h bs. if h = [] then Inr 1 else Inl EAGAIN)\<rparr>"
      "[]" running_backend 0]
  by (simp add: numeral_2_eq_2)

section \<open>Cleanup of stale instances\<close>

definition is_audpipe_module :: "module_info \<Rightarrow> bool" where
  "is_audpipe_module i \<longleftrightarrow> mod_name i = Some ''module-pipe-source'' \<and>
     (case mod_argument i of None \<Rightarrow> False | Some args \<Rightarrow> contains_str ''source_name=audpipe_input_'' args)"

fun listed :: "module_info option \<times> int \<Rightarrow> module_info list" where
  "listed (Some i, eol) = (if eol > 0 then [] else [i])"
| "listed (None, eol) = []"

fun unload_request :: "pa_call \<Rightarrow> u32 list" where
  "unload_request (UnloadModule i op) = [i]"
| "unload_request c = []"

definition unload_requests :: "history \<Rightarrow> u32 list" where
  "unload_requests tr = concat (map unload_request tr)"

lemma unload_requests_append [trace_simps]:
  "unload_requests (tr @ cs) = unload_requests tr @ concat (map unload_request cs)"
  by (simp add: unload_requests_def)

lemma module_list_cb_listed:
  "pa_module_list_cb ''audpipe_input_'' v ds = ds @ map mod_index (filter is_audpipe_module (listed v))"
  by (cases v rule: listed.cases)
    (simp_all add: pa_module_list_cb_def is_audpipe_module_def del: contains_str.simps split: option.splits)

lemma fold_module_list_cb:
  "fold (pa_module_list_cb ''audpipe_input_'') invs ds =
     ds @ map mod_index (filter is_audpipe_module (concat (map listed invs)))"
  by (induction invs arbitrary: ds) (simp_all add: module_list_cb_listed)

lemma unload_stale_requests: "unload_requests (unload_stale env is tr) = unload_requests tr @ is"
  by (induction "is" arbitrary: tr) (simp_all add: trace_simps)

lemma module_args_match:
  "virtual_source_name b = ''audpipe_input_'' @ nm \<Longrightarrow> contains_str ''source_name=audpipe_input_'' (module_args b)"
  unfolding contains_str_iff module_args_def
  by (intro exI [of _ "[]"] exI [of _ "nm @ '' file='' @ virtual_source_fifo_path b @
      '' format=s16le rate=48000 channels=2 source_properties=device.description=audpipe_input''"]) simp

text \<open>C38. Cleanup unloads exactly the listed \<open>module-pipe-source\<close> modules whose argument names an
  audpipe source, each once and in the order listed. That test does not look at the process id: the
  module of any other audpipe process, still running or not, passes it, so setting up a second
  virtual microphone removes the first one from under its process.\<close>

theorem cleanup_unloads_every_instance:
  assumes "module_list env tr = Op its" and "new_backend pid connection_err states = Some (Inr other, tr0)"
  shows "unload_requests (cleanup_stale_virtual_sources env tr) = unload_requests tr @
      map mod_index (filter is_audpipe_module (concat (map listed (concat its)))) \<and>
    is_audpipe_module \<lparr>mod_index = i, mod_name = Some ''module-pipe-source'', mod_argument = Some (module_args other)\<rparr>"
proof -
  have "virtual_source_name other = ''audpipe_input_'' @ show_nat pid"
    using assms(2) by (auto simp: new_backend_def Let_def split: option.splits bool.splits)
  from module_args_match [OF this] assms(1) show ?thesis
    by (simp add: cleanup_stale_virtual_sources_def Let_def fold_module_list_cb unload_stale_requests trace_simps
        is_audpipe_module_def del: contains_str.simps)
qed

theorem cleanup_unloads_every_instance_witness:
  "unload_requests (cleanup_stale_virtual_sources (sample_pa\<lparr>module_list := (\<lambda>h. Op [[(Some \<lparr>mod_index = 31,
      mod_name = Some ''module-pipe-source'', mod_argument = Some (module_args fresh_backend)\<rparr>, 0)], [(None, 1)]])\<rparr>) []) = [31]"
  using cleanup_unloads_every_instance [OF _ new_backend_fresh, of "sample_pa\<lparr>module_list := (\<lambda>h. Op [[(Some \<lparr>mod_index = 31,
      mod_name = Some ''module-pipe-source'', mod_argument = Some (module_args fresh_backend)\<rparr>, 0)], [(None, 1)]])\<rparr>" "[]"
      "[[(Some \<lparr>mod_index = 31, mod_name = Some ''module-pipe-source'', mod_argument = Some (module_args fresh_backend)\<rparr>, 0)], [(None, 1)]]" 31]
  by (simp add: unload_requests_def [of "[]"])

end
