(* ===== verification/Virtual_Mic.thy ===== *)
theory Virtual_Mic
  imports Client_Facts Fifo_Stream
begin

text \<open>
  The client's virtual microphone thread: \<open>Client::call_virtual_input_setup\<close> over the models of
  \<open>Client\<close> and \<open>Backend\<close>, while frames keep arriving. The lambda the client registers as write callback
  keeps the stream contract of \<open>Interfaces\<close>, so the lemmas on \<open>run_virtual_input\<close> say which decoded
  bytes reach the microphone.
\<close>

section \<open>The write callback while frames arrive\<close>

text \<open>
  The client, its decoder, and what uvgRTP's thread will do: the frames that arrive before each of the
  next calls of the write callback. The flag, which the program does not have, tells whether
  a frame had to be dropped from a full queue.
\<close>

type_synonym 'd mic = "client \<times> 'd \<times> rtp_frame list list \<times> bool"

definition next_batch :: "rtp_frame list list \<Rightarrow> rtp_frame list" where
  "next_batch arrivals = (case arrivals of [] \<Rightarrow> [] | fs # rest \<Rightarrow> fs)"

definition overflows :: "rtp_frame list \<Rightarrow> client \<Rightarrow> bool" where
  "overflows fs c \<longleftrightarrow> length (compressed_queue c) + length (payloads fs) > max_compressed_queue_frames"

definition live_cb :: "'d opus_decoder \<Rightarrow> byte list \<Rightarrow> 'd mic \<Rightarrow> nat \<times> byte list \<times> 'd mic" where
  "live_cb dec dst = (\<lambda>(c, d, arrivals, lost).
     let fs = next_batch arrivals; c1 = fst (recv_all fs c)
     in case write_cb dec dst (c1, d) of
          (n, dst', c2, d2) \<Rightarrow> (n, dst', c2, d2, tl arrivals, lost \<or> overflows fs c))"

text \<open>The constructor's call of \<open>set_write_callback\<close>.\<close>

definition install_write_callback :: "'d opus_decoder \<Rightarrow> ('c, 'd mic write_callback) callbacks
    \<Rightarrow> ('c, 'd mic write_callback) callbacks" where
  "install_write_callback dec = set_write_callback (no_throw (live_cb dec))"

lemma write_callback_installed [simp]:
  "write_callback (install_write_callback dec cbs) = Some (no_throw (live_cb dec))"
  by (simp add: install_write_callback_def set_write_callback_def)

definition call_virtual_input_setup :: "nat \<Rightarrow> nat \<Rightarrow> pa_env \<Rightarrow> 'd opus_decoder
    \<Rightarrow> 'd mic \<times> backend \<times> history \<Rightarrow> ('d mic \<times> backend \<times> history) option" where
  "call_virtual_input_setup fuel wfuel env dec = (\<lambda>(m, b, tr).
     case create_virtual_input fuel wfuel env
            (write_callback (install_write_callback dec (no_callbacks :: (unit, _) callbacks))) (b, m, tr) of
       None \<Rightarrow> None
     | Some (Inr u, b1, m1, tr1) \<Rightarrow> Some (m1, b1, tr1)
     | Some (Inl what, b1, (c1, x1), tr1) \<Rightarrow>
         (case set_error (''Could not create virtual input, reason: '' @ what) (c1, b1) of
            (c2, b2) \<Rightarrow> Some ((c2, x1), b2, tr1)))"

text \<open>What is still to be delivered once the coming frames have arrived.\<close>

definition expected :: "'d opus_decoder \<Rightarrow> 'd mic \<Rightarrow> byte list" where
  "expected dec = (\<lambda>(c, d, arrivals, lost). playback_queue c @
     pcm_stream dec (pcm_decbuf c) d (compressed_queue c @ concat (map payloads arrivals)))"

definition keeps_up :: "'d mic \<Rightarrow> bool" where
  "keeps_up = (\<lambda>(c, d, arrivals, lost). \<not> lost \<and> \<not> should_stop c \<and> healthy c)"

lemma expected_remaining:
  "expected dec (c, d, arrivals, lost) = remaining dec c d @
     (case decode_run dec (pcm_decbuf c) d (compressed_queue c) of
        (buf1, d1) \<Rightarrow> pcm_stream dec buf1 d1 (concat (map payloads arrivals)))"
  by (simp add: expected_def remaining_def pcm_stream_append)

lemma recv_callback_flags:
  assumes "recv_callback (Some f) (Some c) = (c', freed)"
  shows "\<exists>c1. c' = Some c1 \<and> should_stop c1 = should_stop c \<and> healthy c1 = healthy c \<and> client_rtp c1 = client_rtp c"
  using assms by (auto simp: recv_callback_def split: if_splits option.splits) (simp_all add: enqueue_frame_def Let_def)

lemma recv_all_flags:
  "should_stop (fst (recv_all fs c)) = should_stop c \<and> healthy (fst (recv_all fs c)) = healthy c \<and>
   client_rtp (fst (recv_all fs c)) = client_rtp c"
proof (induction fs arbitrary: c)
  case (Cons f fs)
  obtain c1 freed where cb: "recv_callback (Some f) (Some c) = (Some c1, freed)"
    and flags: "should_stop c1 = should_stop c" "healthy c1 = healthy c" "client_rtp c1 = client_rtp c"
    using recv_callback_flags [of f c] by (metis surj_pair)
  with Cons.IH [of c1] show ?case by (cases "recv_all fs c1") simp
qed simp

lemma recv_all_no_overflow:
  assumes "\<not> should_stop c" and "healthy c" and "\<not> overflows fs c"
  shows "compressed_queue (fst (recv_all fs c)) = compressed_queue c @ payloads fs"
    "playback_queue (fst (recv_all fs c)) = playback_queue c" "pcm_decbuf (fst (recv_all fs c)) = pcm_decbuf c"
proof -
  have fields: "playback_queue (fold enqueue_frame ds c) = playback_queue c \<and> pcm_decbuf (fold enqueue_frame ds c) = pcm_decbuf c" for ds
    by (induction ds arbitrary: c) simp_all
  from assms(3) have "length (compressed_queue c) \<le> max_compressed_queue_frames" by (simp add: overflows_def)
  from client_queue.push_all_elems [OF this, of "payloads fs"] assms fields
  show "compressed_queue (fst (recv_all fs c)) = compressed_queue c @ payloads fs"
    "playback_queue (fst (recv_all fs c)) = playback_queue c" "pcm_decbuf (fst (recv_all fs c)) = pcm_decbuf c"
    by (simp_all add: recv_all_live overflows_def)
qed

lemma expected_next:
  assumes "\<not> should_stop c" and "healthy c" and "\<not> overflows (next_batch arrivals) c"
  shows "expected dec (c, d, arrivals, lost) = expected dec (fst (recv_all (next_batch arrivals) c), d, tl arrivals, lost')"
  using recv_all_no_overflow [OF assms]
  by (cases arrivals) (simp_all add: expected_def next_batch_def)

lemma live_cb_flags:
  "live_cb dec dst (c, d, x) = (n, dst', c', d', x') \<Longrightarrow>
     should_stop c' = should_stop c \<and> healthy c' = healthy c \<and> client_rtp c' = client_rtp c"
  using recv_all_flags [of "next_batch (fst x)" c]
  by (auto simp: live_cb_def Let_def split: prod.splits dest!: write_cb_spec dest: pcm_frame_fields)

text \<open>
  What may still be delivered when frames may be dropped: queued PCM, then what some of the queued and
  coming frames decode to, in their order.
\<close>

definition may_hear :: "'d opus_decoder \<Rightarrow> 'd mic \<Rightarrow> byte list \<Rightarrow> bool" where
  "may_hear dec = (\<lambda>(c, d, arrivals, lost) y. \<exists>kept. subseq kept (compressed_queue c @ concat (map payloads arrivals)) \<and>
     y = playback_queue c @ pcm_stream dec (pcm_decbuf c) d kept)"

lemma recv_all_queue:
  "playback_queue (fst (recv_all fs c)) = playback_queue c \<and> pcm_decbuf (fst (recv_all fs c)) = pcm_decbuf c \<and>
   subseq (compressed_queue (fst (recv_all fs c))) (compressed_queue c @ payloads fs)"
proof (induction fs arbitrary: c)
  case (Cons f fs)
  obtain c1 freed where cb: "recv_callback (Some f) (Some c) = (Some c1, freed)"
    using recv_callback_flags [of f c] by (metis surj_pair)
  obtain ds where ds: "payloads [f] = ds" by blast
  have one: "playback_queue c1 = playback_queue c \<and> pcm_decbuf c1 = pcm_decbuf c \<and> subseq (compressed_queue c1) (compressed_queue c @ ds)"
    using cb enqueue_subseq [of "[]" c "compressed_queue c"]
    by (auto simp: recv_callback_def ds [symmetric] split: if_splits option.splits)
  have "payloads (f # fs) = ds @ payloads fs" by (simp add: ds [symmetric] split: option.split)
  moreover have "subseq (compressed_queue c1 @ payloads fs) ((compressed_queue c @ ds) @ payloads fs)"
    using one by (simp only: subseq_append)
  ultimately show ?case
    using one Cons.IH [of c1] cb by (cases "recv_all fs c1") (auto simp del: payloads_simps(2) intro: subseq_order.order_trans)
qed simp

lemma live_cb_takes_frames:
  assumes "live_cb dec dst (c, d, arrivals, lost) = (n, dst', c', d', arrivals', lost')"
  obtains fs c1 where "c1 = fst (recv_all (next_batch arrivals) c)" "arrivals' = tl arrivals"
    "lost' = (lost \<or> overflows (next_batch arrivals) c)"
    "compressed_queue c1 = fs @ compressed_queue c'" "decode_run dec (pcm_decbuf c) d fs = (pcm_decbuf c', d')"
    "take n dst' @ playback_queue c' = playback_queue c @ pcm_stream dec (pcm_decbuf c) d fs"
proof -
  let ?c1 = "fst (recv_all (next_batch arrivals) c)"
  have w: "write_cb dec dst (?c1, d) = (n, dst', c', d')" and "arrivals' = tl arrivals"
      "lost' = (lost \<or> overflows (next_batch arrivals) c)"
    using assms by (auto simp: live_cb_def Let_def split: prod.splits)
  with write_cb_takes_frames [OF w] recv_all_queue [of "next_batch arrivals" c] that show thesis by auto
qed

lemma next_arrivals: "concat (map payloads arrivals) = payloads (next_batch arrivals) @ concat (map payloads (tl arrivals))"
  by (cases arrivals) (simp_all add: next_batch_def)

lemma live_cb_source:
  fixes dec :: "'d opus_decoder"
  shows "pcm_source (live_cb dec)"
proof unfold_locales
  fix dst n dst' and s s' :: "'d mic"
  assume cb: "live_cb dec dst s = (n, dst', s')"
  then obtain c1 d1 c2 d2 where w: "write_cb dec dst (c1, d1) = (n, dst', c2, d2)"
    by (cases s) (auto simp: live_cb_def Let_def split: prod.splits)
  from write_cb_spec [OF w] show "n \<le> length dst" "length dst' = length dst" "drop n dst' = drop n dst" by auto
qed

text \<open>In general, part of the stream may be lost; it is all there as long as no frame is dropped.\<close>

interpretation lossy_stream: pcm_stream_source "live_cb dec" "may_hear dec" for dec :: "'d opus_decoder"
proof (rule pcm_stream_source.intro [OF live_cb_source], unfold_locales)
  fix dst n dst' x and s s' :: "'d mic"
  assume cb: "live_cb dec dst s = (n, dst', s')" and may: "may_hear dec s' x"
  obtain c d arrivals lost c' d' arrivals' lost' where s: "s = (c, d, arrivals, lost)" "s' = (c', d', arrivals', lost')"
    by (cases s, cases s')
  from cb [unfolded s] obtain fs c1 where f: "c1 = fst (recv_all (next_batch arrivals) c)" "arrivals' = tl arrivals"
    "compressed_queue c1 = fs @ compressed_queue c'" "decode_run dec (pcm_decbuf c) d fs = (pcm_decbuf c', d')"
    "take n dst' @ playback_queue c' = playback_queue c @ pcm_stream dec (pcm_decbuf c) d fs"
    by (rule live_cb_takes_frames)
  from may obtain kept where k: "subseq kept (compressed_queue c' @ concat (map payloads arrivals'))"
      "x = playback_queue c' @ pcm_stream dec (pcm_decbuf c') d' kept"
    by (auto simp: s may_hear_def)
  have "subseq (fs @ kept) (compressed_queue c1 @ concat (map payloads arrivals'))"
    unfolding f(3) append_assoc by (rule list_emb_append_mono [OF subseq_order.order_refl k(1)])
  also have "subseq \<dots> ((compressed_queue c @ payloads (next_batch arrivals)) @ concat (map payloads arrivals'))"
    using recv_all_queue [of "next_batch arrivals" c] by (simp only: f(1) subseq_append)
  finally have "subseq (fs @ kept) (compressed_queue c @ concat (map payloads arrivals))"
    by (simp add: f(2) next_arrivals [of arrivals])
  moreover have "take n dst' @ x = playback_queue c @ pcm_stream dec (pcm_decbuf c) d (fs @ kept)"
    using f(4,5) k(2) by (simp add: pcm_stream_append flip: append_assoc)
  ultimately show "may_hear dec s (take n dst' @ x)" by (auto simp: s may_hear_def)
qed

interpretation live_stream: pcm_stream_source "live_cb dec" "\<lambda>m y. keeps_up m \<and> y = expected dec m"
  for dec :: "'d opus_decoder"
proof (rule pcm_stream_source.intro [OF live_cb_source], unfold_locales)
  fix dst n dst' x and s s' :: "'d mic"
  assume cb: "live_cb dec dst s = (n, dst', s')" and ok: "keeps_up s' \<and> x = expected dec s'"
  obtain c d arrivals lost c' d' arrivals' lost' where s: "s = (c, d, arrivals, lost)" "s' = (c', d', arrivals', lost')"
    by (cases s, cases s')
  from cb [unfolded s] obtain fs c1 where f: "c1 = fst (recv_all (next_batch arrivals) c)" "arrivals' = tl arrivals"
    "lost' = (lost \<or> overflows (next_batch arrivals) c)"
    "compressed_queue c1 = fs @ compressed_queue c'" "decode_run dec (pcm_decbuf c) d fs = (pcm_decbuf c', d')"
    "take n dst' @ playback_queue c' = playback_queue c @ pcm_stream dec (pcm_decbuf c) d fs"
    by (rule live_cb_takes_frames)
  have live: "\<not> should_stop c" "healthy c" "\<not> overflows (next_batch arrivals) c" "\<not> lost"
    using ok live_cb_flags [OF cb [unfolded s]] f(3) by (simp_all add: s keeps_up_def)
  then have "compressed_queue c @ concat (map payloads arrivals) = fs @ compressed_queue c' @ concat (map payloads arrivals')"
    using recv_all_no_overflow(1) [OF live(1-3)] f by (simp add: next_arrivals [of arrivals])
  then have "expected dec s = (playback_queue c @ pcm_stream dec (pcm_decbuf c) d fs) @
      pcm_stream dec (pcm_decbuf c') d' (compressed_queue c' @ concat (map payloads arrivals'))"
    by (simp only: s expected_def prod.case f(5) append_assoc pcm_stream_append [of dec "pcm_decbuf c" d fs])
  also have "\<dots> = take n dst' @ x" using ok by (simp only: f(6) [symmetric] s expected_def prod.case append_assoc)
  finally show "keeps_up s \<and> take n dst' @ x = expected dec s" using live by (simp add: s keeps_up_def)
qed

section \<open>The bytes that reach the microphone\<close>

lemma create_flags:
  assumes "create_virtual_input fuel wfuel env (Some (no_throw (live_cb dec))) (b, (c, x), tr) = Some (res, b', (c', x'), tr')"
  shows "should_stop c' = should_stop c \<and> healthy c' = healthy c \<and> client_rtp c' = client_rtp c"
proof -
  obtain r1 b1 tr1 where su: "setup_virtual_input fuel env b tr = Some (r1, b1, tr1)"
    using assms by (auto simp: create_virtual_input_def split: option.splits)
  show ?thesis
  proof (cases r1)
    case (Inl err)
    with assms su show ?thesis by (simp add: create_virtual_input_def)
  next
    case (Inr u)
    with assms su have run: "run_virtual_input fuel wfuel env (Some (no_throw (live_cb dec))) (b1, (c, x), tr1) = Some (res, b', (c', x'), tr')"
      by (simp add: create_virtual_input_def)
    let ?P = "\<lambda>m :: 'a mic. should_stop (fst m) = should_stop c \<and> healthy (fst m) = healthy c \<and> client_rtp (fst m) = client_rtp c"
    have "?P (c', x')"
    proof (rule run_virtual_input_preserves [OF run, where P = ?P])
      show "?P (snd (snd (no_throw (live_cb dec) dst m)))" if "?P m" for dst m
      proof -
        obtain n dst' c1 x1 where cb: "live_cb dec dst m = (n, dst', c1, x1)" by (metis surj_pair)
        with live_cb_flags [of dec dst "fst m" "fst (snd m)" "snd (snd m)" n dst' c1 "fst x1" "snd x1"] that
        show ?thesis by (simp add: no_throw_def)
      qed
    qed simp
    then show ?thesis by simp
  qed
qed

text \<open>The thread runs \<open>create_virtual_input\<close>; an error it reports leaves the queues and the RTP object alone.\<close>

lemma thread_runs:
  assumes "call_virtual_input_setup fuel wfuel env dec (m, b, tr) = Some ((c', x'), b', tr')"
  obtains res b1 c1 where "create_virtual_input fuel wfuel env (Some (no_throw (live_cb dec))) (b, m, tr) = Some (res, b1, (c1, x'), tr')"
    and "playback_queue c1 = playback_queue c'" "compressed_queue c1 = compressed_queue c'" "pcm_decbuf c1 = pcm_decbuf c'"
      "client_rtp c1 = client_rtp c'"
proof -
  obtain res b1 c1 x1 tr1 where cr: "create_virtual_input fuel wfuel env (Some (no_throw (live_cb dec))) (b, m, tr) =
      Some (res, b1, (c1, x1), tr1)"
    using assms by (cases "create_virtual_input fuel wfuel env (Some (no_throw (live_cb dec))) (b, m, tr)")
      (auto simp: call_virtual_input_setup_def)
  with assms have "x1 = x' \<and> tr1 = tr' \<and> playback_queue c1 = playback_queue c' \<and> compressed_queue c1 = compressed_queue c' \<and>
      pcm_decbuf c1 = pcm_decbuf c' \<and> client_rtp c1 = client_rtp c'"
    by (cases res) (auto simp: call_virtual_input_setup_def set_error_def split: prod.splits if_splits)
  with cr that show thesis by blast
qed

lemma thread_keeps_rtp:
  assumes "call_virtual_input_setup fuel wfuel env dec ((c, x), b, tr) = Some ((c', x'), b', tr')"
  shows "client_rtp c' = client_rtp c"
proof -
  from assms obtain res b1 c1 where "create_virtual_input fuel wfuel env (Some (no_throw (live_cb dec))) (b, (c, x), tr) = Some (res, b1, (c1, x'), tr')"
    "client_rtp c1 = client_rtp c'" by (rule thread_runs)
  with create_flags show ?thesis by metis
qed

lemma thread_stream:
  assumes "posix_write env"
    and "call_virtual_input_setup fuel wfuel env dec ((c, d, arrivals, lost0), b, tr) = Some ((c', d', arrivals', lost), b', tr')"
  shows "\<exists>out kept. accepted tr' = accepted tr @ out \<and>
    subseq kept (compressed_queue c @ concat (map payloads arrivals)) \<and>
    subseq (out @ playback_queue c') (playback_queue c @ pcm_stream dec (pcm_decbuf c) d kept) \<and>
    (writes_fully env \<longrightarrow> out @ playback_queue c' = playback_queue c @ pcm_stream dec (pcm_decbuf c) d kept) \<and>
    (\<not> lost \<and> \<not> should_stop c \<and> healthy c \<longrightarrow>
       subseq (out @ expected dec (c', d', arrivals', lost)) (expected dec (c, d, arrivals, lost0)) \<and>
       (writes_fully env \<longrightarrow> out @ expected dec (c', d', arrivals', lost) = expected dec (c, d, arrivals, lost0)))"
proof -
  from assms(2) obtain res b1 c1 where cr: "create_virtual_input fuel wfuel env (Some (no_throw (live_cb dec))) (b, (c, d, arrivals, lost0), tr) =
      Some (res, b1, (c1, d', arrivals', lost), tr')"
    and same: "playback_queue c1 = playback_queue c'" "compressed_queue c1 = compressed_queue c'" "pcm_decbuf c1 = pcm_decbuf c'"
    by (rule thread_runs)
  have "may_hear dec (c1, d', arrivals', lost) (playback_queue c')"
    using same by (auto simp: may_hear_def intro!: exI [of _ "[]"])
  from lossy_stream.create_stream [OF assms(1) this cr] obtain out kept where out: "accepted tr' = accepted tr @ out"
      and lossy: "subseq kept (compressed_queue c @ concat (map payloads arrivals))"
        "subseq (out @ playback_queue c') (playback_queue c @ pcm_stream dec (pcm_decbuf c) d kept)"
        "writes_fully env \<longrightarrow> playback_queue c @ pcm_stream dec (pcm_decbuf c) d kept = out @ playback_queue c'"
    by (auto simp: may_hear_def)
  have exact: "subseq (out @ expected dec (c', d', arrivals', lost)) (expected dec (c, d, arrivals, lost0)) \<and>
      (writes_fully env \<longrightarrow> out @ expected dec (c', d', arrivals', lost) = expected dec (c, d, arrivals, lost0))"
    if "\<not> lost \<and> \<not> should_stop c \<and> healthy c"
  proof -
    have "keeps_up (c1, d', arrivals', lost) \<and> expected dec (c', d', arrivals', lost) = expected dec (c1, d', arrivals', lost)"
      using create_flags [OF cr] that same by (simp add: keeps_up_def expected_def)
    from live_stream.create_stream [OF assms(1) this cr] out show ?thesis by auto
  qed
  show ?thesis
    by (intro exI [of _ out] exI [of _ kept] conjI impI out lossy(1,2) conjunct1 [OF exact])
      (use lossy(3) exact in auto)
qed

text \<open>C2. What the microphone hears. Let frames arrive while the thread that feeds the virtual microphone
  runs. However that thread ends, the bytes its FIFO accepted, followed by the PCM still queued, are a
  subsequence of the PCM that was queued and of what some of the queued and arriving frames decode to, in
  order of arrival: nothing is invented, repeated or reordered. If the reader keeps up, so that every
  write is accepted whole, the two are equal, so that only whole frames are missing. If moreover the
  frame queue never overflows and the client is neither stopped nor unhealthy, no frame is missing:
  the bytes accepted, followed by what is still to be delivered, are all that was expected.\<close>

theorem microphone_stream:
  assumes "posix_write env"
    and "call_virtual_input_setup fuel wfuel env dec ((c, d, arrivals, lost0), b, tr) = Some ((c', d', arrivals', lost), b', tr')"
  shows "\<exists>out kept. accepted tr' = accepted tr @ out \<and>
    subseq kept (compressed_queue c @ concat (map payloads arrivals)) \<and>
    subseq (out @ playback_queue c') (playback_queue c @ pcm_stream dec (pcm_decbuf c) d kept) \<and>
    (writes_fully env \<longrightarrow> out @ playback_queue c' = playback_queue c @ pcm_stream dec (pcm_decbuf c) d kept) \<and>
    (\<not> lost \<and> \<not> should_stop c \<and> healthy c \<longrightarrow>
       subseq (out @ expected dec (c', d', arrivals', lost)) (expected dec (c, d, arrivals, lost0)) \<and>
       (writes_fully env \<longrightarrow> out @ expected dec (c', d', arrivals', lost) = expected dec (c, d, arrivals, lost0)))"
  by (rule thread_stream [OF assms])

text \<open>All writes are accepted, and the shutdown flag is seen after the first of them.\<close>

definition one_round_pa :: pa_env where
  "one_round_pa = sample_pa\<lparr>shutdown_seen := (\<lambda>h. 8 \<le> length h)\<rparr>"

lemma one_round:
  assumes "live_cb dec (replicate 3840 0) m = (n, dst', m')" and "0 < n"
  shows "\<exists>b' tr'. call_virtual_input_setup 2 2 one_round_pa dec (m, fresh_backend, []) = Some (m', b', tr')"
proof -
  have len: "length dst' = 3840" "n \<le> 3840"
    using lossy_stream.buffer_length [OF assms(1)] lossy_stream.produced_le [OF assms(1)] by simp_all
  then have clamp: "(if n > length dst' then length dst' else n) = n" by simp
  from len have "dst' \<noteq> []" by auto
  have "setup_virtual_input 2 one_round_pa fresh_backend [] = setup_virtual_input 2 sample_pa fresh_backend []"
    by (simp add: setup_virtual_input_eq cleanup_stale_virtual_sources_def one_round_pa_def pa_module_list_cb_def
        numeral_2_eq_2 open_fifo_simps pa_load_module_cb_def pa_invalid_index_def fresh_backend_def Let_def)
  then obtain tr5 where su: "setup_virtual_input 2 one_round_pa fresh_backend [] = Some (Inr (), running_backend, tr5)"
      and tr5: "length tr5 = 5"
    using setup_sample [of 1 "[]"] by (simp add: numeral_2_eq_2)
  have rb: "virtual_source_loaded running_backend" "virtual_source_fd running_backend = 5" "virtual_input_error running_backend = []"
    by (simp_all add: running_backend_def fresh_backend_def)
  have pa: "shutdown_seen one_round_pa h = (8 \<le> length h)" "stop_seen one_round_pa h = False"
    "write_result one_round_pa h bs = Inr (length bs)" for h bs
    by (simp_all add: one_round_pa_def)
  obtain b' tr' where run: "run_virtual_input 2 2 one_round_pa (Some (no_throw (live_cb dec)))
      (running_backend, m, tr5) = Some (Inr (), b', m', tr')"
    using tr5 \<open>dst' \<noteq> []\<close> assms(2) len
    by (simp add: run_virtual_input_def rb pa run_loop.simps write_pending_simps numeral_2_eq_2 no_throw_def assms(1) Let_def)
  show ?thesis by (simp add: call_virtual_input_setup_def create_virtual_input_def su run)
qed

lemma one_round_env: "posix_write one_round_pa" "writes_fully one_round_pa"
  by (simp_all add: posix_write_def writes_fully_def one_round_pa_def)

lemma toy_pcm:
  "2 \<le> length buf \<Longrightarrow> pcm_stream toy_decoder buf d ([b] # fs) =
     [b, 0, b, 0] @ pcm_stream toy_decoder (overwrite buf [ucast b, ucast b]) (Suc d) fs"
  "pcm_stream toy_decoder buf d ([] # fs) = pcm_stream toy_decoder (overwrite buf []) (Suc d) fs"
proof -
  have "drop_bit 8 (ucast b :: sample) = 0"
    by (rule bit_word_eqI) (auto simp: bit_simps dest: bit_imp_le_length)
  moreover have "ucast (ucast b :: sample) = b"
    by (rule bit_word_eqI) (auto simp: bit_simps)
  ultimately have s: "sample_bytes (ucast b) = [b, 0]" by (simp add: sample_bytes_def)
  assume "2 \<le> length buf"
  then obtain x y r where "buf = x # y # r"
    by (metis (no_types) Suc_le_length_iff numeral_2_eq_2)
  then have "take 4 (bytes_of_samples (overwrite buf [ucast b, ucast b])) = [b, 0, b, 0]"
    by (simp add: overwrite_def bytes_of_samples_def s)
  then show "pcm_stream toy_decoder buf d ([b] # fs) =
     [b, 0, b, 0] @ pcm_stream toy_decoder (overwrite buf [ucast b, ucast b]) (Suc d) fs"
    by (simp add: toy_decoder_def)
qed (simp add: toy_decoder_def)

definition toy_frame :: rtp_frame where
  "toy_frame = \<lparr>payload = Some [3], dgram_size = 13\<rparr>"

theorem microphone_stream_witness:
  "\<exists>c' d' arrivals' b' tr'. call_virtual_input_setup 2 2 one_round_pa toy_decoder ((toy_client, 0, [[toy_frame]], False), fresh_backend, []) =
       Some ((c', d', arrivals', False), b', tr') \<and> accepted tr' = [9, 1, 0, 1, 0, 2, 0, 2, 0, 3, 0, 3, 0]"
proof -
  let ?c1 = "toy_client\<lparr>compressed_queue := [[1], [], [2], [3]], frames_received := 1\<rparr>"
  have c1: "fst (recv_all [toy_frame] toy_client) = ?c1"
    by (simp add: recv_callback_def toy_frame_def toy_client_def client_init_def enqueue_frame_def
        max_compressed_queue_frames_def)
  obtain n dst' c' d' where w: "write_cb toy_decoder (replicate 3840 0) (?c1, 0) = (n, dst', c', d')"
    by (metis surj_pair)
  have rem: "remaining toy_decoder ?c1 0 = [9, 1, 0, 1, 0, 2, 0, 2, 0, 3, 0, 3, 0]"
    by (simp add: remaining_def toy_client_def client_init_def toy_pcm del: pcm_stream.simps(2))
  have "\<not> should_stop ?c1" "healthy ?c1" by (simp_all add: toy_client_def client_init_def)
  from write_cb_remaining [OF w this] rem have n: "n = 13" and empty: "remaining toy_decoder c' d' = []" by simp_all
  have "\<not> overflows [toy_frame] toy_client"
    by (simp add: overflows_def toy_client_def client_init_def toy_frame_def max_compressed_queue_frames_def)
  with w c1 have l: "live_cb toy_decoder (replicate 3840 0) (toy_client, 0, [[toy_frame]], False) = (n, dst', c', d', [], False)"
    by (simp only: live_cb_def next_batch_def prod.case list.case Let_def c1 w list.sel) simp
  obtain b' tr' where r: "call_virtual_input_setup 2 2 one_round_pa toy_decoder ((toy_client, 0, [[toy_frame]], False), fresh_backend, []) =
      Some ((c', d', [], False), b', tr')"
    using one_round [OF l] n by auto
  have live: "\<not> should_stop toy_client" "healthy toy_client" by (simp_all add: toy_client_def client_init_def)
  have "expected toy_decoder (c', d', [], False) = []"
    using empty by (simp add: expected_remaining split: prod.splits)
  moreover have "expected toy_decoder (toy_client, 0, [[toy_frame]], False) = [9, 1, 0, 1, 0, 2, 0, 2, 0, 3, 0, 3, 0]"
    by (simp add: expected_def toy_client_def client_init_def toy_frame_def toy_pcm del: pcm_stream.simps(2))
  ultimately show ?thesis using microphone_stream [OF one_round_env(1) r] live one_round_env(2) r by (auto simp: accepted_def)
qed

section \<open>Whole stereo samples\<close>

lemma pcm_stream_whole:
  "even (length buf) \<Longrightarrow> 4 dvd length (pcm_stream dec buf d fs)"
proof (induction fs arbitrary: buf d)
  case (Cons f fs)
  obtain ret out d1 where de: "dec d f = (ret, out, d1)" by (cases "dec d f")
  have "4 dvd min (2 * length buf) (nat ret * 2 * 2)"
    using Cons.prems by (auto simp: min_def elim!: evenE)
  with Cons.IH [of "overwrite buf out" d1] Cons.prems de show ?case by (simp add: dvd_add)
qed simp

lemma write_cb_whole:
  assumes "write_cb dec dst (c, d) = (n, dst', c', d')" and "even (length (pcm_decbuf c))" and "4 dvd length (playback_queue c)"
    and "4 dvd length dst"
  shows "4 dvd n \<and> even (length (pcm_decbuf c')) \<and> 4 dvd length (playback_queue c')"
proof -
  have n: "4 dvd n"
  proof (cases "should_stop c \<or> \<not> healthy c")
    case True
    with assms(1) show ?thesis by (auto simp: write_cb_def split: if_splits)
  next
    case False
    have "4 dvd length (remaining dec c d)"
      unfolding remaining_def length_append by (rule dvd_add [OF assms(3) pcm_stream_whole [OF assms(2)]])
    moreover have "n = min (length dst) (length (remaining dec c d))"
      using write_cb_remaining [OF assms(1)] False by simp
    ultimately show ?thesis using assms(4) by (simp add: min_def)
  qed
  obtain fs where "take n dst' @ playback_queue c' = playback_queue c @ pcm_stream dec (pcm_decbuf c) d fs"
    using write_cb_takes_frames [OF assms(1)] by blast
  then have "length (take n dst') + length (playback_queue c') = length (playback_queue c) + length (pcm_stream dec (pcm_decbuf c) d fs)"
    by (metis length_append)
  moreover have "length (take n dst') = n" "length (pcm_decbuf c') = length (pcm_decbuf c)"
    using write_cb_spec [OF assms(1)] by (auto dest: pcm_frame_fields)
  ultimately have "4 dvd n + length (playback_queue c')" "even (length (pcm_decbuf c'))"
    using assms(2,3) pcm_stream_whole [OF assms(2), of dec d fs] by (simp_all only: dvd_add)
  with n show ?thesis by (simp add: dvd_add_right_iff)
qed

text \<open>Between two calls of the write callback whole stereo samples are queued.\<close>

definition whole_samples :: "'d mic \<Rightarrow> bool" where
  "whole_samples = (\<lambda>(c, d, arrivals, lost). even (length (pcm_decbuf c)) \<and> 4 dvd length (playback_queue c))"

lemma live_cb_whole:
  assumes "live_cb dec dst m = (n, dst', m')" and "whole_samples m" and "length dst = 3840"
  shows "whole_samples m' \<and> 4 dvd n"
proof -
  obtain c d arrivals lost c' d' arrivals' lost' where m: "m = (c, d, arrivals, lost)" "m' = (c', d', arrivals', lost')"
    by (cases m, cases m')
  let ?c1 = "fst (recv_all (next_batch arrivals) c)"
  have w: "write_cb dec dst (?c1, d) = (n, dst', c', d')"
    using assms(1) by (auto simp: m live_cb_def Let_def split: prod.splits)
  have "even (length (pcm_decbuf ?c1))" "4 dvd length (playback_queue ?c1)"
    using assms(2) recv_all_queue [of "next_batch arrivals" c] by (simp_all add: m whole_samples_def)
  from write_cb_whole [OF w this] assms(3) show ?thesis by (simp add: m whole_samples_def)
qed

text \<open>Channels are never swapped and samples never split. The FIFO is a pipe in non-blocking mode, which
  takes the at most 3840 bytes of one buffer whole or not at all, and the program drops what it does not
  take. Even so, if whole stereo samples were queued when the thread of the virtual microphone started,
  the bytes the FIFO accepts are whole stereo samples of four bytes, whatever is lost, whatever the
  decoder answers and however the thread ends.\<close>

theorem samples_stay_whole:
  assumes "pipe_write env" and "even (length (pcm_decbuf c))" and "4 dvd length (playback_queue c)"
    and "call_virtual_input_setup fuel wfuel env dec ((c, d, arrivals, lost0), b, tr) = Some (m', b', tr')"
  shows "\<exists>out. accepted tr' = accepted tr @ out \<and> 4 dvd length out"
proof -
  obtain c' x' where m': "m' = (c', x')" by (cases m')
  from assms(4) [unfolded m'] obtain res b1 c1 where cr: "create_virtual_input fuel wfuel env (Some (no_throw (live_cb dec)))
      (b, (c, d, arrivals, lost0), tr) = Some (res, b1, (c1, x'), tr')" by (rule thread_runs)
  have start: "whole_samples (c, d, arrivals, lost0)" using assms(2,3) by (simp add: whole_samples_def)
  show ?thesis
    using lossy_stream.create_chunks [where P = whole_samples and m = 4, OF assms(1) live_cb_whole start cr] by simp
qed

theorem samples_stay_whole_witness:
  "\<exists>m' b' tr'. call_virtual_input_setup 2 2 one_round_pa toy_decoder ((toy_client\<lparr>playback_queue := [9, 9, 9, 9]\<rparr>, 0, [], False), fresh_backend, []) =
     Some (m', b', tr') \<and> accepted tr' \<noteq> [] \<and> 4 dvd length (accepted tr')"
proof -
  let ?c = "toy_client\<lparr>playback_queue := [9, 9, 9, 9]\<rparr>"
  obtain n dst' m' where l: "live_cb toy_decoder (replicate 3840 0) (?c, 0, [], False) = (n, dst', m')" by (metis surj_pair)
  then obtain c' d' where w: "write_cb toy_decoder (replicate 3840 0) (?c, 0) = (n, dst', c', d')" and m': "m' = (c', d', [], overflows [] ?c)"
    by (auto simp: live_cb_def next_batch_def split: prod.splits)
  have live: "\<not> should_stop ?c" "healthy ?c" by (simp_all add: toy_client_def client_init_def)
  have "remaining toy_decoder ?c 0 = [9, 9, 9, 9, 1, 0, 1, 0, 2, 0, 2, 0]"
    by (simp add: remaining_def toy_client_def client_init_def toy_pcm del: pcm_stream.simps(2))
  with write_cb_remaining [OF w live] have n: "n = 12" "remaining toy_decoder c' d' = []" by simp_all
  from one_round [OF l] n(1) obtain b' tr' where r: "call_virtual_input_setup 2 2 one_round_pa toy_decoder
      ((?c, 0, [], False), fresh_backend, []) = Some (m', b', tr')" by auto
  have "playback_queue c' = []" using n(2) by (simp add: remaining_def)
  with thread_stream [OF one_round_env(1) r [unfolded m']] one_round_env(2) have "accepted tr' \<noteq> []" by auto
  moreover have four: "4 dvd length (playback_queue ?c)" by (simp add: numeral_eq_Suc)
  have "pipe_write one_round_pa" "even (length (pcm_decbuf ?c))" by (simp_all add: pipe_write_def one_round_pa_def toy_client_def)
  from samples_stay_whole [OF this four r] have "4 dvd length (accepted tr')" by (auto simp: accepted_def)
  ultimately show ?thesis using r by blast
qed

lemma open_fifo_throws:
  "open_fifo fuel env b tr = Some (Inl err, b', tr') \<Longrightarrow> \<exists>b0. b' = set_virtual_input_error err b0"
proof (induction fuel arbitrary: b tr)
  case (Suc fuel)
  then show ?case
    by (fastforce simp: open_fifo_simps(2) Let_def die_def split: if_splits sum.splits)
qed (simp add: open_fifo_simps)

lemma setup_throws:
  assumes "setup_virtual_input fuel env b tr = Some (Inl err, b', tr')"
  shows "\<exists>b0. b' = set_virtual_input_error err b0"
  using assms
  by (auto simp: setup_virtual_input_eq Let_def die_def dest: open_fifo_throws
      split: if_splits sum.splits option.splits)

lemma create_playback_off:
  assumes "create_virtual_input fuel wfuel env cb (b, s, tr) = Some (res, b1, s1, tr1)"
  shows "\<not> playback b1"
proof -
  obtain r b0 tr0 where su: "setup_virtual_input fuel env b tr = Some (r, b0, tr0)"
    using assms by (auto simp: create_virtual_input_def split: option.splits)
  show ?thesis
  proof (cases r)
    case (Inl err)
    with assms su setup_throws [OF su [unfolded Inl]] show ?thesis by (auto simp: create_virtual_input_def)
  next
    case (Inr u)
    with assms su have run: "run_virtual_input fuel wfuel env cb (b0, s, tr0) = Some (res, b1, s1, tr1)"
      by (simp add: create_virtual_input_def)
    from run_virtual_input_outcome [OF run, of "[]"] show ?thesis by (cases res) auto
  qed
qed

text \<open>When the microphone thread ends. If creating or running the virtual input throws, a client
  that was healthy is unhealthy and told to stop, both run flags are off, and the client keeps the
  reason; if it returns, the client is still healthy. Either way playback is off.\<close>

theorem microphone_failure:
  assumes "create_virtual_input fuel wfuel env (write_callback (install_write_callback dec cbs)) (b, (c, x), tr) = Some (res, b1, (c1, x1), tr1)"
    and "healthy c"
  shows "\<exists>c' b'. call_virtual_input_setup fuel wfuel env dec ((c, x), b, tr) = Some ((c', x1), b', tr1) \<and>
    \<not> playback b' \<and>
    (case res of
       Inr u \<Rightarrow> c' = c1 \<and> b' = b1 \<and> is_healthy c'
     | Inl what \<Rightarrow> \<not> is_healthy c' \<and> should_stop c' \<and> \<not> recording b' \<and>
         last_error c' = ''Could not create virtual input, reason: '' @ what)"
proof -
  note cr = assms(1) [unfolded write_callback_installed]
  from assms(2) create_flags [OF cr] create_playback_off [OF cr] show ?thesis
    by (cases res) (simp_all add: call_virtual_input_setup_def cr set_error_def is_healthy_def stop_recording_def)
qed

theorem microphone_failure_witness:
  "\<exists>c' b' tr'. call_virtual_input_setup 1 1 (sample_pa\<lparr>load_result := (\<lambda>h. NullOp)\<rparr>) toy_decoder ((toy_client, 0, [], False), fresh_backend, []) =
     Some ((c', 0, [], False), b', tr') \<and> \<not> is_healthy c' \<and>
     last_error c' = ''Could not create virtual input, reason: Could not create virtual input: PulseAudio did not create an operation.''"
proof -
  let ?cbs = "no_callbacks :: (unit, _) callbacks"
  obtain b1 tr1 where r: "create_virtual_input 1 1 (sample_pa\<lparr>load_result := (\<lambda>h. NullOp)\<rparr>) (write_callback (install_write_callback toy_decoder ?cbs))
      (fresh_backend, (toy_client, 0, [], False), []) =
      Some (Inl ''Could not create virtual input: PulseAudio did not create an operation.'', b1, (toy_client, 0, [], False), tr1)"
    by (simp add: create_virtual_input_def setup_virtual_input_eq die_def fresh_backend_def Let_def)
  have "healthy toy_client" by (simp add: toy_client_def client_init_def)
  from microphone_failure [OF r this] show ?thesis by auto
qed

text \<open>The stream write callback with the client's audio. A buffer of any size is always written
  whole: the client's undelivered bytes as far as they fit, then silence; only a failed write ends
  playback.\<close>

theorem stream_write_with_client:
  assumes "0 < n" and "\<not> should_stop c" and "healthy c"
  shows "case stream_write_cb (Some (write_cb dec)) n status a (c, d) of
     (written, produced, a', c', d') \<Rightarrow>
       written = Some (take n (remaining dec c d) @ replicate (n - length (remaining dec c d)) 0) \<and>
       produced = min n (length (remaining dec c d)) \<and>
       remaining dec c' d' = drop n (remaining dec c d) \<and>
       a' = (if status \<noteq> 0 then a\<lparr>playback := False\<rparr> else a)"
proof -
  obtain k pcm c' d' where w: "write_cb dec (replicate n 0) (c, d) = (k, pcm, c', d')" by (metis surj_pair)
  note rem = write_cb_remaining [OF w assms(2,3), unfolded length_replicate]
  have k: "k = min n (length (remaining dec c d))" "take k pcm = take n (remaining dec c d)"
      "remaining dec c' d' = drop n (remaining dec c d)"
    by (use rem in blast)+
  have "n - k = n - length (remaining dec c d)" using k(1) by simp
  with client_pcm.stream_write_padded [OF assms(1) w, of status a] k show ?thesis by simp
qed

theorem stream_write_with_client_witness:
  "\<exists>produced a' c' d'. stream_write_cb (Some (write_cb toy_decoder)) 12 0 \<lparr>recording = False, playback = True\<rparr> (toy_client, 0) =
     (Some [9, 1, 0, 1, 0, 2, 0, 2, 0, 0, 0, 0], produced, a', c', d') \<and> playback a'"
proof -
  have rem: "remaining toy_decoder toy_client 0 = [9, 1, 0, 1, 0, 2, 0, 2, 0]"
    by (simp add: remaining_def toy_client_def toy_decoder_def client_init_def overwrite_def
        bytes_of_samples_def sample_bytes_def)
  have live: "\<not> should_stop toy_client" "healthy toy_client" by (simp_all add: toy_client_def client_init_def)
  obtain w p a' c' d' where r: "stream_write_cb (Some (write_cb toy_decoder)) 12 0 \<lparr>recording = False, playback = True\<rparr> (toy_client, 0) =
     (w, p, a', c', d')" by (metis surj_pair)
  from stream_write_with_client [of 12, OF _ live, where dec = toy_decoder and status = 0
      and a = "\<lparr>recording = False, playback = True\<rparr>" and d = 0] r rem
  show ?thesis by (simp add: numeral_3_eq_3)
qed

end
