(* ===== verification/Main_Prog.thy ===== *)
theory Main_Prog
  imports Config Keys Virtual_Mic Server Shutdown
begin

text \<open>
  \<open>src/main.cpp\<close>: the signal handler, the command line, and the two modes of the program composed from
  the models of the components. \<open>None\<close> is a program that is still running. The singleton backend is
  constructed by the first call of \<open>AudioBackend::instance\<close> that a mode makes and destroyed when the
  process exits.
\<close>

section \<open>Signals\<close>

datatype asio_error = No_Error | Operation_Aborted | Asio_Error string

text \<open>The state is the shutdown flag and whether the \<open>io_context\<close> was stopped. The handler looks its logger up
  by name and uses it; \<open>logger\<close> says whether \<open>main\<close> has created it yet.\<close>

definition asio_signal_handler :: "asio_error \<Rightarrow> bool \<Rightarrow> shutdown_state \<times> bool \<Rightarrow> crash + shutdown_state \<times> bool" where
  "asio_signal_handler error logger = (\<lambda>(sd, io_stopped).
     if \<not> logger then Inl NullDeref
     else if error = No_Error then Inr (request_shutdown sd, True)
     else Inr (sd, io_stopped))"

section \<open>Command line\<close>

text \<open>How the process ends: an exit code, \<open>abort()\<close>, or undefined behaviour.\<close>

datatype exit_status = Exited int | Aborted | Undefined

definition print_usage :: string where
  "print_usage = ''Usage: audpipe (client | server)'' @ [CHR 0x0A, CHR 0x0A]
     @ ''Or run with --help to see more options'' @ [CHR 0x0A]"

definition print_help :: string where
  "print_help = ''audpipe (client | server)'' @ [CHR 0x0A] @ ''Flags:'' @ [CHR 0x0A]
     @ [CHR 0x09] @ ''-h, --help'' @ [CHR 0x09, CHR 0x09] @ ''Display a list of flags and options.'' @ [CHR 0x0A]
     @ [CHR 0x09] @ ''-c, --config'' @ [CHR 0x09, CHR 0x09] @ ''Override the default config file.'' @ [CHR 0x0A]
     @ [CHR 0x09] @ ''-d, --daemonise'' @ [CHR 0x09, CHR 0x09] @ ''Run in the background. Currently a no-op.'' @ [CHR 0x0A]
     @ [CHR 0x09] @ ''-v'' @ [CHR 0x09, CHR 0x09, CHR 0x09] @ ''Verbose logging (enables debug logs).'' @ [CHR 0x0A]
     @ [CHR 0x0A] @ ''Client mode: creates a virtual input and recieves audio from '' @ ''remote server.'' @ [CHR 0x0A]
     @ ''Server mode: records from a given input device and forwards to a '' @ ''remote client.'' @ [CHR 0x0A]"

text \<open>Either what is printed and how the process exits, or the mode.\<close>

definition parse_subcommand :: "string list \<Rightarrow> (string \<times> exit_status) + mode" where
  "parse_subcommand argv =
     (if length argv < 2 then Inl (print_usage, Exited 1)
      else if argv ! 1 = ''client'' then Inr CLIENT
      else if argv ! 1 = ''server'' then Inr SERVER
      else if argv ! 1 = ''--help'' \<or> argv ! 1 = ''-h'' then Inl (print_help, Exited 0)
      else Inl (print_usage, Exited 1))"

section \<open>Client mode\<close>

text \<open>
  The loop of \<open>main\<close> that polls, ten times a second, the shutdown flag and the client's health; the
  argument \<open>k\<close> counts the polls. Other threads change both, so they are functions of the poll.
\<close>

fun monitor :: "nat \<Rightarrow> (nat \<Rightarrow> bool) \<Rightarrow> (nat \<Rightarrow> bool) \<Rightarrow> nat \<Rightarrow> nat option" where
  "monitor 0 shut healthy_at k = None"
| "monitor (Suc fuel) shut healthy_at k =
     (if \<not> shut k \<and> healthy_at k then monitor fuel shut healthy_at (Suc k) else Some k)"

text \<open>
  \<open>~Client\<close>: the decoder is destroyed, the thread joined, then the members go, \<open>rtp\<close> among them.
\<close>

definition destroy_client :: "client \<times> uvg_call list \<Rightarrow> client \<times> uvg_call list" where
  "destroy_client = (\<lambda>(c, tr).
     let c1 = c\<lparr>decoder_open := False, thread_started := False\<rparr>
     in case client_rtp c1 of
          None \<Rightarrow> (c1, tr)
        | Some r \<Rightarrow> (case destroy_rtp (r, tr) of (r1, tr1) \<Rightarrow> (c1\<lparr>client_rtp := None\<rparr>, tr1)))"

text \<open>
  The client branch of \<open>main\<close>, from the first call of \<open>AudioBackend::instance\<close>, which the constructor of
  \<open>Client\<close> makes whether or not it gets a decoder: if it throws, that exception leaves the constructor.
  The thread of the virtual microphone is run to its end, with the frames that arrive meanwhile, before
  the shutdown that \<open>~Client\<close> joins it in; what it sees of that shutdown is in the environment
  (\<open>stop_seen\<close>, \<open>shutdown_seen\<close>).
\<close>

definition main_client ::
    "nat \<Rightarrow> nat \<Rightarrow> nat \<Rightarrow> pa_env \<Rightarrow> uvg_env \<Rightarrow> (nat \<Rightarrow> bool) \<Rightarrow> (nat \<Rightarrow> bool) \<Rightarrow> 'd opus_decoder \<Rightarrow> int
       \<Rightarrow> (int \<Rightarrow> string) \<Rightarrow> nat \<Rightarrow> rtp_frame list list \<Rightarrow> config \<Rightarrow> 'd \<times> uvg_call list \<times> history
       \<Rightarrow> (exit_status \<times> uvg_call list \<times> history) option" where
  "main_client fuel wfuel mfuel pa env shut healthy_at dec opus_error opus_strerror self arrivals cfg = (\<lambda>(d, tr, h).
     case backend_instance pa None h of
       None \<Rightarrow> None
     | Some (Inl err, h1) \<Rightarrow> Some (Exited 1, tr, exit_process pa None h1)
     | Some (Inr b, h1) \<Rightarrow>
         (case new_client env shut opus_error opus_strerror self (local_ip cfg, local_port cfg)
                 (remote_ip cfg, remote_port cfg) (connection cfg) tr b 0 of
            (Inl (Abort m), s) \<Rightarrow> Some (Aborted, conn_calls s, h1)
          | (Inl (Throw m), s) \<Rightarrow> Some (Exited 1, conn_calls s, exit_process pa (Some (conn_audio s)) h1)
          | (Inr u, s) \<Rightarrow>
              (case call_virtual_input_setup fuel wfuel pa dec ((conn_client s, d, arrivals, False), conn_audio s, h1) of
                 None \<Rightarrow> None
               | Some ((c1, x1), b1, h2) \<Rightarrow> (case monitor mfuel shut healthy_at (polls s) of
                   None \<Rightarrow> None
                 | Some k \<Rightarrow> (case client_request_shutdown (c1, conn_calls s, b1) of
                     (c2, tr1, b2) \<Rightarrow> (case destroy_client (c2, tr1) of
                       (c3, tr2) \<Rightarrow> Some (Exited 0, tr2, exit_process pa (Some b2) h2)))))))"

section \<open>Server mode\<close>

text \<open>\<open>AudioBackend::instance().record\<close> with that callback installed.\<close>

definition backend_record :: "nat \<Rightarrow> pa_env \<Rightarrow> uvg_env \<Rightarrow> 'e opus_encoder \<Rightarrow> (int \<Rightarrow> string) \<Rightarrow> audio_device
    \<Rightarrow> server \<times> 'e \<times> uvg_call list \<times> backend \<times> history
    \<Rightarrow> ((string + unit) \<times> server \<times> 'e \<times> uvg_call list \<times> backend \<times> history) option" where
  "backend_record fuel pa env enc opus_strerror dev = (\<lambda>(s, e, tr, b, h).
     map_option (\<lambda>(res, b1, (s1, e1, tr1), h1). (res, s1, e1, tr1, b1, h1))
       (record_device fuel pa (data_callback (install_data_callback env enc opus_strerror
          (no_callbacks :: (_, unit) callbacks))) dev (b, (s, e, tr), h)))"

text \<open>The server branch of \<open>main\<close>; \<open>line\<close> is what the user types and \<open>op\<close> the device listing.\<close>

definition main_server ::
    "nat \<Rightarrow> pa_env \<Rightarrow> uvg_env \<Rightarrow> 'e opus_encoder \<Rightarrow> int \<Rightarrow> (int \<Rightarrow> string) \<Rightarrow> (device_info option \<times> int) operation
       \<Rightarrow> string \<Rightarrow> config \<Rightarrow> 'e \<times> uvg_call list \<times> history
       \<Rightarrow> (exit_status \<times> uvg_call list \<times> history) option" where
  "main_server fuel pa env enc opus_error opus_strerror op line cfg = (\<lambda>(e, tr, h0).
     case backend_instance pa None h0 of
       None \<Rightarrow> None
     | Some (Inl err, h) \<Rightarrow> Some (Exited 1, tr, exit_process pa None h)
     | Some (Inr b, h) \<Rightarrow> (case get_inputs op of
         Inl (Thrown m) \<Rightarrow> Some (Exited 1, tr, exit_process pa (Some b) h)
       | Inl (Crashed c) \<Rightarrow> Some (Undefined, tr, h)
       | Inr inputs \<Rightarrow> (case choose_device_interactive line inputs of
           Inl out_of_range \<Rightarrow> Some (Exited 1, tr, exit_process pa (Some b) h)
         | Inr dev \<Rightarrow> (case new_server env opus_error opus_strerror (local_ip cfg, local_port cfg)
                          (remote_ip cfg, remote_port cfg) dev tr of
             (Inl (Abort m), tr1) \<Rightarrow> Some (Aborted, tr1, h)
           | (Inl (Throw m), tr1) \<Rightarrow> Some (Exited 1, tr1, exit_process pa (Some b) h)
           | (Inr s, tr1) \<Rightarrow>
               (case server_run (backend_record fuel pa env enc opus_strerror) (s, e, tr1, b, h) of
                  None \<Rightarrow> None
                | Some (Inl err, s1, e1, tr2, b1, h1) \<Rightarrow>
                    (case destroy_server (s1, tr2, b1) of
                       (s2, tr3, b2) \<Rightarrow> Some (Exited 1, tr3, exit_process pa (Some b2) h1))
                | Some (Inr u, s1, e1, tr2, b1, h1) \<Rightarrow>
                    (case destroy_server (server_stop (s1, tr2, b1)) of
                       (s2, tr3, b2) \<Rightarrow> Some (Exited 0, tr3, exit_process pa (Some b2) h1)))))))"

section \<open>The program\<close>

definition main_prog ::
    "config_env \<Rightarrow> ('sk, 'pk) key_env \<Rightarrow> 'sk \<Rightarrow> (config \<Rightarrow> 'r) \<Rightarrow> (config \<Rightarrow> 'r) \<Rightarrow> (exit_status \<Rightarrow> 'r)
       \<Rightarrow> string list \<Rightarrow> key_fs \<Rightarrow> 'r \<times> key_fs" where
  "main_prog cenv kenv fresh run_client run_server finish argv fs =
     (case parse_subcommand argv of
        Inl (text, status) \<Rightarrow> (finish status, fs)
      | Inr m \<Rightarrow> (case new_config cenv ''./audpipe.toml'' m of
          Inl ReadPastEnd \<Rightarrow> (finish Undefined, fs)
        | Inl err \<Rightarrow> (finish (Exited 1), fs)
        | Inr cfg \<Rightarrow> (case load_or_create kenv fresh (new_key_manager (keys_dir cfg) ''audpipe'', fs) of
            (Inl err, km, fs1) \<Rightarrow> (finish (Exited 1), fs1)
          | (Inr u, km, fs1) \<Rightarrow> (if m = CLIENT then run_client cfg else run_server cfg, fs1))))"

end
