(* ===== verification/Sender.thy ===== *)
theory Sender
  imports Server_Facts Recording Main_Prog
begin

text \<open>
  The sending side end to end: the data callback of \<open>Server\<close> driven by the recording loop of
  \<open>Backend\<close>, against the packets the captured audio ought to become.
\<close>

section \<open>The packets of a recording\<close>

text \<open>The specification: fragment by fragment, in order, each fragment long enough gives the
  encoder one frame, and each non-empty packet it makes is sent; the first failure of the encoder ends
  the stream. \<open>first_failure\<close> is its error code.\<close>

fun packets :: "'e opus_encoder \<Rightarrow> audio_device \<Rightarrow> 'e \<Rightarrow> byte list list \<Rightarrow> byte list list" where
  "packets enc dev e [] = []"
| "packets enc dev e (f # fs) = (case encoder_input dev f of
     None \<Rightarrow> packets enc dev e fs
   | Some inp \<Rightarrow> (case enc e inp 3840 of (n, out, e') \<Rightarrow>
       if n < 0 then [] else (if out = [] then [] else [out]) @ packets enc dev e' fs))"

fun first_failure :: "'e opus_encoder \<Rightarrow> audio_device \<Rightarrow> 'e \<Rightarrow> byte list list \<Rightarrow> int option" where
  "first_failure enc dev e [] = None"
| "first_failure enc dev e (f # fs) = (case encoder_input dev f of
     None \<Rightarrow> first_failure enc dev e fs
   | Some inp \<Rightarrow> (case enc e inp 3840 of (n, out, e') \<Rightarrow>
       if n < 0 then Some n else first_failure enc dev e' fs))"

abbreviation server_cb :: "uvg_env \<Rightarrow> 'e opus_encoder \<Rightarrow> (int \<Rightarrow> string) \<Rightarrow> (server \<times> 'e \<times> uvg_call list) data_callback" where
  "server_cb env enc opus_strerror \<equiv> (\<lambda>data. server_data_callback env enc opus_strerror (Some data))"

lemma server_cb_keeps:
  assumes "server_ok s" and "is_initialised (srv_rtp s)"
    and "server_data_callback env enc opus_strerror d (s, e, tr) = (res, s', e', tr')"
  shows "server_ok s'" "srv_rtp s' = srv_rtp s" "device s' = device s" "live_sessions tr' = live_sessions tr"
proof -
  obtain r s1 e1 where b: "bytes_to_opus enc opus_strerror d s e = (r, s1, e1)" by (metis surj_pair)
  have f: "server_ok s1" "srv_rtp s1 = srv_rtp s" "device s1 = device s"
    using bytes_to_opus_fields [OF assms(1), of enc opus_strerror d e] b by simp_all
  have w: "x = srv_rtp s \<and> live_sessions t = live_sessions tr" if "write_frames env fr (srv_rtp s, tr) = (x, t)" for fr x t
    using assms(2) that by (auto simp: write_frames_live trace_simps)
  have "server_ok s' \<and> srv_rtp s' = srv_rtp s \<and> device s' = device s \<and> live_sessions tr' = live_sessions tr"
    using b f assms(3)
    by (cases r) (auto simp: server_data_callback_def Let_def server_ok_def dest: w split: if_splits prod.splits)
  then show "server_ok s'" "srv_rtp s' = srv_rtp s" "device s' = device s" "live_sessions tr' = live_sessions tr"
    by simp_all
qed

lemma consume_server_keeps:
  assumes "server_ok s" and "is_initialised (srv_rtp s)"
    and "consume (server_cb env enc opus_strerror) fs (s, e, tr) = (res, s', e', tr')"
  shows "server_ok s' \<and> srv_rtp s' = srv_rtp s \<and> device s' = device s \<and> live_sessions tr' = live_sessions tr"
proof -
  let ?P = "\<lambda>(s', e', tr'). server_ok s' \<and> srv_rtp s' = srv_rtp s \<and> device s' = device s \<and> live_sessions tr' = live_sessions tr"
  have "?P (snd (consume (server_cb env enc opus_strerror) fs (s, e, tr)))"
  proof (rule consume_invariant [where P = ?P])
    show "?P (s, e, tr)" using assms(1) by simp
    show "?P q" if "?P p" and "server_cb env enc opus_strerror d p = (r, q)" for d p r q
      using that assms(2) server_cb_keeps [of "fst p" env enc opus_strerror "Some d" "fst (snd p)" "snd (snd p)" r "fst q" "fst (snd q)" "snd (snd q)"]
      by (auto split: prod.splits)
  qed
  with assms(3) show ?thesis by simp
qed

lemma consume_packets:
  assumes "opus_encode_contract enc" and "server_ok s" and "is_initialised (srv_rtp s)"
    and "consume (server_cb env enc opus_strerror) fs (s, e, tr) = (res, s', e', tr')"
  shows "pushed_frames tr' = pushed_frames tr @ packets enc (device s) e fs \<and>
    res = (case first_failure enc (device s) e fs of
      None \<Rightarrow> Inr () | Some n \<Rightarrow> Inl (''Failed to encode opus frame. Reason: '' @ opus_strerror n))"
  using assms(2-4)
proof (induction fs arbitrary: s e tr)
  case Nil
  then show ?case by simp
next
  case (Cons f fs)
  obtain r s1 e1 tr1 where cb: "server_data_callback env enc opus_strerror (Some f) (s, e, tr) = (r, s1, e1, tr1)"
    by (metis surj_pair)
  note keep = server_cb_keeps [OF Cons.prems(1,2) cb] and step = data_callback_step [OF assms(1) Cons.prems(1,2) cb]
  have rest: "pushed_frames tr' = pushed_frames tr1 @ packets enc (device s1) e1 fs \<and>
      res = (case first_failure enc (device s1) e1 fs of
        None \<Rightarrow> Inr () | Some n \<Rightarrow> Inl (''Failed to encode opus frame. Reason: '' @ opus_strerror n))"
    if "r = Inr ()"
    by (rule Cons.IH) (use keep Cons.prems cb that in simp_all)
  show ?case
  proof (cases "encoder_input (device s) f")
    case None
    with step rest keep show ?thesis by simp
  next
    case (Some inp)
    obtain n out e2 where enc: "enc e inp 3840 = (n, out, e2)" by (cases "enc e inp 3840")
    show ?thesis
    proof (cases "n < 0")
      case True
      with step Some enc cb Cons.prems(3) show ?thesis by simp
    next
      case False
      with step rest keep Some enc show ?thesis by simp
    qed
  qed
qed

lemma record_packets:
  assumes "opus_encode_contract enc" and "server_ok s" and "is_initialised (srv_rtp s)"
    and "record_device fuel env (data_callback (install_data_callback uvg enc opus_strerror cbs)) (device s) (b, (s, e, tr), h) =
           Some (res, b', (s', e', tr'), h')"
  shows "\<exists>new. h' = h @ new \<and> pushed_frames tr' = pushed_frames tr @ packets enc (device s) e (captured new) \<and>
    srv_rtp s' = srv_rtp s \<and> device s' = device s \<and>
    (case first_failure enc (device s) e (captured new) of
       None \<Rightarrow> True | Some n \<Rightarrow> res = Inl (''Failed to encode opus frame. Reason: '' @ opus_strerror n))"
proof -
  from record_device_fed [OF assms(4) [unfolded data_callback_installed]] obtain thrown where
    fed: "fed (server_cb uvg enc opus_strerror) h (s, e, tr) h' (s', e', tr') thrown" and exc: "thrown \<noteq> Inr () \<Longrightarrow> res = thrown"
    by blast
  from fed obtain new where new: "h' = h @ new"
      "consume (server_cb uvg enc opus_strerror) (captured new) (s, e, tr) = (thrown, s', e', tr')"
    unfolding fed_def by blast
  from consume_packets [OF assms(1-3) new(2)] consume_server_keeps [OF assms(2,3) new(2)] new(1) exc show ?thesis
    by (intro exI [of _ new]) (auto split: option.splits)
qed

section \<open>Properties\<close>

text \<open>The sending pipeline. While \<open>record\<close> runs with the server's callback, the frames pushed to
  RTP are exactly the packets of the captured fragments: in the order captured, one per fragment that
  holds a frame, none twice and none invented, however the recording ends. If the encoder fails on a
  captured fragment, the packets stop before it and \<open>record\<close> throws the reason. The RTP object and the
  device are untouched.\<close>

theorem sender_pipeline:
  assumes "opus_encode_contract enc" and "server_ok s" and "is_initialised (srv_rtp s)"
    and "record_device fuel env (data_callback (install_data_callback uvg enc opus_strerror cbs)) (device s) (b, (s, e, tr), h) =
           Some (res, b', (s', e', tr'), h')"
  shows "\<exists>new. h' = h @ new \<and> pushed_frames tr' = pushed_frames tr @ packets enc (device s) e (captured new) \<and>
    srv_rtp s' = srv_rtp s \<and> device s' = device s \<and>
    (case first_failure enc (device s) e (captured new) of
       None \<Rightarrow> True | Some n \<Rightarrow> res = Inl (''Failed to encode opus frame. Reason: '' @ opus_strerror n))"
  by (rule record_packets [OF assms])

text \<open>A recording of one fragment of 1920 bytes from a mono device.\<close>

definition mono_pa :: pa_env where
  "mono_pa = capture_pa\<lparr>iterate_events := (\<lambda>h. [ReadEvent [PeekData (replicate 1920 7)]])\<rparr>"

lemma mono_input: "encoder_input (toy_device 1) (replicate 1920 7) = Some (dup_samples (replicate 960 1799))"
proof -
  have "sample_of_bytes 7 7 = 1799" by (simp add: sample_of_bytes_def)
  then have "samples_of_bytes (replicate (2 * k) (7 :: byte)) = replicate k 1799" for k
    by (induction k) simp_all
  from this [of 960] show ?thesis
    by (simp add: encoder_input_def toy_device_def new_audio_device_def)
qed

lemma toy_encode_dup: "toy_encoder e (dup_samples (replicate 960 1799)) 3840 = (1, [7], Suc e)"
proof -
  have "replicate 960 (1799 :: sample) = 1799 # replicate 959 1799"
    using replicate_Suc [of 959 "1799 :: sample"] by (simp del: replicate_Suc)
  then show ?thesis by (simp add: toy_encoder_def dup_samples_def)
qed

lemma mono_record:
  "\<exists>b' s' e' tr' h'. record_device 3 mono_pa (Some (server_cb sample_uvg toy_encoder (\<lambda>_. ''bad''))) (toy_device 1)
       (idle_backend, (toy_server 1, 0, []), []) = Some (Inr (), b', (s', e', tr'), h') \<and> captured h' = [replicate 1920 7] \<and>
     pushed_frames tr' = [[7]]"
proof -
  have dev: "device (toy_server 1) = toy_device 1" by (simp add: toy_server_def)
  obtain r s1 e1 tr1 where p: "server_data_callback sample_uvg toy_encoder (\<lambda>_. ''bad'') (Some (replicate 1920 7)) (toy_server 1, 0, []) = (r, s1, e1, tr1)"
    by (metis surj_pair)
  from data_callback_step [OF toy_encoder_contract toy_server_ok p] have r: "r = Inr ()" "pushed_frames tr1 = [[7]]"
    by (simp_all add: dev mono_input toy_encode_dup)
  have pa: "shutdown_seen mono_pa h = (6 \<le> length h)" "stop_seen mono_pa h = False"
    "iterate_events mono_pa h = [ReadEvent [PeekData (replicate 1920 7)]]" "stream_new_result mono_pa h = Some 3"
    "connect_record_result mono_pa h = 0" "stream_get_state mono_pa h = PA_STREAM_READY" for h
    by (simp_all add: mono_pa_def capture_pa_def)
  have "replicate 1920 (7 :: byte) \<noteq> []" by simp
  then show ?thesis
    by (simp add: record_device_def toy_device_def new_audio_device_def destroy_stream_def idle_backend_def pa
        wait_for_stream_ready.simps record_loop.simps mainloop_iterate_def numeral_3_eq_3 p r Let_def
        fragments_def List.map_filter_def)
qed

theorem sender_pipeline_witness:
  "\<exists>res b' s' e' tr' h'. record_device 3 mono_pa
       (data_callback (install_data_callback sample_uvg toy_encoder (\<lambda>_. ''bad'') (no_callbacks :: (_, unit) callbacks))) (toy_device 1)
       (idle_backend, (toy_server 1, 0, []), []) = Some (res, b', (s', e', tr'), h') \<and>
     pushed_frames tr' = packets toy_encoder (toy_device 1) 0 [replicate 1920 7]"
proof -
  have dev: "device (toy_server 1) = toy_device 1" by (simp add: toy_server_def)
  obtain b' s1 e1 tr1 h' where rec: "record_device 3 mono_pa (Some (server_cb sample_uvg toy_encoder (\<lambda>_. ''bad''))) (toy_device 1)
       (idle_backend, (toy_server 1, 0, []), []) = Some (Inr (), b', (s1, e1, tr1), h')" and h': "captured h' = [replicate 1920 7]"
    using mono_record by blast
  from sender_pipeline [OF toy_encoder_contract toy_server_ok [of 1], where cbs = "no_callbacks :: (_, unit) callbacks" and fuel = 3
      and env = mono_pa and uvg = sample_uvg and opus_strerror = "\<lambda>_. ''bad''", unfolded data_callback_installed dev, OF rec] rec h'
  show ?thesis by auto
qed

text \<open>Fragments and frames. \<open>record\<close> asks PulseAudio for fragments of 20 ms. For one channel such a
  fragment is exactly one frame, duplicated to stereo, and for two channels exactly one frame as it
  is. For more channels it is taken for stereo: the encoder gets the first 1920 interleaved samples of
  \<open>960 * ch\<close>, which cover only \<open>1920 / ch\<close> of its 960 sampling instants.\<close>

theorem fragment_is_one_frame:
  assumes "usec_to_bytes env 20000 (channels dev) = 20000 * 48000 div 1000000 * (2 * unat (channels dev))"
    and "length bytes = usec_to_bytes env 20000 (channels dev)" and "1 \<le> channels dev"
  shows "encoder_input dev bytes = Some (
      if channels dev = 1 then dup_samples (samples_of_bytes bytes)
      else if channels dev = 2 then samples_of_bytes bytes
      else take 1920 (samples_of_bytes bytes)) \<and>
    length (samples_of_bytes bytes) = 960 * unat (channels dev)"
proof -
  have len: "length bytes = 1920 * unat (channels dev)"
    using assms(2) by (simp add: assms(1))
  have "1 \<le> unat (channels dev)" using assms(3) by (simp add: word_le_nat_alt)
  moreover have "unat (channels dev) = 1 \<longleftrightarrow> channels dev = 1" "unat (channels dev) = 2 \<longleftrightarrow> channels dev = 2"
    by (simp_all add: word_unat_eq_iff)
  ultimately show ?thesis
    using len by (auto simp: encoder_input_def Let_def)
qed

theorem fragment_is_one_frame_witness:
  "encoder_input (toy_device 1) (replicate 1920 7) = Some (dup_samples (samples_of_bytes (replicate 1920 7)))"
  using fragment_is_one_frame [of "capture_pa" "toy_device 1" "replicate 1920 7"]
  by (simp add: capture_pa_def toy_device_def new_audio_device_def)

end
