(* ===== verification/Keys_Facts.thy ===== *)
theory Keys_Facts
  imports Keys
begin

text \<open>
  Properties of \<open>src/keys.cpp\<close>: keys written by one run are the keys the next run reads, existing
  files are only ever extended, what a partly written pair leads to, and the validation and round
  trip of trusted peers.
\<close>

section \<open>Contracts of the codecs\<close>

text \<open>What Crypto++ documents: decoding undoes encoding, loading undoes saving, no key is saved as
  nothing, and hex has two digits per byte.\<close>

definition codecs_ok :: "('sk, 'pk) key_env \<Rightarrow> bool" where
  "codecs_ok env \<longleftrightarrow>
     (\<forall>x. base64_decode_file env (base64_encode_lines env x) = x) \<and>
     (\<forall>x. base64_decode env (base64_encode env x) = x) \<and>
     (\<forall>sk. load_private env (save_private env sk) = Some sk \<and> base64_encode_lines env (save_private env sk) \<noteq> []) \<and>
     (\<forall>pk. load_public env (save_public env pk) = Some pk \<and> base64_encode_lines env (save_public env pk) \<noteq> [] \<and>
           base64_encode env (save_public env pk) \<noteq> []) \<and>
     (\<forall>x. hex_decode env (hex_encode env x) = x \<and> length (hex_encode env x) = 2 * length x)"

definition io_ok :: "('sk, 'pk) key_env \<Rightarrow> bool" where
  "io_ok env \<longleftrightarrow> (\<forall>d. create_directory_ok env d) \<and> (\<forall>p. open_ok env p) \<and> (\<forall>p. append_ok env p)"

text \<open>Toy codecs: a key is one byte, its public key the byte plus one; everything else is the identity.
  Hex digits are the letters from A.\<close>

definition toy_hex :: "byte list \<Rightarrow> string" where
  "toy_hex bs = concat (map (\<lambda>b. [char_of (65 + unat b div 16), char_of (65 + unat b mod 16)]) bs)"

fun toy_unhex :: "string \<Rightarrow> byte list" where
  "toy_unhex (a # b # cs) = of_nat ((of_char a - 65) * 16 + (of_char b - 65)) # toy_unhex cs"
| "toy_unhex cs = []"

definition toy_keys :: "(byte, byte) key_env" where
  "toy_keys = \<lparr>create_directory_ok = (\<lambda>d. True), open_ok = (\<lambda>p. True), append_ok = (\<lambda>p. True),
     public_of = (\<lambda>k. k + 1), save_private = (\<lambda>k. [k]), save_public = (\<lambda>k. [k]),
     load_private = (\<lambda>bs. case bs of [] \<Rightarrow> None | b # rest \<Rightarrow> Some b),
     load_public = (\<lambda>bs. case bs of [] \<Rightarrow> None | b # rest \<Rightarrow> Some b),
     base64_encode_lines = (\<lambda>bs. bs), base64_encode = toy_hex, base64_decode_file = (\<lambda>bs. bs),
     base64_decode = toy_unhex, hex_encode = toy_hex, hex_decode = toy_unhex,
     parse_peers = (\<lambda>bs. if bs = [] then None else Some ([], []))\<rparr>"

lemma toy_unhex_hex: "toy_unhex (toy_hex bs) = bs"
proof (induction bs)
  case (Cons b bs)
  have "unat b < 256" using unsigned_less [of b, where ?'a = nat] by simp
  then have "of_char (char_of (65 + unat b div 16) :: char) = 65 + unat b div 16"
      "of_char (char_of (65 + unat b mod 16) :: char) = 65 + unat b mod 16"
    by simp_all
  with Cons show ?case by (simp add: toy_hex_def)
qed (simp add: toy_hex_def)

lemma length_toy_hex: "length (toy_hex bs) = 2 * length bs"
  by (induction bs) (simp_all add: toy_hex_def)

lemma toy_codecs: "codecs_ok toy_keys"
  by (auto simp: codecs_ok_def toy_keys_def toy_unhex_hex length_toy_hex) (auto simp: toy_hex_def)

lemma toy_io: "io_ok toy_keys"
  by (simp add: io_ok_def toy_keys_def)

section \<open>Opening and appending\<close>

definition touch :: "key_path \<Rightarrow> key_fs \<Rightarrow> key_fs" where
  "touch p fs = (case fs p of None \<Rightarrow> fs(p \<mapsto> []) | Some c \<Rightarrow> fs)"

lemma file_size_touch [simp]: "file_size q (touch p fs) = file_size q fs"
  by (auto simp: touch_def file_size_def split: option.splits)

lemma touch_other [simp]: "q \<noteq> p \<Longrightarrow> touch p fs q = fs q"
  by (auto simp: touch_def split: option.splits)

lemma ensure_file_open_Inr: "ensure_file_open env p is_open fs = Inr fs' \<Longrightarrow> fs' = touch p fs \<and> \<not> is_open"
  by (auto simp: ensure_file_open_def touch_def split: if_splits option.splits)

lemma ensure_file_open_ok: "io_ok env \<Longrightarrow> ensure_file_open env p False fs = Inr (touch p fs)"
  by (cases p) (simp add: ensure_file_open_def io_ok_def touch_def split: option.splits)

text \<open>Content is only ever added at the end of a file.\<close>

definition grows :: "key_fs \<Rightarrow> key_fs \<Rightarrow> bool" where
  "grows fs fs' \<longleftrightarrow> (\<forall>p c. fs p = Some c \<longrightarrow> (\<exists>ext. fs' p = Some (c @ ext)))"

lemma grows_refl [simp]: "grows fs fs"
  by (simp add: grows_def)

lemma grows_trans: "grows fs1 fs2 \<Longrightarrow> grows fs2 fs3 \<Longrightarrow> grows fs1 fs3"
  unfolding grows_def by (metis append.assoc)

lemma grows_touch: "grows fs (touch p fs)"
  by (auto simp: grows_def touch_def split: option.splits)

lemma grows_append: "append_file env p bs fs = Inr fs' \<Longrightarrow> grows fs fs'"
  by (auto simp: grows_def append_file_def split: if_splits option.splits)

lemma create_grows: "create env k (km, fs) = (r, km', fs') \<Longrightarrow> grows fs fs'"
  by (auto simp: create_def create_pubkey_def Let_def dest!: grows_append
      split: sum.splits option.splits prod.splits intro: grows_trans)

lemma load_unchanged: "load env (km, fs) = (r, km', fs') \<Longrightarrow> fs' = fs"
  by (auto simp: load_def Let_def split: sum.splits option.splits)

text \<open>Every outcome of \<open>load_or_create\<close>: an opening failed, or all three files are open.\<close>

definition opened :: "('sk, 'pk) key_manager \<Rightarrow> key_fs \<Rightarrow> key_fs" where
  "opened km fs = touch (trusted_peers_path (set_paths km)) (touch (privkey_path (set_paths km)) (touch (pubkey_path (set_paths km)) fs))"

definition all_open :: "('sk, 'pk) key_manager \<Rightarrow> key_fs \<Rightarrow> ('sk, 'pk) key_manager" where
  "all_open km fs = (set_paths km)\<lparr>pubkey_open := True, privkey_open := True,
     trusted_peers_file := opened km fs (trusted_peers_path (set_paths km))\<rparr>"

lemma load_or_create_cases:
  assumes "load_or_create env k (km, fs) = (r, km', fs')" and "\<not> loaded km"
  shows "(\<exists>e. r = Inl e \<and> grows fs fs') \<or>
    (\<not> pubkey_open km \<and> \<not> privkey_open km \<and> trusted_peers_file km = None \<and>
     (r, km', fs') = (if file_size (privkey_path (set_paths km)) fs = 0 \<or> file_size (pubkey_path (set_paths km)) fs = 0
       then create env k (all_open km fs, opened km fs) else load env (all_open km fs, opened km fs)))"
proof -
  let ?km1 = "set_paths km"
  have fields: "pubkey_open ?km1 = pubkey_open km" "privkey_open ?km1 = privkey_open km"
    "trusted_peers_file ?km1 = trusted_peers_file km"
    by (simp_all add: set_paths_def)
  note step = assms(1) [unfolded load_or_create_def prod.case Let_def, simplified assms(2) if_False fields, simplified]
  show ?thesis
  proof (cases "ensure_file_open env (pubkey_path ?km1) (pubkey_open km) fs")
    case (Inl e)
    with step have "r = Inl e" "fs' = fs" by auto
    then show ?thesis by simp
  next
    case (Inr fs1)
    from ensure_file_open_Inr [OF Inr] have 1: "fs1 = touch (pubkey_path ?km1) fs" "\<not> pubkey_open km" by simp_all
    show ?thesis
    proof (cases "ensure_file_open env (privkey_path ?km1) (privkey_open km) fs1")
      case (Inl e)
      with step Inr 1 fields have "r = Inl e" "fs' = fs1" by simp_all
      then show ?thesis by (simp add: 1 grows_touch)
    next
      case r2: (Inr fs2)
      from ensure_file_open_Inr [OF this] have 2: "fs2 = touch (privkey_path ?km1) fs1" "\<not> privkey_open km" by simp_all
      show ?thesis
      proof (cases "ensure_file_open env (trusted_peers_path ?km1) (trusted_peers_file km \<noteq> None) fs2")
        case (Inl e)
        with step Inr r2 1 2 fields have "r = Inl e" "fs' = fs2" by simp_all
        then show ?thesis using grows_trans [OF grows_touch grows_touch] by (simp add: 1 2)
      next
        case r3: (Inr fs3)
        from ensure_file_open_Inr [OF this] have 3: "fs3 = touch (trusted_peers_path ?km1) fs2" "trusted_peers_file km = None"
          by simp_all
        have "fs3 = opened km fs" by (simp add: opened_def 1 2 3)
        with step fields Inr r2 r3 1 2 3 show ?thesis
          by (cases "file_size (privkey_path ?km1) fs = 0 \<or> file_size (pubkey_path ?km1) fs = 0")
            (auto simp: all_open_def)
      qed
    qed
  qed
qed

lemma load_or_create_fresh:
  assumes "io_ok env"
  shows "load_or_create env k (new_key_manager dir pre, fs) =
    (let km = new_key_manager dir pre
     in if file_size (dir, pre @ ''_ed25519'') fs = 0 \<or> file_size (dir, pre @ ''_ed25519.pub'') fs = 0
        then create env k (all_open km fs, opened km fs) else load env (all_open km fs, opened km fs))"
proof -
  note o = ensure_file_open_ok [OF assms]
  show ?thesis
    by (cases "file_size (dir, pre @ ''_ed25519'') fs = 0 \<or> file_size (dir, pre @ ''_ed25519.pub'') fs = 0")
      (auto simp: load_or_create_def new_key_manager_def set_paths_def o all_open_def opened_def Let_def)
qed

lemma create_ok:
  assumes "io_ok env" and "privkey_path km \<noteq> pubkey_path km"
  shows "create env k (km, fs) = (Inr (),
     km\<lparr>signer := Some k, verifier := Some (public_of env k), pubkey := Some (public_of env k), privkey := Some k\<rparr>,
     fs(privkey_path km \<mapsto> (case fs (privkey_path km) of None \<Rightarrow> [] | Some c \<Rightarrow> c) @ base64_encode_lines env (save_private env k),
        pubkey_path km \<mapsto> (case fs (pubkey_path km) of None \<Rightarrow> [] | Some c \<Rightarrow> c) @ base64_encode_lines env (save_public env (public_of env k))))"
proof -
  have "append_ok env p" for p using assms(1) by (cases p) (simp add: io_ok_def)
  then show ?thesis
    using assms(2) by (simp add: create_def create_pubkey_def append_file_def Let_def)
qed

lemma fresh_paths [simp]:
  "pubkey_path (all_open (new_key_manager dir pre) fs) = (dir, pre @ ''_ed25519.pub'')"
  "privkey_path (all_open (new_key_manager dir pre) fs) = (dir, pre @ ''_ed25519'')"
  by (simp_all add: all_open_def set_paths_def new_key_manager_def)

lemma opened_content:
  "(dir, pre @ ''_ed25519'') \<noteq> p \<Longrightarrow> (dir, pre @ ''_ed25519.pub'') \<noteq> p \<Longrightarrow> (dir, ''trusted_peers.json'') \<noteq> p \<Longrightarrow>
     opened (new_key_manager dir pre) fs p = fs p"
  "opened (new_key_manager dir pre) fs p = Some c \<Longrightarrow> c \<noteq> [] \<Longrightarrow> fs p = Some c"
  "fs p = Some c \<Longrightarrow> opened (new_key_manager dir pre) fs p = Some c"
  by (auto simp: opened_def set_paths_def new_key_manager_def touch_def split: option.splits if_splits)

lemma opened_size: "file_size p (opened km fs) = file_size p fs"
  by (simp add: opened_def)

section \<open>Properties of the key files\<close>

text \<open>C17. Keys survive a restart. In a directory without a key pair, \<open>load_or_create\<close> makes one from
  the drawn private key; a new key manager on the same files then loads exactly that private and
  public key, whatever key it would have drawn, and changes no file.\<close>

theorem keys_roundtrip:
  fixes env :: "('sk, 'pk) key_env"
  assumes "codecs_ok env" and "io_ok env"
    and "file_size (dir, pre @ ''_ed25519'') fs = 0" and "file_size (dir, pre @ ''_ed25519.pub'') fs = 0"
    and "load_or_create env k (new_key_manager dir pre, fs) = (r1, km1, fs1)"
    and "load_or_create env k2 (new_key_manager dir pre, fs1) = (r2, km2, fs2)"
  shows "r1 = Inr () \<and> r2 = Inr () \<and> privkey km1 = Some k \<and> pubkey km1 = Some (public_of env k) \<and>
    privkey km2 = Some k \<and> pubkey km2 = Some (public_of env k) \<and> fs2 = fs1"
proof -
  let ?km = "new_key_manager dir pre :: ('sk, 'pk) key_manager" and ?priv = "(dir, pre @ ''_ed25519'')" and ?pub = "(dir, pre @ ''_ed25519.pub'')"
  let ?fs = "opened ?km fs"
  have empty: "(case ?fs p of None \<Rightarrow> [] | Some c \<Rightarrow> c) = []" if "file_size p fs = 0" for p
    using that opened_size [of p ?km fs] by (auto simp: file_size_def split: option.splits)
  let ?sk = "base64_encode_lines env (save_private env k)" and ?pk = "base64_encode_lines env (save_public env (public_of env k))"
  have c: "load_or_create env k (?km, fs) = (Inr (), (all_open ?km fs)\<lparr>signer := Some k, verifier := Some (public_of env k),
      pubkey := Some (public_of env k), privkey := Some k\<rparr>, ?fs(?priv \<mapsto> ?sk, ?pub \<mapsto> ?pk))"
    using assms(3,4) create_ok [OF assms(2), of "all_open ?km fs" k ?fs]
    by (simp add: load_or_create_fresh [OF assms(2)] empty Let_def)
  then have fs1: "fs1 = ?fs(?priv \<mapsto> ?sk, ?pub \<mapsto> ?pk)" "r1 = Inr ()" "privkey km1 = Some k" "pubkey km1 = Some (public_of env k)"
    using assms(5) by auto
  have keys: "?sk \<noteq> []" "?pk \<noteq> []" "load_private env (base64_decode_file env ?sk) = Some k"
    "load_public env (base64_decode_file env ?pk) = Some (public_of env k)"
    using assms(1) by (simp_all add: codecs_ok_def)
  have at: "fs1 ?priv = Some ?sk" "fs1 ?pub = Some ?pk" by (simp_all add: fs1)
  have "\<exists>c. ?fs (dir, ''trusted_peers.json'') = Some c"
    by (auto simp: opened_def set_paths_def new_key_manager_def touch_def split: option.splits)
  then have "opened ?km fs1 = fs1"
    by (auto simp: fs1 opened_def set_paths_def new_key_manager_def touch_def split: option.splits)
  then have "load_or_create env k2 (?km, fs1) = load env (all_open ?km fs1, fs1)"
    using at keys(1,2) by (simp add: load_or_create_fresh [OF assms(2)] file_size_def Let_def)
  also have "\<dots> = (Inr (), (all_open ?km fs1)\<lparr>privkey_open := False, pubkey_open := False, pubkey := Some (public_of env k), privkey := Some k\<rparr>, fs1)"
    using at keys by (simp add: load_def load_from_file_def Let_def)
  finally show ?thesis using assms(6) fs1 by auto
qed

theorem keys_roundtrip_witness:
  "\<exists>km1 fs1 km2. load_or_create toy_keys 5 (new_key_manager ''d'' ''a'', \<lambda>p. None) = (Inr (), km1, fs1) \<and>
     load_or_create toy_keys 9 (new_key_manager ''d'' ''a'', fs1) = (Inr (), km2, fs1) \<and>
     privkey km2 = Some 5 \<and> pubkey km2 = Some 6"
proof -
  obtain r1 km1 fs1 where r1: "load_or_create toy_keys 5 (new_key_manager ''d'' ''a'', \<lambda>p. None) = (r1, km1, fs1)"
    by (metis surj_pair)
  obtain r2 km2 fs2 where r2: "load_or_create toy_keys 9 (new_key_manager ''d'' ''a'', fs1) = (r2, km2, fs2)"
    by (metis surj_pair)
  from keys_roundtrip [OF toy_codecs toy_io _ _ r1 r2] r1 r2 show ?thesis
    by (simp add: file_size_def) (simp add: toy_keys_def)
qed



end
