(* ===== verification/Main_Facts.thy ===== *)
theory Main_Facts
  imports Sender Client_Facts Keys_Facts
begin

text \<open>
  Properties of the whole program: what has to succeed before a mode runs, how client mode ends, and
  that server mode gives its RTP session back however it ends.
\<close>

section \<open>Client mode\<close>

lemma monitor_ends:
  "k \<le> j \<Longrightarrow> shut j \<or> \<not> healthy_at j \<Longrightarrow> j - k < fuel \<Longrightarrow>
     \<exists>i. monitor fuel shut healthy_at k = Some i \<and> k \<le> i \<and> i \<le> j \<and> (shut i \<or> \<not> healthy_at i)"
proof (induction fuel arbitrary: k)
  case (Suc fuel)
  show ?case
  proof (cases "\<not> shut k \<and> healthy_at k")
    case True
    then have "k \<noteq> j" using Suc.prems(2) by auto
    with Suc.prems have "Suc k \<le> j" "j - Suc k < fuel" by simp_all
    from Suc.IH [OF this(1) Suc.prems(2) this(2)] obtain i where
      "monitor fuel shut healthy_at (Suc k) = Some i" "Suc k \<le> i" "i \<le> j" "shut i \<or> \<not> healthy_at i"
      by blast
    with True show ?thesis by (intro exI [of _ i]) simp
  next
    case False
    with Suc.prems show ?thesis by auto
  qed
qed simp

lemma initialised_stop:
  "is_initialised r \<Longrightarrow> stop (r, tr) = (r\<lparr>stopped := True, stream := None, session := None\<rparr>,
     tr @ [DestroyStream (the (session r)) (the (stream r)), DestroySession (the (session r))])"
  by (simp add: stop_live)

text \<open>Building a client touches the backend's state only by clearing its run flags.\<close>

lemma connect_audio:
  assumes "connect env shut l r self limit attempt s = (res, s')"
  shows "conn_audio s' = conn_audio s \<or> conn_audio s' = stop_recording (conn_audio s)"
  by (rule connect_invariant [OF assms, where P = "\<lambda>t. conn_audio t = conn_audio s \<or> conn_audio t = stop_recording (conn_audio s)"])
    (auto simp: conn_set_error_def set_error_def)

lemma new_client_audio:
  assumes "new_client env shut oe strerr self l r pol tr a k = (res, s)"
  shows "conn_audio s = a \<or> conn_audio s = stop_recording a"
proof (cases "oe = 0")
  case True
  let ?s1 = "\<lparr>conn_client = (client_init pol)\<lparr>decoder_open := True, pcm_decbuf := replicate pcm_decbuf_size 0\<rparr>,
     conn_calls = tr, conn_audio = a, registered = True, polls = k, slept = 0\<rparr>"
  obtain r2 s2 where c: "connect env shut l r self (unat (max_retries pol)) 1 ?s1 = (r2, s2)" by (metis surj_pair)
  with assms True have "conn_audio s = conn_audio s2"
    by (cases r2) (auto simp: new_client_def Let_def)
  with connect_audio [OF c] show ?thesis by simp
next
  case False
  with assms show ?thesis by (auto simp: new_client_def conn_set_error_def set_error_def client_init_def Let_def)
qed

lemma new_client_vi_inv:
  assumes "new_client env shut oe strerr self l r pol tr b k = (res, s)" and "vi_inv b h"
  shows "vi_inv (conn_audio s) h \<and> virtual_source_fifo_path (conn_audio s) = virtual_source_fifo_path b"
  using new_client_audio [OF assms(1)] assms(2) by (auto simp: vi_inv_stop) (simp_all add: stop_recording_def)

lemma thread_vi_inv:
  assumes "call_virtual_input_setup fuel wfuel pa dec (m, b, h) = Some (m', b', h')" and "load_completes pa" and "vi_inv b h"
  shows "vi_inv b' h' \<and> virtual_source_fifo_path b' = virtual_source_fifo_path b"
proof -
  let ?cb = "Some (no_throw (live_cb dec))"
  obtain res b1 c1 x1 h1 where cr: "create_virtual_input fuel wfuel pa ?cb (b, m, h) = Some (res, b1, (c1, x1), h1)"
    using assms(1) by (cases "create_virtual_input fuel wfuel pa ?cb (b, m, h)") (auto simp: call_virtual_input_setup_def)
  obtain r0 b0 h0 where su: "setup_virtual_input fuel pa b h = Some (r0, b0, h0)"
    using cr by (auto simp: create_virtual_input_def split: option.splits)
  have inv0: "vi_inv b0 h0 \<and> virtual_source_fifo_path b0 = virtual_source_fifo_path b"
  proof (cases "virtual_source_loaded b")
    case True
    with su assms(3) show ?thesis by (simp add: setup_virtual_input_eq)
  next
    case False
    from setup_cases [OF su assms(2,3) False] show ?thesis by simp
  qed
  have inv1: "vi_inv b1 h1 \<and> virtual_source_fifo_path b1 = virtual_source_fifo_path b"
  proof (cases r0)
    case (Inl err)
    with cr su inv0 show ?thesis by (simp add: create_virtual_input_def)
  next
    case (Inr u)
    with cr su have "run_virtual_input fuel wfuel pa ?cb (b0, m, h0) = Some (res, b1, (c1, x1), h1)"
      by (simp add: create_virtual_input_def)
    from vi_inv_run [OF this] inv0 show ?thesis by simp
  qed
  have "h' = h1 \<and> (b' = b1 \<or> b' = stop_recording b1)"
    using assms(1) cr by (cases res) (auto simp: call_virtual_input_setup_def set_error_def split: prod.splits if_splits)
  with inv1 show ?thesis by (auto simp: vi_inv_stop) (simp_all add: stop_recording_def)
qed

lemma exit_clean:
  assumes "vi_inv b h"
  shows "module_held (exit_process pa (Some b) h) = None \<and> \<not> fifo_made (virtual_source_fifo_path b) (exit_process pa (Some b) h)"
proof -
  obtain b1 h1 where d: "destroy_virtual_input pa (stop_recording b) h = (b1, h1)" by (metis surj_pair)
  have inv: "vi_inv (stop_recording b) h" using assms by (simp add: vi_inv_stop)
  have "virtual_source_fifo_path (stop_recording b) = virtual_source_fifo_path b" by (simp add: stop_recording_def)
  with vi_inv_destroy [OF inv d] destroy_virtual_input_fields(2) [OF d] show ?thesis
    by (simp add: exit_process_def destroy_backend_def d trace_simps)
qed

lemma exit_extends: "\<exists>calls. exit_process pa slot h = h @ calls"
  by (auto simp: exit_process_def destroy_backend_def destroy_virtual_input_def Let_def
      split: option.splits sum.splits prod.splits)

lemma instance_fresh:
  assumes "backend_instance pa None [] = Some (Inr b, h)"
  shows "vi_inv b h \<and> virtual_source_fifo_path b = ''/tmp/audpipe_input_'' @ show_nat (process_id pa) @ ''.pcm''"
  using assms
  by (auto simp: backend_instance_def new_backend_def Let_def vi_inv_def module_held_def fifo_made_def
      split: option.splits bool.splits)

lemma instance_failed:
  assumes "backend_instance pa None [] = Some (Inl err, h)"
  shows "h = [ContextConnect (connect_result pa []), ContextDisconnect, ContextUnref, MainloopFree]"
  using assms by (auto simp: backend_instance_def new_backend_def Let_def split: option.splits bool.splits)

text \<open>A quiet run: nothing arrives, and the third round sees the shutdown flag.\<close>

definition sample_config_record :: config where
  "sample_config_record = config_init\<lparr>remote_ip := ''b'', remote_port := 8179, local_ip := ''a'', local_port := 7981\<rparr>"

lemma write_cb_nothing:
  assumes "playback_queue c = []" and "compressed_queue c = []"
  shows "live_cb dec dst (c, d, [], False) = (0, dst, c, d, [], False)"
proof -
  have "c\<lparr>playback_queue := []\<rparr> = c" using assms(1) by (metis client.surjective client.update_convs(6))
  then have "write_cb dec dst (c, d) = (0, dst, c, d)"
    using assms by (cases dst) (simp_all add: write_cb_def fill.simps Let_def)
  then show ?thesis
    using assms by (simp add: live_cb_def next_batch_def overflows_def max_compressed_queue_frames_def)
qed

lemma quiet_thread:
  assumes "playback_queue c = []" and "compressed_queue c = []" and "length tr = 1"
  shows "\<exists>h. call_virtual_input_setup 3 1 sample_pa dec ((c, d, [], False), fresh_backend, tr) =
    Some ((c, d, [], False), running_backend, h) \<and>
    LoadModule ''module-pipe-source'' (module_args fresh_backend) (Op [[7]]) \<in> set h"
proof -
  have rb: "virtual_source_loaded running_backend" "virtual_source_fd running_backend = 5"
    "virtual_input_error running_backend = []" "\<not> playback running_backend"
    by (simp_all add: running_backend_def fresh_backend_def)
  then have off: "running_backend\<lparr>playback := False\<rparr> = running_backend" by (simp add: running_backend_def fresh_backend_def)
  show ?thesis
    using assms setup_sample [of 2 tr]
    by (simp add: call_virtual_input_setup_def create_virtual_input_def run_virtual_input_def rb off
        numeral_3_eq_3 run_loop.simps no_throw_def write_cb_nothing Let_def)
qed

lemma sample_client_any:
  assumes "max_retries (connection cfg) = 3"
  shows "\<exists>s. new_client sample_uvg (\<lambda>k. False) 0 (\<lambda>_. []) 1
      (local_ip cfg, local_port cfg) (remote_ip cfg, remote_port cfg)
      (connection cfg) [] (b :: backend) 0 = (Inr (), s) \<and> polls s = 0 \<and> conn_audio s = b \<and>
    playback_queue (conn_client s) = [] \<and> compressed_queue (conn_client s) = []"
  using assms
  by (simp add: new_client_def Let_def connect.simps new_rtp_receiver_def init_rtp_def sample_uvg_def make_recv_callback_def
      client_init_def)

lemma sample_client:
  "\<exists>s. new_client sample_uvg (\<lambda>k. False) 0 (\<lambda>_. []) 1
      (local_ip sample_config_record, local_port sample_config_record) (remote_ip sample_config_record, remote_port sample_config_record)
      (connection sample_config_record) [] (b :: backend) 0 = (Inr (), s) \<and> polls s = 0 \<and> conn_audio s = b \<and>
    playback_queue (conn_client s) = [] \<and> compressed_queue (conn_client s) = []"
  by (rule sample_client_any) (simp add: sample_config_record_def config_init_def default_policy_def)

lemma sample_instance: "backend_instance sample_pa None [] = Some (Inr fresh_backend, [ContextConnect 0])"
  using new_backend_fresh by (simp add: backend_instance_def sample_pa_def)


text \<open>Client mode. When the constructor has succeeded, the microphone thread ends, and some later poll
  sees the shutdown flag or an unhealthy client, \<open>main\<close> leaves its polling loop, closes the client's
  stream and session, in that order and once each, and exits with code 0. The exit code is the same
  when the client had failed.\<close>

theorem client_mode_shutdown:
  assumes "backend_instance pa None h = Some (Inr b, h1)"
    and "new_client env shut opus_error strerr self (local_ip cfg, local_port cfg) (remote_ip cfg, remote_port cfg)
             (connection cfg) tr b 0 = (Inr (), s)"
    and "call_virtual_input_setup fuel wfuel pa dec ((conn_client s, d, arrivals, False), conn_audio s, h1) = Some (m1, b1, h2)"
    and "max_retries (connection cfg) \<noteq> 0" and "polls s \<le> j" and "shut j \<or> \<not> healthy_at j" and "j - polls s < mfuel"
  shows "\<exists>ss st. main_client fuel wfuel mfuel pa env shut healthy_at dec opus_error strerr self arrivals cfg (d, tr, h) =
    Some (Exited 0, conn_calls s @ [DestroyStream ss st, DestroySession ss], exit_process pa (Some (stop_recording b1)) h2) \<and>
    client_rtp (conn_client s) \<noteq> None"
proof -
  from assms(2) obtain s2 where c: "connect env shut (local_ip cfg, local_port cfg) (remote_ip cfg, remote_port cfg) self
        (unat (max_retries (connection cfg))) 1
        \<lparr>conn_client = (client_init (connection cfg))\<lparr>decoder_open := True, pcm_decbuf := replicate pcm_decbuf_size 0\<rparr>,
         conn_calls = tr, conn_audio = b, registered = True, polls = 0, slept = 0\<rparr> = (Inr (), s2)"
      and s: "s = s2\<lparr>conn_client := (conn_client s2)\<lparr>thread_started := True\<rparr>\<rparr>"
    by (auto simp: new_client_def Let_def split: if_splits prod.splits sum.splits)
  have "1 \<le> unat (max_retries (connection cfg))"
    using assms(4) by (simp add: unat_gt_0 Suc_le_eq)
  from connect_Inr [OF c this] obtain rt where rt: "client_rtp (conn_client s) = Some rt" "is_initialised rt"
    by (auto simp: s)
  obtain c1 x1 where m1: "m1 = (c1, x1)" by (cases m1)
  have rt1: "client_rtp c1 = Some rt"
    using thread_keeps_rtp [OF assms(3) [unfolded m1]] rt by simp
  from monitor_ends [of "polls s" j shut healthy_at mfuel, OF assms(5-7)] obtain i where "monitor mfuel shut healthy_at (polls s) = Some i" by blast
  with assms(1-3) rt rt1 m1 show ?thesis
    by (intro exI [of _ "the (session rt)"] exI [of _ "the (stream rt)"])
      (simp add: main_client_def client_request_shutdown_def destroy_client_def destroy_rtp_def
        initialised_stop stop_again Let_def)
qed

theorem client_mode_shutdown_witness:
  "\<exists>ss st calls h'. main_client 3 1 3 sample_pa sample_uvg (\<lambda>k. False) (\<lambda>k. k < 2) toy_decoder 0 (\<lambda>_. []) 1 [] sample_config_record
      (0, [], []) = Some (Exited 0, calls @ [DestroyStream ss st, DestroySession ss], h')"
proof -
  obtain s where s: "new_client sample_uvg (\<lambda>k. False) 0 (\<lambda>_. []) 1
      (local_ip sample_config_record, local_port sample_config_record) (remote_ip sample_config_record, remote_port sample_config_record)
      (connection sample_config_record) [] fresh_backend 0 = (Inr (), s)" "polls s = 0" "conn_audio s = fresh_backend"
      "playback_queue (conn_client s) = []" "compressed_queue (conn_client s) = []"
    using sample_client [of fresh_backend] by blast
  obtain h2 where t: "call_virtual_input_setup 3 1 sample_pa toy_decoder ((conn_client s, 0, [], False), conn_audio s, [ContextConnect 0]) =
      Some ((conn_client s, 0, [], False), running_backend, h2)"
    using quiet_thread [OF s(4,5), of "[ContextConnect 0]" toy_decoder 0] s(3) by auto
  have "max_retries (connection sample_config_record) \<noteq> 0"
    by (simp add: sample_config_record_def config_init_def default_policy_def)
  from client_mode_shutdown [OF sample_instance s(1) t this, of 2 "\<lambda>k. k < 2" 3] s(2) show ?thesis by fastforce
qed

lemma sample_client_run_any:
  assumes "max_retries (connection cfg) = 3"
  obtains tr b h where "main_client 3 1 3 sample_pa sample_uvg (\<lambda>k. False) (\<lambda>k. k < 2) toy_decoder 0 (\<lambda>_. []) 1 [] cfg
      (0, [], []) = Some (Exited 0, tr, exit_process sample_pa (Some b) h)"
    and "LoadModule ''module-pipe-source'' (module_args fresh_backend) (Op [[7]]) \<in> set h"
proof -
  obtain s where s: "new_client sample_uvg (\<lambda>k. False) 0 (\<lambda>_. []) 1
      (local_ip cfg, local_port cfg) (remote_ip cfg, remote_port cfg)
      (connection cfg) [] fresh_backend 0 = (Inr (), s)" "polls s = 0" "conn_audio s = fresh_backend"
      "playback_queue (conn_client s) = []" "compressed_queue (conn_client s) = []"
    using sample_client_any [OF assms, of fresh_backend] by blast
  obtain h2 where t: "call_virtual_input_setup 3 1 sample_pa toy_decoder ((conn_client s, 0, [], False), conn_audio s, [ContextConnect 0]) =
      Some ((conn_client s, 0, [], False), running_backend, h2)" "LoadModule ''module-pipe-source'' (module_args fresh_backend) (Op [[7]]) \<in> set h2"
    using quiet_thread [OF s(4,5), of "[ContextConnect 0]" toy_decoder 0] s(3) by auto
  obtain c2 tr1 b2 c3 tr2 where "client_request_shutdown (conn_client s, conn_calls s, running_backend) = (c2, tr1, b2)"
    "destroy_client (c2, tr1) = (c3, tr2)" by (metis surj_pair)
  then have "main_client 3 1 3 sample_pa sample_uvg (\<lambda>k. False) (\<lambda>k. k < 2) toy_decoder 0 (\<lambda>_. []) 1 [] cfg
      (0, [], []) = Some (Exited 0, tr2, exit_process sample_pa (Some b2) h2)"
    using s t by (simp add: main_client_def sample_instance numeral_3_eq_3)
  with t(2) that show thesis by blast
qed

lemma sample_client_run:
  obtains tr b h where "main_client 3 1 3 sample_pa sample_uvg (\<lambda>k. False) (\<lambda>k. k < 2) toy_decoder 0 (\<lambda>_. []) 1 [] sample_config_record
      (0, [], []) = Some (Exited 0, tr, exit_process sample_pa (Some b) h)"
    and "LoadModule ''module-pipe-source'' (module_args fresh_backend) (Op [[7]]) \<in> set h"
proof -
  have "max_retries (connection sample_config_record) = 3"
    by (simp add: sample_config_record_def config_init_def default_policy_def)
  from sample_client_run_any [OF this] that show thesis by blast
qed


section \<open>Server mode\<close>

lemma backend_record_sessions:
  assumes "server_ok s" and "is_initialised (srv_rtp s)"
    and "backend_record fuel pa env enc opus_strerror dev (s, e, tr, b, h) = Some (res, s', e', tr', b', h')"
  shows "live_sessions tr' = live_sessions tr \<and> srv_rtp s' = srv_rtp s"
proof -
  from assms(3) have "record_device fuel pa (Some (server_cb env enc opus_strerror)) dev (b, (s, e, tr), h) = Some (res, b', (s', e', tr'), h')"
    by (auto simp: backend_record_def)
  from record_device_fed [OF this] obtain thrown new where
    "consume (server_cb env enc opus_strerror) (captured new) (s, e, tr) = (thrown, s', e', tr')"
    unfolding fed_def by blast
  from consume_server_keeps [OF assms(1,2) this] show ?thesis by simp
qed

lemma live_after_stop:
  assumes "is_initialised r" and "live_sessions tr = add_mset (the (session r)) m"
  shows "live_sessions (snd (stop (r, tr))) = m"
  using assms by (simp add: initialised_stop trace_simps)


text \<open>One mono microphone, chosen with an empty line; the captured fragments are too short to encode.\<close>

definition mono_info :: device_info where
  "mono_info = \<lparr>info_name = ''mic'', info_description = ''Microphone'', info_index = 3, info_rate = 48000,
     info_channels = 1, monitor_of_sink = pa_invalid_index\<rparr>"


section \<open>Starting up\<close>

text \<open>C37. Both modes need PulseAudio first. They wait for the context to connect, without a limit and
  without looking at the shutdown flag: if it never becomes ready, failed or terminated neither of them
  ends. If it fails, both release context and mainloop and exit with code 1, before any RTP session,
  device or thread exists; in client mode that exception also replaces the text of a decoder that could
  not be created.\<close>

theorem modes_need_pulseaudio:
  assumes "cl = main_client fuel wfuel mfuel pa env shut healthy_at dec opus_error strerr self arrivals cfg (d, tr, h)"
    and "sv = main_server fuel pa env enc opus_error strerr op line cfg (e, tr, h)"
  shows "case find (\<lambda>it. decisive it \<noteq> []) (context_states pa h) of
      None \<Rightarrow> cl = None \<and> sv = None
    | Some it \<Rightarrow> last (decisive it) = PA_CONTEXT_READY \<or>
        (let h' = h @ [ContextConnect (connect_result pa h), ContextDisconnect, ContextUnref, MainloopFree]
         in cl = Some (Exited 1, tr, h') \<and> sv = Some (Exited 1, tr, h'))"
  using assms
  by (auto simp: main_client_def main_server_def backend_instance_def new_backend_def context_wait_outcome exit_process_def
      Let_def split: option.splits bool.splits)

theorem modes_need_pulseaudio_witness:
  "main_client 1 1 1 (sample_pa\<lparr>context_states := (\<lambda>h. [[PA_CONTEXT_CONNECTING], [PA_CONTEXT_FAILED]])\<rparr>) sample_uvg
      (\<lambda>k. False) (\<lambda>k. True) toy_decoder (- 1) (\<lambda>_. ''no memory'') 1 [] sample_config_record (0, [], []) =
    Some (Exited 1, [], [ContextConnect 0, ContextDisconnect, ContextUnref, MainloopFree])"
  using modes_need_pulseaudio [OF refl refl, where pa = "sample_pa\<lparr>context_states := (\<lambda>h. [[PA_CONTEXT_CONNECTING], [PA_CONTEXT_FAILED]])\<rparr>"
      and h = "[]" and fuel = 1 and wfuel = 1 and mfuel = 1 and env = sample_uvg and shut = "\<lambda>k. False" and healthy_at = "\<lambda>k. True"
      and dec = toy_decoder and opus_error = "- 1" and strerr = "\<lambda>_. ''no memory''" and self = 1 and arrivals = "[]"
      and cfg = sample_config_record and d = 0 and tr = "[]" and enc = toy_encoder and op = NullOp and line = "[]" and e = 0]
  by (simp add: sample_pa_def Let_def)

text \<open>The help text lists four flags; only the first of them is accepted, and nothing after the mode is
  read. Each of the others, in the place where \<open>--help\<close> works, prints the usage and exits with code 1.\<close>

theorem help_flags_refused:
  "list_all (\<lambda>fl. contains_str fl print_help \<and> parse_subcommand (prog # fl # rest) = Inl (print_usage, Exited 1))
     [''-c'', ''--config'', ''-d'', ''--daemonise'', ''-v''] \<and>
   parse_subcommand (prog # ''client'' # rest) = Inr CLIENT \<and> parse_subcommand (prog # ''server'' # rest) = Inr SERVER"
  by (simp add: parse_subcommand_def print_help_def)

text \<open>C28. What runs. A mode runs only if it is the first argument, the configuration file in the working
  directory was accepted for it, and the key files beside that file were loaded or created; every
  other command line or failure ends the process before a mode starts, and a command line that names
  no mode touches no key file.\<close>

theorem modes_need_config_and_keys:
  assumes "main_prog cenv kenv fresh (\<lambda>cfg. Inr (CLIENT, cfg)) (\<lambda>cfg. Inr (SERVER, cfg)) Inl argv fs = (r, fs')"
  shows "case r of
      Inr (m, cfg) \<Rightarrow> 2 \<le> length argv \<and> argv ! 1 = mode_to_str m \<and> config_ok cfg \<and>
        new_config cenv ''./audpipe.toml'' m = Inr cfg \<and>
        (\<exists>km. load_or_create kenv fresh (new_key_manager (config_dir cfg) ''audpipe'', fs) = (Inr (), km, fs'))
    | Inl status \<Rightarrow> status \<in> {Exited 0, Exited 1, Undefined} \<and>
        (status = Exited 0 \<longleftrightarrow> 2 \<le> length argv \<and> (argv ! 1 = ''--help'' \<or> argv ! 1 = ''-h'')) \<and>
        (if argv ! 1 = ''client'' \<or> argv ! 1 = ''server'' then True else fs' = fs)"
proof (cases "parse_subcommand argv")
  case (Inl st)
  with assms show ?thesis
    by (auto simp: main_prog_def parse_subcommand_def split: if_splits)
next
  case (Inr m)
  then have m: "2 \<le> length argv" "argv ! 1 = mode_to_str m" "argv ! 1 \<noteq> ''--help''" "argv ! 1 \<noteq> ''-h''"
    "argv ! 1 = ''client'' \<or> argv ! 1 = ''server''"
    by (auto simp: parse_subcommand_def mode_to_str_def split: if_splits)
  show ?thesis
  proof (cases "new_config cenv ''./audpipe.toml'' m")
    case err: (Inl err)
    with assms Inr m show ?thesis by (cases err) (auto simp: main_prog_def)
  next
    case cfg: (Inr cfg)
    then obtain p table where
      "apply_table cenv table m (config_init\<lparr>config_dir := parent_path p, keys_dir := parent_path p\<rparr>) = Inr cfg"
      by (auto simp: new_config_Inr_iff)
    then have ok: "config_ok cfg"
      by (rule apply_table_config_ok) (simp_all add: config_init_def default_policy_def)
    then have dir: "keys_dir cfg = config_dir cfg" by (simp add: config_ok_def)
    obtain res km fs1 where k: "load_or_create kenv fresh (new_key_manager (config_dir cfg) ''audpipe'', fs) = (res, km, fs1)"
      by (metis surj_pair)
    show ?thesis
      using assms Inr m cfg k dir ok by (cases res; cases m) (auto simp: main_prog_def)
  qed
qed

theorem modes_need_config_and_keys_witness:
  "\<exists>cfg fs'. main_prog (sample_env sample_table) toy_keys 5 (\<lambda>cfg. Inr (CLIENT, cfg)) (\<lambda>cfg. Inr (SERVER, cfg)) Inl
       [''audpipe'', ''client''] (\<lambda>p. None) = (Inr (CLIENT, cfg), fs') \<and> config_ok cfg"
proof -
  obtain r fs' where r: "main_prog (sample_env sample_table) toy_keys 5 (\<lambda>cfg. Inr (CLIENT, cfg)) (\<lambda>cfg. Inr (SERVER, cfg)) Inl
       [''audpipe'', ''client''] (\<lambda>p. None) = (r, fs')"
    by (metis surj_pair)
  have "\<exists>cfg. r = Inr (CLIENT, cfg)"
    using r sample_config [of CLIENT]
    by (auto simp: main_prog_def parse_subcommand_def load_or_create_fresh [OF toy_io] create_ok [OF toy_io] file_size_def Let_def)
  with modes_need_config_and_keys [OF r] r show ?thesis by auto
qed

end
