(* ===== verification/Server_Main.thy ===== *)
theory Server_Main
  imports Main_Facts
begin

text \<open>
  Server mode as a whole, from the first use of the backend to the exit of the process: what it has
  pushed to RTP by then, against the audio that was captured.
\<close>

section \<open>What server mode sends\<close>

lemma destroy_backend_captures_nothing: "destroy_backend env b h = (b', h') \<Longrightarrow> captured h' = captured h"
  by (auto simp: destroy_backend_def destroy_virtual_input_def Let_def captured_append split: if_splits sum.splits)

lemma exit_captures_nothing [simp]: "captured (exit_process env slot h) = captured h"
proof (cases slot)
  case (Some b)
  obtain b' h' where "destroy_backend env b h = (b', h')" by (metis surj_pair)
  with destroy_backend_captures_nothing [OF this] Some show ?thesis by (simp add: exit_process_def)
qed (simp add: exit_process_def)

lemma instance_captures_nothing: "backend_instance env None h = Some (r, h') \<Longrightarrow> captured h' = captured h"
  by (auto simp: backend_instance_def new_backend_def Let_def captured_append split: option.splits bool.splits if_splits)

lemma init_rtp_pushes_nothing: "init_rtp env snd_side lp rp r tr = (res, tr') \<Longrightarrow> pushed_frames tr' = pushed_frames tr"
  by (auto simp: init_rtp_def Let_def trace_simps split: option.splits if_splits)

lemma new_server_pushes_nothing:
  assumes "new_server env oe strerr l r dev tr = (res, tr1)"
  shows "pushed_frames tr1 = pushed_frames tr"
proof -
  obtain x tr0 where n: "new_rtp_sender env l r tr = (x, tr0)" by (metis surj_pair)
  then have "pushed_frames tr0 = pushed_frames tr"
    by (auto simp: new_rtp_sender_def Let_def trace_simps dest!: init_rtp_pushes_nothing)
  with assms n stop_pushes_nothing show ?thesis
    by (auto simp: new_server_def destroy_rtp_def split: sum.splits if_splits)
qed

lemma destroy_server_pushes_nothing:
  "destroy_server (s, tr, a) = (s', tr', a') \<Longrightarrow> pushed_frames tr' = pushed_frames tr"
  "server_stop (s, tr, a) = (s', tr', a') \<Longrightarrow> pushed_frames tr' = pushed_frames tr"
  using stop_pushes_nothing [of "(srv_rtp s, tr)"]
  by (auto simp: destroy_server_def server_stop_def split: prod.splits)

lemma server_mode_packets:
  assumes "opus_encode_contract enc"
    and "main_server fuel pa env enc opus_error strerr op line cfg (e, tr, h) = Some (status, tr', h')"
  shows "\<exists>dev new. captured h' = captured h @ new \<and> pushed_frames tr' = pushed_frames tr @ packets enc dev e new \<and>
    (first_failure enc dev e new \<noteq> None \<longrightarrow> status = Exited 1) \<and>
    (new \<noteq> [] \<longrightarrow> (\<exists>inputs. get_inputs op = Inr inputs \<and> choose_device_interactive line inputs = Inr dev))"
proof -
  obtain r0 h1 where i: "backend_instance pa None h = Some (r0, h1)" using assms(2) by (auto simp: main_server_def split: option.splits)
  have h1: "captured h1 = captured h" by (rule instance_captures_nothing [OF i])
  have none: ?thesis if "captured h' = captured h" "pushed_frames tr' = pushed_frames tr"
    using that by (intro exI [of _ undefined] exI [of _ "[]"]) simp
  consider (early) "captured h' = captured h" "pushed_frames tr' = pushed_frames tr"
    | (run) b inputs dev s tr1 where "r0 = Inr b" "get_inputs op = Inr inputs" "choose_device_interactive line inputs = Inr dev"
        "new_server env opus_error strerr (local_ip cfg, local_port cfg) (remote_ip cfg, remote_port cfg) dev tr = (Inr s, tr1)"
    using assms(2) i h1 new_server_pushes_nothing
    by (auto simp: main_server_def split: sum.splits list_error.splits rtp_error.splits prod.splits)
  then show ?thesis
  proof cases
    case early
    then show ?thesis by (rule none)
  next
    case run
    have s: "server_ok (s\<lparr>running := True\<rparr>)" "is_initialised (srv_rtp (s\<lparr>running := True\<rparr>))" "device s = dev"
        "pushed_frames tr1 = pushed_frames tr"
      using run(4) new_rtp_sender_ready(1) new_server_pushes_nothing [OF run(4)]
      by (auto simp: new_server_def server_ok_def split: sum.splits prod.splits if_splits)
    obtain res s1 e1 tr2 b1 h2 where r: "backend_record fuel pa env enc strerr dev (s\<lparr>running := True\<rparr>, e, tr1, b, h1) = Some (res, s1, e1, tr2, b1, h2)"
      using assms(2) i run s(3) by (auto simp: main_server_def server_run_def Let_def split: option.splits)
    then have "record_device fuel pa (data_callback (install_data_callback env enc strerr (no_callbacks :: (_, unit) callbacks)))
        (device (s\<lparr>running := True\<rparr>)) (b, (s\<lparr>running := True\<rparr>, e, tr1), h1) = Some (res, b1, (s1, e1, tr2), h2)"
      by (auto simp: backend_record_def s(3))
    from record_packets [OF assms(1) s(1,2) this] s obtain new where new: "h2 = h1 @ new"
        "pushed_frames tr2 = pushed_frames tr @ packets enc dev e (captured new)"
        "first_failure enc dev e (captured new) \<noteq> None \<longrightarrow> (\<exists>err. res = Inl err)"
      by (auto split: option.splits)
    have "captured h' = captured h2 \<and> pushed_frames tr' = pushed_frames tr2 \<and> ((\<exists>err. res = Inl err) \<longrightarrow> status = Exited 1)"
    proof (cases res)
      case (Inl err)
      with assms(2) i run s(3) r show ?thesis
        by (auto simp: main_server_def server_run_def Let_def destroy_server_pushes_nothing split: prod.splits)
    next
      case (Inr u)
      obtain s3 tr3 b3 where st: "server_stop (s1\<lparr>running := False\<rparr>, tr2, b1) = (s3, tr3, b3)" by (metis surj_pair)
      obtain s4 tr4 b4 where de: "destroy_server (s3, tr3, b3) = (s4, tr4, b4)" by (metis surj_pair)
      from Inr assms(2) i run s(3) r st de show ?thesis
        using destroy_server_pushes_nothing(2) [OF st] destroy_server_pushes_nothing(1) [OF de]
        by (auto simp: main_server_def server_run_def Let_def)
    qed
    with new h1 run(2,3) show ?thesis by (auto simp: captured_append)
  qed
qed

section \<open>Property\<close>

text \<open>C3. What server mode sends. However \<open>main\<close> ends in server mode (no PulseAudio, no device chosen, no
  RTP session, a stream that failed, an encoder that failed, a shutdown), the frames pushed to RTP in
  the whole run are exactly the packets of the fragments captured in it, in the order captured; and
  nothing is captured unless it comes from the device that was chosen. If the encoder fails on a captured
  fragment, the packets stop before it and the exit code is 1.\<close>

theorem server_mode_sends:
  assumes "opus_encode_contract enc"
    and "main_server fuel pa env enc opus_error strerr op line cfg (e, tr, h) = Some (status, tr', h')"
  shows "\<exists>dev new. captured h' = captured h @ new \<and> pushed_frames tr' = pushed_frames tr @ packets enc dev e new \<and>
    (first_failure enc dev e new \<noteq> None \<longrightarrow> status = Exited 1) \<and>
    (new \<noteq> [] \<longrightarrow> (\<exists>inputs. get_inputs op = Inr inputs \<and> choose_device_interactive line inputs = Inr dev))"
  by (rule server_mode_packets [OF assms])

text \<open>A run that records one frame of the mono microphone and sends its packet.\<close>

lemma mono_record_any:
  assumes "is_source dev" and "pa_stream b = None" and "length h \<le> 1" and "f (replicate 1920 7) c = (Inr (), c')"
  shows "\<exists>b' h'. record_device 3 mono_pa (Some f) dev (b, c, h) = Some (Inr (), b', c', h') \<and>
    captured h' = captured h @ [replicate 1920 7]"
proof -
  have pa: "shutdown_seen mono_pa h = (6 \<le> length h)" "stop_seen mono_pa h = False"
    "iterate_events mono_pa h = [ReadEvent [PeekData (replicate 1920 7)]]" "stream_new_result mono_pa h = Some 3"
    "connect_record_result mono_pa h = 0" "stream_get_state mono_pa h = PA_STREAM_READY" for h
    by (simp_all add: mono_pa_def capture_pa_def)
  from assms show ?thesis
    by (simp add: record_device_def destroy_stream_def pa captured_append
        wait_for_stream_ready.simps record_loop.simps mainloop_iterate_def numeral_3_eq_3 Let_def
        fragments_def List.map_filter_def)
qed

lemma mono_server_run:
  obtains tr' h' where "main_server 3 mono_pa sample_uvg toy_encoder 0 (\<lambda>_. []) (Op [[(Some mono_info, 0), (None, 1)]]) []
      cfg (0, [], []) = Some (Exited 0, tr', h')"
    and "captured h' = [replicate 1920 7]" and "pushed_frames tr' = [[7]]"
proof -
  let ?dev = "source_device mono_info"
  have inputs: "get_inputs (Op [[(Some mono_info, 0), (None, 1)]]) = Inr [?dev]"
    by (simp add: get_inputs_def pa_sourcelist_cb_def new_audio_device_def source_device_def)
  have choice: "choose_device_interactive [] [?dev] = Inr ?dev"
    by (simp add: choose_device_interactive_def read_int_def)
  obtain s tr1 where new: "new_server sample_uvg 0 (\<lambda>_. []) (local_ip cfg, local_port cfg)
      (remote_ip cfg, remote_port cfg) ?dev [] = (Inr s, tr1)"
      and dev: "device s = ?dev"
    by (simp add: new_server_def new_rtp_sender_def init_rtp_def sample_uvg_def Let_def)
  from new have ok: "server_ok (s\<lparr>running := True\<rparr>)" "is_initialised (srv_rtp (s\<lparr>running := True\<rparr>))"
    by (auto simp: new_server_def new_rtp_sender_def init_rtp_def sample_uvg_def server_ok_def is_initialised_def Let_def)
  obtain r s1 e1 tr2 where cb: "server_data_callback sample_uvg toy_encoder (\<lambda>_. []) (Some (replicate 1920 7)) (s\<lparr>running := True\<rparr>, 0, tr1) = (r, s1, e1, tr2)"
    by (metis surj_pair)
  have "encoder_input ?dev (replicate 1920 7) = encoder_input (toy_device 1) (replicate 1920 7)"
    by (simp add: encoder_input_def source_device_def mono_info_def toy_device_def new_audio_device_def)
  with data_callback_step [OF toy_encoder_contract ok cb] new_server_pushes_nothing [OF new]
  have r: "r = Inr ()" "pushed_frames tr2 = [[7]]"
    by (simp_all add: dev mono_input toy_encode_dup pushed_frames_def List.map_filter_def)
  obtain b1 h1 where
    rec: "backend_record 3 mono_pa sample_uvg toy_encoder (\<lambda>_. []) ?dev (s\<lparr>running := True\<rparr>, 0, tr1, fresh_backend, [ContextConnect 0]) =
      Some (Inr (), s1, e1, tr2, b1, h1)" and h1: "captured h1 = [replicate 1920 7]"
    using mono_record_any [of ?dev fresh_backend "[ContextConnect 0]" "server_cb sample_uvg toy_encoder (\<lambda>_. [])", OF _ _ _ cb [unfolded r(1)]]
    by (auto simp: backend_record_def source_device_def fresh_backend_def captured_def fragments_def List.map_filter_def)
  obtain s3 tr3 b3 where st: "server_stop (s1\<lparr>running := False\<rparr>, tr2, b1) = (s3, tr3, b3)" by (metis surj_pair)
  obtain s4 tr4 b4 where de: "destroy_server (s3, tr3, b3) = (s4, tr4, b4)" by (metis surj_pair)
  have inst: "backend_instance mono_pa None [] = Some (Inr fresh_backend, [ContextConnect 0])"
    using new_backend_fresh by (simp add: backend_instance_def mono_pa_def capture_pa_def)
  have "main_server 3 mono_pa sample_uvg toy_encoder 0 (\<lambda>_. []) (Op [[(Some mono_info, 0), (None, 1)]]) []
      cfg (0, [], []) = Some (Exited 0, tr4, exit_process mono_pa (Some b4) h1)"
    by (simp add: main_server_def inst inputs choice new server_run_def dev rec st de Let_def)
  moreover have "pushed_frames tr4 = [[7]]"
    using destroy_server_pushes_nothing(2) [OF st] destroy_server_pushes_nothing(1) [OF de] r(2) by simp
  ultimately show thesis using that h1 by simp
qed

theorem server_mode_sends_witness:
  "\<exists>tr' h'. main_server 3 mono_pa sample_uvg toy_encoder 0 (\<lambda>_. []) (Op [[(Some mono_info, 0), (None, 1)]]) []
      sample_config_record (0, [], []) = Some (Exited 0, tr', h') \<and> pushed_frames tr' = [[7]] \<and>
    (\<exists>dev. pushed_frames tr' = packets toy_encoder dev 0 [replicate 1920 7])"
proof -
  obtain tr' h' where run: "main_server 3 mono_pa sample_uvg toy_encoder 0 (\<lambda>_. []) (Op [[(Some mono_info, 0), (None, 1)]]) []
      sample_config_record (0, [], []) = Some (Exited 0, tr', h')"
      and h': "captured h' = [replicate 1920 7]" and tr': "pushed_frames tr' = [[7]]" by (rule mono_server_run [where cfg = sample_config_record])
  have "captured [] = []" "pushed_frames [] = []"
    by (simp_all add: captured_def pushed_frames_def fragments_def List.map_filter_def)
  with server_mode_sends [OF toy_encoder_contract run] run h' tr' show ?thesis by auto
qed

end
