(* ===== verification/Addresses.thy ===== *)
theory Addresses
  imports Server_Main
begin

text \<open>
  Where the packets go. Every call to uvgRTP that one of the two modes makes carries the sockets of its
  configuration, so that two peers with the same file talk to each other.
\<close>

section \<open>Calls of one side\<close>

text \<open>A call that a sender, or a receiver, with these sockets may make.\<close>

fun made_for :: "bool \<Rightarrow> socket \<Rightarrow> socket \<Rightarrow> uvg_call \<Rightarrow> bool" where
  "made_for sending l r (CreateSession a b answer) \<longleftrightarrow> a = fst l \<and> b = fst r"
| "made_for sending l r (CreateStream s lport rport flags answer) \<longleftrightarrow> lport = snd l \<and> rport = snd r \<and>
     flags = (if sending then default_send_flags else default_recv_flags)"
| "made_for sending l r (InstallHook st self hook) \<longleftrightarrow> \<not> sending"
| "made_for sending l r (PushFrame st data status) \<longleftrightarrow> sending"
| "made_for sending l r (DestroyStream s st) \<longleftrightarrow> True"
| "made_for sending l r (DestroySession s) \<longleftrightarrow> True"

definition only_for :: "bool \<Rightarrow> socket \<Rightarrow> socket \<Rightarrow> uvg_call list \<Rightarrow> bool" where
  "only_for sending l r tr \<longleftrightarrow> list_all (made_for sending l r) tr"

lemma only_for_simps [simp]:
  "only_for sending l r []" "only_for sending l r (tr @ cs) \<longleftrightarrow> only_for sending l r tr \<and> only_for sending l r cs"
  "only_for sending l r (c # cs) \<longleftrightarrow> made_for sending l r c \<and> only_for sending l r cs"
  by (simp_all add: only_for_def)

lemma init_rtp_for:
  "init_rtp env sending (snd l) (snd r) x tr = (res, tr') \<Longrightarrow> only_for sending l r tr \<Longrightarrow> only_for sending l r tr'"
  by (auto simp: init_rtp_def Let_def split: option.splits if_splits)

lemma new_rtp_for:
  "new_rtp_sender env l r tr = (res, tr') \<Longrightarrow> only_for True l r tr \<Longrightarrow> only_for True l r tr'"
  "new_rtp_receiver env l r cb tr = (res, tr') \<Longrightarrow> only_for False l r tr \<Longrightarrow> only_for False l r tr'"
  by (auto simp: new_rtp_sender_def new_rtp_receiver_def Let_def dest!: init_rtp_for)

lemma stop_for: "stop (x, tr) = (x', tr') \<Longrightarrow> only_for sending l r tr \<Longrightarrow> only_for sending l r tr'"
  by (auto simp: stop_def Let_def split: option.splits if_splits)

lemma write_frames_for: "write_frames env data (x, tr) = (x', tr') \<Longrightarrow> only_for True l r tr \<Longrightarrow> only_for True l r tr'"
  by (auto simp: write_frames_def split: option.splits if_splits)

section \<open>Server mode\<close>

lemma new_server_for:
  assumes "new_server env oe strerr l r dev tr = (res, tr')" and "only_for True l r tr"
  shows "only_for True l r tr'"
proof -
  obtain x tr0 where n: "new_rtp_sender env l r tr = (x, tr0)" by (metis surj_pair)
  from new_rtp_for(1) [OF this assms(2)] assms(1) n stop_for [of _ tr0] show ?thesis
    by (auto simp: new_server_def destroy_rtp_def split: sum.splits if_splits dest: snd_eqD)
      (metis prod.collapse)
qed

lemma server_cb_for:
  assumes "server_data_callback env enc strerr d (s, e, tr) = (res, s', e', tr')" and "only_for True l r tr"
  shows "only_for True l r tr'"
  using assms by (auto simp: server_data_callback_def Let_def dest: write_frames_for split: sum.splits prod.splits if_splits)

lemma consume_for:
  assumes "consume (server_cb env enc strerr) fs (s, e, tr) = (res, s', e', tr')" and "only_for True l r tr"
  shows "only_for True l r tr'"
proof -
  have "(\<lambda>(s, e, t). only_for True l r t) (snd (consume (server_cb env enc strerr) fs (s, e, tr)))"
    by (rule consume_invariant) (use assms(2) in \<open>auto dest: server_cb_for\<close>)
  with assms(1) show ?thesis by simp
qed

lemma backend_record_for:
  assumes "backend_record fuel pa env enc strerr dev (s, e, tr, b, h) = Some (res, s', e', tr', b', h')"
    and "only_for True l r tr"
  shows "only_for True l r tr'"
proof -
  from assms(1) have "record_device fuel pa (Some (server_cb env enc strerr)) dev (b, (s, e, tr), h) = Some (res, b', (s', e', tr'), h')"
    by (auto simp: backend_record_def)
  from record_device_fed [OF this] obtain thrown new where
    "consume (server_cb env enc strerr) (captured new) (s, e, tr) = (thrown, s', e', tr')" unfolding fed_def by blast
  from consume_for [OF this assms(2)] show ?thesis .
qed

lemma end_server_for:
  "destroy_server (s, tr, a) = (s', tr', a') \<Longrightarrow> only_for sending l r tr \<Longrightarrow> only_for sending l r tr'"
  "server_stop (s, tr, a) = (s', tr', a') \<Longrightarrow> only_for sending l r tr \<Longrightarrow> only_for sending l r tr'"
  by (auto simp: destroy_server_def server_stop_def dest: stop_for split: prod.splits)

lemma stopped_server_for:
  assumes "destroy_server (server_stop (s, tr, a)) = (s', tr', a')" and "only_for sending l r tr"
  shows "only_for sending l r tr'"
proof -
  obtain s1 tr1 a1 where st: "server_stop (s, tr, a) = (s1, tr1, a1)" by (metis surj_pair)
  from end_server_for(1) [of s1 tr1 a1] end_server_for(2) [OF st assms(2)] assms(1) st show ?thesis by simp
qed

lemma main_server_for:
  assumes "main_server fuel pa env enc oe strerr op line cfg (e, tr, h) = Some (status, tr', h')"
    and "only_for True (local_ip cfg, local_port cfg) (remote_ip cfg, remote_port cfg) tr"
  shows "only_for True (local_ip cfg, local_port cfg) (remote_ip cfg, remote_port cfg) tr'"
  using assms
  by (auto simp: main_server_def server_run_def Let_def dest!: new_server_for [OF _ assms(2)] backend_record_for end_server_for stopped_server_for
      split: option.splits sum.splits list_error.splits rtp_error.splits prod.splits)

section \<open>Client mode\<close>

lemma connect_for:
  assumes "connect env shut l r self limit attempt s = (res, s')" and "only_for False l r (conn_calls s)"
  shows "only_for False l r (conn_calls s')"
  using assms
proof (induction "Suc limit - attempt" arbitrary: attempt s)
  case 0
  then show ?case by (subst (asm) connect.simps) simp
next
  case (Suc n)
  obtain tr r0 where c: "new_rtp_receiver env l r (make_recv_callback self) (conn_calls s) = (r0, tr)"
    by (metis surj_pair)
  have tr: "only_for False l r tr" by (rule new_rtp_for(2) [OF c Suc.prems(2)])
  have le: "attempt \<le> limit" "n = Suc limit - Suc attempt" using Suc.hyps(2) by simp_all
  show ?case
    using Suc.prems(1) le(1) tr Suc.hyps(1) [OF le(2)]
    by (subst (asm) connect.simps)
      (auto simp: c conn_set_error_def set_error_def Let_def split: sum.splits rtp_error.splits prod.splits if_splits)
qed

lemma new_client_for:
  assumes "new_client env shut oe strerr self l r pol tr a k = (res, s)" and "only_for False l r tr"
  shows "only_for False l r (conn_calls s)"
  using assms
  by (auto simp: new_client_def conn_set_error_def set_error_def Let_def dest!: connect_for split: if_splits prod.splits sum.splits)

lemma end_client_for:
  "client_request_shutdown (c, tr, a) = (c', tr', a') \<Longrightarrow> only_for sending l r tr \<Longrightarrow> only_for sending l r tr'"
  "destroy_client (c, tr) = (c', tr') \<Longrightarrow> only_for sending l r tr \<Longrightarrow> only_for sending l r tr'"
  by (auto simp: client_request_shutdown_def destroy_client_def destroy_rtp_def Let_def dest: stop_for split: option.splits prod.splits)

lemma main_client_for:
  assumes "main_client fuel wfuel mfuel pa env shut healthy_at dec oe strerr self arrivals cfg (d, tr, h) = Some (status, tr', h')"
    and "only_for False (local_ip cfg, local_port cfg) (remote_ip cfg, remote_port cfg) tr"
  shows "only_for False (local_ip cfg, local_port cfg) (remote_ip cfg, remote_port cfg) tr'"
  using assms
  by (auto simp: main_client_def dest!: new_client_for [OF _ assms(2)] end_client_for
      split: option.splits sum.splits rtp_error.splits prod.splits)

section \<open>Property\<close>

text \<open>C33. Two peers with one configuration file meet. If the file loads in both modes, every session and
  stream that a run of the server creates sends from the server's socket to the client's, and every one
  that a run of the client creates receives on the client's socket from the server's; the server installs
  no receive hook and the client pushes nothing.\<close>

theorem peers_meet:
  assumes "new_config cenv path CLIENT = Inr c" and "new_config cenv path SERVER = Inr s"
    and "main_server sfuel spa senv enc soe sstrerr op line s (e, [], sh) = Some (sstatus, sent, sh')"
    and "main_client fuel wfuel mfuel pa env shut healthy_at dec oe strerr self arrivals c (d, [], h) = Some (status, received, h')"
  shows "list_all (made_for True (local_ip s, local_port s) (local_ip c, local_port c)) sent \<and>
    list_all (made_for False (local_ip c, local_port c) (local_ip s, local_port s)) received"
  using main_server_for [OF assms(3)] main_client_for [OF assms(4)] peers_agree [OF assms(1,2)]
  by (simp flip: only_for_def)

theorem peers_meet_witness:
  "\<exists>c s sent sh' received h'. new_config (sample_env sample_table) ''./audpipe.toml'' CLIENT = Inr c \<and>
     new_config (sample_env sample_table) ''./audpipe.toml'' SERVER = Inr s \<and>
     main_server 3 mono_pa sample_uvg toy_encoder 0 (\<lambda>_. []) (Op [[(Some mono_info, 0), (None, 1)]]) [] s (0, [], []) =
       Some (Exited 0, sent, sh') \<and>
     main_client 3 1 3 sample_pa sample_uvg (\<lambda>k. False) (\<lambda>k. k < 2) toy_decoder 0 (\<lambda>_. []) 1 [] c (0, [], []) =
       Some (Exited 0, received, h') \<and>
     list_all (made_for True (''::1'', 8179) (''::1'', 7981)) sent \<and> list_all (made_for False (''::1'', 7981) (''::1'', 8179)) received"
proof -
  obtain c s where c: "new_config (sample_env sample_table) ''./audpipe.toml'' CLIENT = Inr c" "local_ip c = ''::1''" "local_port c = 7981"
      "connection c = default_policy"
    and s: "new_config (sample_env sample_table) ''./audpipe.toml'' SERVER = Inr s" "local_ip s = ''::1''" "local_port s = 8179"
    by (simp add: sample_config)
  obtain sent sh' where server: "main_server 3 mono_pa sample_uvg toy_encoder 0 (\<lambda>_. []) (Op [[(Some mono_info, 0), (None, 1)]]) [] s (0, [], []) =
       Some (Exited 0, sent, sh')" by (rule mono_server_run [where cfg = s])
  have "max_retries (connection c) = 3" by (simp add: c(4) default_policy_def)
  then obtain received b h where client: "main_client 3 1 3 sample_pa sample_uvg (\<lambda>k. False) (\<lambda>k. k < 2) toy_decoder 0 (\<lambda>_. []) 1 [] c (0, [], []) =
       Some (Exited 0, received, exit_process sample_pa (Some b) h)" by (rule sample_client_run_any)
  from peers_meet [OF c(1) s(1) server client] c s server client show ?thesis by auto
qed

end
