(* ===== verification/Signals.thy ===== *)
theory Signals
  imports Main_Prog
begin

text \<open>
  How a signal becomes a shutdown request (\<open>src/main.cpp\<close>): \<open>main\<close> registers SIGINT and SIGTERM, waits
  for one of them asynchronously, starts the thread that runs the \<open>io_context\<close>, and only then creates
  the logger that the handler looks up; at its end it stops the context and joins the thread. Of asio
  it is used that a wait completes at most once, that handlers run inside \<open>run\<close> and not after \<open>stop\<close>, and
  that \<open>run\<close> returns when the context is stopped or nothing is left to wait for.
\<close>

section \<open>States and steps\<close>

text \<open>\<open>main\<close> before it has a logger, at work, after \<open>io.stop()\<close>, and gone.\<close>

datatype main_stage = Registering | Working | Io_Stopped | Left

record signals =
  logger_set :: bool
  sd_flag :: shutdown_state
  io_stopped :: bool
  armed :: bool
  run_done :: bool
  stage :: main_stage
  crashed :: bool

definition signals_init :: signals where
  "signals_init = \<lparr>logger_set = False, sd_flag = shutdown_init, io_stopped = False, armed = True, run_done = False,
     stage = Registering, crashed = False\<rparr>"

text \<open>\<open>leave\<close> is the \<open>exit\<close> of the help and usage texts, which neither stops nor joins.\<close>

inductive sstep :: "signals \<Rightarrow> signals \<Rightarrow> bool" where
  register: "stage s = Registering \<Longrightarrow> \<not> crashed s \<Longrightarrow> sstep s (s\<lparr>logger_set := True, stage := Working\<rparr>)"
| deliver: "armed s \<Longrightarrow> \<not> io_stopped s \<Longrightarrow> \<not> run_done s \<Longrightarrow> \<not> crashed s \<Longrightarrow>
    asio_signal_handler error (logger_set s) (sd_flag s, io_stopped s) = Inr (sd, st) \<Longrightarrow>
    sstep s (s\<lparr>sd_flag := sd, io_stopped := st, armed := False\<rparr>)"
| deliver_crash: "armed s \<Longrightarrow> \<not> io_stopped s \<Longrightarrow> \<not> run_done s \<Longrightarrow> \<not> crashed s \<Longrightarrow>
    asio_signal_handler error (logger_set s) (sd_flag s, io_stopped s) = Inl NullDeref \<Longrightarrow>
    sstep s (s\<lparr>crashed := True\<rparr>)"
| run_returns: "io_stopped s \<or> \<not> armed s \<Longrightarrow> \<not> run_done s \<Longrightarrow> \<not> crashed s \<Longrightarrow> sstep s (s\<lparr>run_done := True\<rparr>)"
| leave: "stage s = Working \<Longrightarrow> \<not> crashed s \<Longrightarrow> sstep s (s\<lparr>stage := Left\<rparr>)"
| finish: "stage s = Working \<Longrightarrow> \<not> crashed s \<Longrightarrow> sstep s (s\<lparr>io_stopped := True, stage := Io_Stopped\<rparr>)"
| joined: "stage s = Io_Stopped \<Longrightarrow> run_done s \<Longrightarrow> \<not> crashed s \<Longrightarrow> sstep s (s\<lparr>stage := Left\<rparr>)"

inductive_cases sstepE: "sstep s t"

inductive sreach :: "signals \<Rightarrow> bool" where
  sreach_init: "sreach signals_init"
| sreach_step: "sreach s \<Longrightarrow> sstep s t \<Longrightarrow> sreach t"

lemma handler_cases [simp]:
  "asio_signal_handler error False x = Inl NullDeref"
  "asio_signal_handler error True (sd, st) = Inr (if error = No_Error then (request_shutdown sd, True) else (sd, st))"
  by (cases x) (simp_all add: asio_signal_handler_def)

section \<open>The invariant\<close>

definition signals_ok :: "signals \<Rightarrow> bool" where
  "signals_ok s \<longleftrightarrow> (logger_set s \<longleftrightarrow> stage s \<noteq> Registering) \<and> (crashed s \<longrightarrow> \<not> logger_set s) \<and>
     (is_shutdown_requested (sd_flag s) \<longrightarrow> \<not> armed s \<and> io_stopped s \<and> logger_set s) \<and>
     (stage s = Io_Stopped \<longrightarrow> io_stopped s) \<and> (\<not> logger_set s \<longrightarrow> armed s \<and> \<not> io_stopped s \<and> \<not> run_done s)"

lemma signals_ok_step:
  assumes "sstep s t" and "signals_ok s"
  shows "signals_ok t"
  using assms
  by (cases rule: sstep.cases; cases "logger_set s")
    (auto simp: signals_ok_def request_shutdown_def is_shutdown_requested_def split: if_splits)

lemma sreach_ok: "sreach s \<Longrightarrow> signals_ok s"
proof (induction rule: sreach.induct)
  case sreach_init
  show ?case by (simp add: signals_ok_def signals_init_def shutdown_init_def is_shutdown_requested_def)
qed (rule signals_ok_step)

lemma no_second_signal: "sstep s t \<Longrightarrow> \<not> armed s \<Longrightarrow> sd_flag t = sd_flag s \<and> \<not> armed t \<and> crashed t = crashed s"
  by (erule sstepE) simp_all

section \<open>Properties\<close>

text \<open>C29. Signals. However the signal thread and \<open>main\<close> interleave: a shutdown request comes from one completed
  wait, which also stops the \<open>io_context\<close>; the first completed wait is the last, so that later signals
  change nothing; the handler crashes only if it runs before \<open>main\<close> has created the logger, and until then
  a signal does crash it; and once
  \<open>main\<close> has stopped the context, the thread it joins has ended or can end.\<close>

theorem signals_handled_once:
  assumes "sreach s"
  shows "(is_shutdown_requested (sd_flag s) \<longrightarrow> \<not> armed s \<and> io_stopped s) \<and>
    (\<not> armed s \<longrightarrow> (\<forall>t. sstep s t \<longrightarrow> sd_flag t = sd_flag s \<and> \<not> armed t \<and> \<not> crashed t)) \<and>
    (crashed s \<longrightarrow> stage s = Registering) \<and>
    (stage s = Registering \<and> \<not> crashed s \<longrightarrow> sstep s (s\<lparr>crashed := True\<rparr>)) \<and>
    (stage s = Io_Stopped \<longrightarrow> run_done s \<or> sstep s (s\<lparr>run_done := True\<rparr>))"
proof -
  have ok: "signals_ok s" by (rule sreach_ok [OF assms])
  have "\<not> crashed s" if "\<not> armed s \<or> stage s = Io_Stopped" using ok that by (auto simp: signals_ok_def)
  moreover have "sstep s (s\<lparr>crashed := True\<rparr>)" if "stage s = Registering" "\<not> crashed s"
    using ok that by (intro deliver_crash [of _ No_Error]) (auto simp: signals_ok_def asio_signal_handler_def split: prod.splits)
  ultimately show ?thesis using ok no_second_signal [of s] run_returns [of s] by (auto simp: signals_ok_def)
qed

theorem signals_handled_once_witness:
  "\<exists>s. sreach s \<and> is_shutdown_requested (sd_flag s) \<and> \<not> armed s \<and> sstep s (s\<lparr>run_done := True\<rparr>)"
proof -
  let ?s1 = "signals_init\<lparr>logger_set := True, stage := Working\<rparr>"
  let ?s2 = "?s1\<lparr>sd_flag := request_shutdown (sd_flag ?s1), io_stopped := True, armed := False\<rparr>"
  let ?s3 = "?s2\<lparr>io_stopped := True, stage := Io_Stopped\<rparr>"
  have "sstep signals_init ?s1" by (rule register) (simp_all add: signals_init_def)
  moreover have "sstep ?s1 ?s2" by (rule deliver [of _ No_Error]) (simp_all add: signals_init_def)
  moreover have "sstep ?s2 ?s3" by (rule finish) (simp_all add: signals_init_def)
  ultimately have r: "sreach ?s3" by (blast intro: sreach.intros)
  have "is_shutdown_requested (sd_flag ?s3)" "\<not> run_done ?s3" "stage ?s3 = Io_Stopped"
    by (simp_all add: request_shutdown_def is_shutdown_requested_def signals_init_def)
  with signals_handled_once [OF r] r show ?thesis by (intro exI [of _ ?s3]) blast
qed

text \<open>A signal that arrives after the thread was started and before the logger exists crashes the program.\<close>

theorem early_signal_crashes: "sreach (signals_init\<lparr>crashed := True\<rparr>)"
proof -
  have "sstep signals_init (signals_init\<lparr>crashed := True\<rparr>)"
    by (rule deliver_crash [of _ No_Error]) (simp_all add: signals_init_def)
  then show ?thesis by (blast intro: sreach.intros)
qed

end
