(* ===== verification/Virtual_Input_Spec.thy ===== *)
theory Virtual_Input_Spec
  imports Virtual_Input
begin

text \<open>
  The virtual microphone as its callers see it: an abstract state machine with two kinds of states,
  and the proof that every operation of the backend is a step of it, whatever PulseAudio and the
  operating system answer.
\<close>

section \<open>The abstract machine\<close>

text \<open>No virtual input, with the error last recorded; or one with the index of its module and its error.
  The empty text is no error.\<close>

datatype vi_state = Down string | Up u32 string

datatype vi_label = SetupCall | RunCall | StopCall | DestroyCall

text \<open>A step carries the outcome of the call: it returned, or threw with that text.\<close>

inductive vi_spec :: "vi_label \<Rightarrow> vi_state \<Rightarrow> string + unit \<Rightarrow> vi_state \<Rightarrow> bool" where
  setup_made: "i \<noteq> pa_invalid_index \<Longrightarrow> vi_spec SetupCall (Down e) (Inr ()) (Up i [])"
| setup_failed: "e' \<noteq> [] \<Longrightarrow> vi_spec SetupCall (Down e) (Inl e') (Down e')"
| setup_again: "vi_spec SetupCall (Up i e) (Inr ()) (Up i e)"
| run_returned: "vi_spec RunCall (Up i []) (Inr ()) (Up i [])"
| run_broke: "e' \<noteq> [] \<Longrightarrow> vi_spec RunCall (Up i e) (Inl e') (Up i e')"
| run_down: "e' \<noteq> [] \<Longrightarrow> vi_spec RunCall (Down e) (Inl e') (Down e')"
| stop_call: "vi_spec StopCall x (Inr ()) x"
| destroy_done: "vi_spec DestroyCall (Up i e) (Inr ()) (Down [])"
| destroy_unseen: "vi_spec DestroyCall (Up i e) (Inr ()) (Down e)"
| destroy_down: "vi_spec DestroyCall (Down e) (Inr ()) (Down e)"

inductive_cases vi_specE: "vi_spec l x r y"

text \<open>Sequences of steps, with their labels and outcomes.\<close>

inductive vi_run :: "vi_state \<Rightarrow> (vi_label \<times> (string + unit)) list \<Rightarrow> vi_state \<Rightarrow> bool" where
  vi_run_nil: "vi_run x [] x"
| vi_run_cons: "vi_spec l x r y \<Longrightarrow> vi_run y ls z \<Longrightarrow> vi_run x ((l, r) # ls) z"

inductive_simps vi_run_simps [simp]: "vi_run x [] z" "vi_run x (l # ls) z"

section \<open>What the machine shows\<close>

definition broken :: "vi_state \<Rightarrow> bool" where
  "broken x \<longleftrightarrow> (\<exists>i e. x = Up i e \<and> e \<noteq> [])"

lemma broken_step:
  "vi_spec l x r y \<Longrightarrow> broken x \<Longrightarrow> l \<noteq> DestroyCall \<Longrightarrow>
     broken y \<and> (l = SetupCall \<longrightarrow> r = Inr ()) \<and> (l = RunCall \<longrightarrow> r \<noteq> Inr ())"
  by (erule vi_specE) (auto simp: broken_def)

lemma broken_run:
  "vi_run x ls z \<Longrightarrow> broken x \<Longrightarrow> DestroyCall \<notin> fst ` set ls \<Longrightarrow>
     broken z \<and> (\<forall>(l, r) \<in> set ls. (l = SetupCall \<longrightarrow> r = Inr ()) \<and> (l = RunCall \<longrightarrow> r \<noteq> Inr ()))"
proof (induction rule: vi_run.induct)
  case (vi_run_cons l x r y ls z)
  with broken_step [OF vi_run_cons.hyps(1)] show ?case by auto
qed simp

section \<open>The backend against the machine\<close>

definition vi_abs :: "backend \<Rightarrow> vi_state" where
  "vi_abs b = (if virtual_source_loaded b then Up (virtual_source_mod_idx b) (virtual_input_error b)
               else Down (virtual_input_error b))"

fun label_of :: "vi_op \<Rightarrow> vi_label" where
  "label_of (Setup fuel) = SetupCall"
| "label_of (Run fuel wfuel) = RunCall"
| "label_of Stop = StopCall"
| "label_of Destroy = DestroyCall"

text \<open>A call with its outcome; \<open>vi_step\<close> is what it leaves.\<close>

fun vi_call :: "pa_env \<Rightarrow> 's write_callback option \<Rightarrow> vi_op \<Rightarrow> backend \<times> 's \<times> history
    \<Rightarrow> ((string + unit) \<times> backend \<times> 's \<times> history) option" where
  "vi_call env cb (Setup fuel) (b, s, tr) =
     map_option (\<lambda>(res, b1, tr1). (res, b1, s, tr1)) (setup_virtual_input fuel env b tr)"
| "vi_call env cb (Run fuel wfuel) p = run_virtual_input fuel wfuel env cb p"
| "vi_call env cb Stop (b, s, tr) = Some (Inr (), stop_recording b, s, tr)"
| "vi_call env cb Destroy (b, s, tr) = (case destroy_virtual_input env b tr of (b1, tr1) \<Rightarrow> Some (Inr (), b1, s, tr1))"

lemma vi_step_call: "vi_step env cb op p = map_option snd (vi_call env cb op p)"
  by (cases op; cases p) (auto simp: option.map_comp comp_def split_def)

fun vi_calls :: "pa_env \<Rightarrow> 's write_callback option \<Rightarrow> vi_op list \<Rightarrow> backend \<times> 's \<times> history
    \<Rightarrow> ((string + unit) list \<times> backend \<times> 's \<times> history) option" where
  "vi_calls env cb [] p = Some ([], p)"
| "vi_calls env cb (op # ops) p = (case vi_call env cb op p of
     None \<Rightarrow> None
   | Some (r, p1) \<Rightarrow> map_option (\<lambda>(rs, p2). (r # rs, p2)) (vi_calls env cb ops p1))"

lemma vi_call_refines:
  assumes "load_completes env" and "vi_inv b tr" and "vi_call env cb op (b, s, tr) = Some (res, b', s', tr')"
  shows "vi_spec (label_of op) (vi_abs b) res (vi_abs b') \<and> vi_inv b' tr'"
proof -
  have inv: "vi_inv b' tr'"
    by (rule vi_inv_step [OF assms(1,2), where cb = cb and op = op and s = s and s' = s']) (simp add: vi_step_call assms(3))
  have "vi_spec (label_of op) (vi_abs b) res (vi_abs b')"
  proof (cases op)
    case (Setup fuel)
    with assms(3) have su: "setup_virtual_input fuel env b tr = Some (res, b', tr')" by auto
    show ?thesis
    proof (cases "virtual_source_loaded b")
      case True
      with su have "res = Inr () \<and> b' = b" by (simp add: setup_virtual_input_eq)
      with True Setup show ?thesis by (simp add: vi_abs_def setup_again)
    next
      case False
      note c = setup_cases [OF su assms(1,2) False]
      show ?thesis
      proof (cases res)
        case (Inl err)
        with c False Setup show ?thesis by (simp add: vi_abs_def setup_failed)
      next
        case (Inr u)
        with c have "virtual_source_loaded b'" "virtual_input_error b' = []" by (simp_all add: is_virtual_input_ready_def)
        moreover from this inv have "virtual_source_mod_idx b' \<noteq> pa_invalid_index" by (simp add: vi_inv_def)
        ultimately show ?thesis using Inr False Setup by (simp add: vi_abs_def setup_made)
      qed
    qed
  next
    case (Run fuel wfuel)
    with assms(3) have "run_virtual_input fuel wfuel env cb (b, s, tr) = Some (res, b', s', tr')" by simp
    from run_virtual_input_outcome [OF this, of "[]"] Run show ?thesis
      by (cases res) (auto simp: vi_abs_def is_virtual_input_ready_def set_virtual_input_error_def
          intro: run_returned run_broke run_down)
  next
    case Stop
    with assms(3) show ?thesis by (auto simp: vi_abs_def stop_recording_def intro: stop_call)
  next
    case Destroy
    with assms(3) have d: "destroy_virtual_input env b tr = (b', tr')" "res = Inr ()"
      by (auto split: prod.splits)
    show ?thesis
    proof (cases "virtual_source_loaded b")
      case True
      with assms(2) have idx: "virtual_source_mod_idx b \<noteq> pa_invalid_index" by (simp add: vi_inv_def)
      from d(1) True idx have "\<not> virtual_source_loaded b' \<and> (virtual_input_error b' = [] \<or> virtual_input_error b' = virtual_input_error b)"
        by (auto simp: destroy_virtual_input_def Let_def split: if_splits sum.splits)
      with True Destroy d(2) show ?thesis by (auto simp: vi_abs_def intro: destroy_done destroy_unseen)
    next
      case False
      with d(1) have "\<not> virtual_source_loaded b' \<and> virtual_input_error b' = virtual_input_error b"
        by (auto simp: destroy_virtual_input_def Let_def split: if_splits)
      with False Destroy d(2) show ?thesis by (simp add: vi_abs_def destroy_down)
    qed
  qed
  with inv show ?thesis by simp
qed

lemma vi_calls_refine:
  "load_completes env \<Longrightarrow> vi_inv b tr \<Longrightarrow> vi_calls env cb ops (b, s, tr) = Some (rs, b', s', tr') \<Longrightarrow>
     vi_run (vi_abs b) (zip (map label_of ops) rs) (vi_abs b') \<and> vi_inv b' tr' \<and> length rs = length ops"
proof (induction ops arbitrary: b s tr rs)
  case (Cons op ops)
  obtain r b1 s1 tr1 where c: "vi_call env cb op (b, s, tr) = Some (r, b1, s1, tr1)"
    using Cons.prems(3) by (auto split: option.splits)
  with Cons.prems(3) obtain rs1 where rs: "rs = r # rs1" "vi_calls env cb ops (b1, s1, tr1) = Some (rs1, b', s', tr')"
    by auto
  note step = vi_call_refines [OF Cons.prems(1,2) c]
  with Cons.IH [OF Cons.prems(1) _ rs(2)] rs(1) show ?case by auto
qed simp

lemma vi_inv_new: "new_backend pid err its = Some (Inr b, tr) \<Longrightarrow> vi_inv b tr \<and> vi_abs b = Down []"
  by (auto simp: new_backend_def Let_def vi_inv_def vi_abs_def module_held_def fifo_made_def
      split: option.splits bool.splits)

section \<open>Properties\<close>


lemma failing_writer:
  "\<exists>s1 tr1. vi_calls sample_pa (Some (\<lambda>d (s :: unit). (Inl OtherException, d, s))) [Setup 1, Run 1 1] (fresh_backend, (), [ContextConnect 0]) =
     Some ([Inr (), Inl ''Pulseaudio virtual input write callback threw a non-std exception.''],
       set_virtual_input_error ''Pulseaudio virtual input write callback threw a non-std exception.''
         (running_backend\<lparr>playback := True\<rparr>), s1, tr1)"
  using setup_sample [of 0 "[ContextConnect 0]"]
  by (simp add: run_virtual_input_def run_loop.simps running_backend_def fresh_backend_def die_def Let_def)


text \<open>A virtual input that failed stays failed. Once running has thrown with the input loaded, then as
  long as nobody destroys it every further setup returns normally without mending it, every run
  throws, and it is never ready again, however the environment answers.\<close>

theorem broken_until_destroyed:
  assumes "load_completes env" and "vi_inv b tr" and "virtual_source_loaded b" and "virtual_input_error b \<noteq> []"
    and "Destroy \<notin> set ops" and "vi_calls env cb ops (b, s, tr) = Some (rs, b', s', tr')"
  shows "\<not> is_virtual_input_ready b' \<and> virtual_source_loaded b' \<and>
    (\<forall>k < length ops. case ops ! k of
       Setup fuel \<Rightarrow> rs ! k = Inr () | Run fuel wfuel \<Rightarrow> rs ! k \<noteq> Inr () | _ \<Rightarrow> True)"
proof -
  have br: "broken (vi_abs b)" using assms(3,4) by (simp add: broken_def vi_abs_def)
  have nd: "DestroyCall \<notin> fst ` set (zip (map label_of ops) rs)"
  proof -
    have "DestroyCall = label_of op \<Longrightarrow> op = Destroy" for op by (cases op) simp_all
    then have "DestroyCall \<notin> set (map label_of ops)" using assms(5) by auto
    moreover have "fst ` set (zip (map label_of ops) rs) \<subseteq> set (map label_of ops)" by (auto dest: set_zip_leftD)
    ultimately show ?thesis by blast
  qed
  note ref = vi_calls_refine [OF assms(1,2,6)]
  from ref have len: "length rs = length ops" by simp
  from broken_run [OF ref [THEN conjunct1] br nd] have b': "broken (vi_abs b')"
    and all: "(l, r) \<in> set (zip (map label_of ops) rs) \<Longrightarrow> (l = SetupCall \<longrightarrow> r = Inr ()) \<and> (l = RunCall \<longrightarrow> r \<noteq> Inr ())" for l r
    by auto
  have "case ops ! k of Setup fuel \<Rightarrow> rs ! k = Inr () | Run fuel wfuel \<Rightarrow> rs ! k \<noteq> Inr () | _ \<Rightarrow> True" if "k < length ops" for k
  proof -
    have "(label_of (ops ! k), rs ! k) \<in> set (zip (map label_of ops) rs)"
      using that len by (auto simp: set_zip intro!: exI [of _ k])
    from all [OF this] show ?thesis by (cases "ops ! k") simp_all
  qed
  with b' show ?thesis by (auto simp: broken_def vi_abs_def is_virtual_input_ready_def split: if_splits)
qed

theorem broken_until_destroyed_witness:
  "\<exists>rs b' s' tr'. vi_calls sample_pa (None :: unit write_callback option) [Setup 1, Run 1 1] (running_backend\<lparr>virtual_input_error := ''gone''\<rparr>, (),
       [MkFifo ''/tmp/audpipe_input_42.pcm'' None, LoadModule [] [] (Op [[7]])]) = Some (rs, b', s', tr') \<and>
     rs ! 0 = Inr () \<and> rs ! 1 \<noteq> Inr ()"
proof -
  let ?b = "running_backend\<lparr>virtual_input_error := ''gone''\<rparr>"
  let ?tr = "[MkFifo ''/tmp/audpipe_input_42.pcm'' None, LoadModule [] [] (Op [[7]])]"
  have b: "virtual_source_loaded ?b" "virtual_input_error ?b \<noteq> []"
    by (simp_all add: running_backend_def)
  have inv: "vi_inv ?b ?tr"
    by (simp add: vi_inv_def running_backend_def fresh_backend_def module_held_def fifo_made_def pa_load_module_cb_def
        pa_invalid_index_def)
  obtain rs b' s' tr' where c: "vi_calls sample_pa (None :: unit write_callback option) [Setup 1, Run 1 1] (?b, (), ?tr) = Some (rs, b', s', tr')"
    using b by (simp add: setup_virtual_input_eq run_virtual_input_def die_def Let_def)
  from broken_until_destroyed [OF sample_loads inv b _ c] have
    "\<forall>k < 2. case [Setup 1, Run 1 1] ! k of Setup fuel \<Rightarrow> rs ! k = Inr () | Run fuel wfuel \<Rightarrow> rs ! k \<noteq> Inr () | _ \<Rightarrow> True"
    by (simp add: numeral_2_eq_2)
  from this [rule_format, of 0] this [rule_format, of 1] c show ?thesis by simp
qed

end
