(* ===== verification/Client_Threads.thy ===== *)
theory Client_Threads
  imports Client_Facts
begin

text \<open>
  The client's three threads interleaved. uvgRTP's thread runs \<open>recv_callback\<close> (check the flags,
  then the critical section that queues the payload), the virtual input's thread runs the write
  callback (drain, pop, decode, append, each lock region one step), and the main thread sets the
  flags and finally runs \<open>~Client\<close>, which destroys the decoder before it joins the virtual
  input's thread. Buffers handed to successive write callbacks are one growing list, \<open>delivered\<close>.
\<close>

section \<open>States and steps\<close>

text \<open>Where the write callback stands: \<open>m\<close> is its \<open>max_len\<close> and \<open>w\<close> its \<open>written\<close>.\<close>

datatype audio_pc =
    Idle
  | Draining nat nat
  | Popping nat nat
  | Decoding nat nat "byte list"
  | Appending nat nat "byte list"

record 'd threads =
  cl :: client
  dstate :: 'd
  apc :: audio_pc
  rpc :: "byte list option"
  arrived :: "byte list list"
  decoded :: "byte list list"
  delivered :: "byte list"

inductive cstep :: "'d opus_decoder \<Rightarrow> 'd threads \<Rightarrow> 'd threads \<Rightarrow> bool" for dec where
  recv_refused: "should_stop (cl s) \<or> \<not> healthy (cl s) \<Longrightarrow> rpc s = None \<Longrightarrow> cstep dec s s"
| recv_checked: "\<not> should_stop (cl s) \<Longrightarrow> healthy (cl s) \<Longrightarrow> rpc s = None \<Longrightarrow> data \<noteq> [] \<Longrightarrow>
    cstep dec s (s\<lparr>rpc := Some data\<rparr>)"
| recv_queued: "rpc s = Some data \<Longrightarrow>
    cstep dec s (s\<lparr>rpc := None, cl := enqueue_frame data (cl s), arrived := arrived s @ [data]\<rparr>)"
| cb_enter: "apc s = Idle \<Longrightarrow> 0 < m \<Longrightarrow> \<not> should_stop (cl s) \<Longrightarrow> healthy (cl s) \<Longrightarrow>
    cstep dec s (s\<lparr>apc := Draining m 0\<rparr>)"
| cb_drain: "apc s = Draining m w \<Longrightarrow> n = min (m - w) (length (playback_queue (cl s))) \<Longrightarrow>
    cstep dec s (s\<lparr>delivered := delivered s @ take n (playback_queue (cl s)),
                   cl := (cl s)\<lparr>playback_queue := drop n (playback_queue (cl s))\<rparr>,
                   apc := (if w + n = m then Idle else Popping m (w + n))\<rparr>)"
| cb_pop_empty: "apc s = Popping m w \<Longrightarrow> compressed_queue (cl s) = [] \<Longrightarrow>
    cstep dec s (s\<lparr>apc := Idle\<rparr>)"
| cb_pop: "apc s = Popping m w \<Longrightarrow> compressed_queue (cl s) = f # rest \<Longrightarrow>
    cstep dec s (s\<lparr>cl := (cl s)\<lparr>compressed_queue := rest\<rparr>, apc := Decoding m w f\<rparr>)"
| cb_decode: "apc s = Decoding m w f \<Longrightarrow> dec (dstate s) f = (ret, out, d') \<Longrightarrow>
    buf = overwrite (pcm_decbuf (cl s)) out \<Longrightarrow>
    cstep dec s (s\<lparr>cl := (cl s)\<lparr>pcm_decbuf := buf\<rparr>, dstate := d', decoded := decoded s @ [f],
                   apc := (if ret < 0 then Draining m w
                           else Appending m w (take (nat ret * 2 * 2) (bytes_of_samples buf)))\<rparr>)"
| cb_append: "apc s = Appending m w bs \<Longrightarrow>
    cstep dec s (s\<lparr>cl := (cl s)\<lparr>playback_queue := playback_queue (cl s) @ bs\<rparr>, apc := Draining m w\<rparr>)"
| main_stop: "cstep dec s (s\<lparr>cl := (cl s)\<lparr>should_stop := True\<rparr>\<rparr>)"
| main_destroy: "should_stop (cl s) \<Longrightarrow> cstep dec s (s\<lparr>cl := (cl s)\<lparr>decoder_open := False\<rparr>\<rparr>)"

inductive_cases cstepE: "cstep dec s t"

inductive creach :: "'d opus_decoder \<Rightarrow> 'd threads \<Rightarrow> 'd threads \<Rightarrow> bool" for dec where
  creach_refl: "creach dec s s"
| creach_step: "creach dec s t \<Longrightarrow> cstep dec t u \<Longrightarrow> creach dec s u"

text \<open>The state right after construction.\<close>

definition threads_init :: "sample list \<Rightarrow> 'd \<Rightarrow> connection_policy \<Rightarrow> 'd threads" where
  "threads_init buf d pol = \<lparr>cl = (client_init pol)\<lparr>pcm_decbuf := buf, decoder_open := True,
       thread_started := True\<rparr>,
     dstate = d, apc = Idle, rpc = None, arrived = [], decoded = [], delivered = []\<rparr>"

section \<open>Decoding a run of frames\<close>

lemma decode_run_snoc:
  "decode_run dec buf d fs = (buf1, d1) \<Longrightarrow> dec d1 f = (ret, out, d2) \<Longrightarrow>
     decode_run dec buf d (fs @ [f]) = (overwrite buf1 out, d2)"
  by (induction fs arbitrary: buf d) (auto split: prod.splits)

lemma pcm_stream_snoc:
  "decode_run dec buf d fs = (buf1, d1) \<Longrightarrow> dec d1 f = (ret, out, d2) \<Longrightarrow>
     pcm_stream dec buf d (fs @ [f]) = pcm_stream dec buf d fs @
       (if ret < 0 then [] else take (nat ret * 2 * 2) (bytes_of_samples (overwrite buf1 out)))"
  by (induction fs arbitrary: buf d) (auto split: prod.splits)

section \<open>The invariant\<close>

text \<open>The frame being decoded, and the PCM decoded but not yet in the playback queue.\<close>

fun in_decoder :: "audio_pc \<Rightarrow> byte list list" where
  "in_decoder (Decoding m w f) = [f]"
| "in_decoder p = []"

fun pending :: "audio_pc \<Rightarrow> byte list" where
  "pending (Appending m w bs) = bs"
| "pending p = []"

definition threads_inv :: "'d opus_decoder \<Rightarrow> sample list \<Rightarrow> 'd \<Rightarrow> 'd threads \<Rightarrow> bool" where
  "threads_inv dec buf d s \<longleftrightarrow>
     length (compressed_queue (cl s)) \<le> 256 \<and>
     frames_received (cl s) = of_nat (length (arrived s)) \<and>
     subseq (decoded s @ in_decoder (apc s) @ compressed_queue (cl s)) (arrived s) \<and>
     decode_run dec buf d (decoded s) = (pcm_decbuf (cl s), dstate s) \<and>
     delivered s @ playback_queue (cl s) @ pending (apc s) = pcm_stream dec buf d (decoded s)"

lemma threads_inv_init: "threads_inv dec buf d (threads_init buf d pol)"
  by (simp add: threads_inv_def threads_init_def client_init_def)

lemma threads_inv_step:
  assumes "cstep dec s t" and "threads_inv dec buf d s"
  shows "threads_inv dec buf d t"
  using assms
proof (cases rule: cstep.cases)
  case (recv_queued data)
  have "length (compressed_queue (enqueue_frame data (cl s))) \<le> 256"
    using client_queue.length_push [of "cl s" data] assms(2)
    by (simp add: threads_inv_def max_compressed_queue_frames_def)
  moreover have "subseq ((decoded s @ in_decoder (apc s)) @ compressed_queue (enqueue_frame data (cl s)))
      (arrived s @ [data])"
    by (rule enqueue_subseq) (use assms(2) in \<open>simp add: threads_inv_def\<close>)
  ultimately show ?thesis using recv_queued assms(2) by (simp add: threads_inv_def)
next
  case (cb_drain m w n)
  with assms(2) show ?thesis by (auto simp: threads_inv_def)
next
  case (cb_decode m w f ret out d' bf)
  with assms(2) show ?thesis
    by (auto simp: threads_inv_def decode_run_snoc pcm_stream_snoc)
qed (auto simp: threads_inv_def)

lemma creach_threads_inv:
  "creach dec s t \<Longrightarrow> threads_inv dec buf d s \<Longrightarrow> threads_inv dec buf d t"
  by (induction rule: creach.induct) (blast intro: threads_inv_step)+


section \<open>Stopping\<close>

definition quiet :: "'d threads \<Rightarrow> bool" where
  "quiet s \<longleftrightarrow> apc s = Idle \<and> should_stop (cl s)"

lemma quiet_step:
  assumes "cstep dec s t" and "quiet s"
  shows "quiet t \<and> delivered t = delivered s \<and> dstate t = dstate s \<and> decoded t = decoded s"
  using assms by (cases rule: cstep.cases) (auto simp: quiet_def)

lemma quiet_reach:
  "creach dec s t \<Longrightarrow> quiet s \<Longrightarrow>
     quiet t \<and> delivered t = delivered s \<and> dstate t = dstate s \<and> decoded t = decoded s"
proof (induction rule: creach.induct)
  case (creach_step s t u)
  then show ?case using quiet_step by metis
qed simp

section \<open>Properties\<close>

text \<open>A reachable state: one frame arrived, was taken by a write callback and is being decoded.\<close>

lemma reach_decoding:
  "\<exists>t. creach dec (threads_init buf d pol) t \<and> apc t = Decoding 2 0 [b] \<and>
       arrived t = [[b]] \<and> healthy (cl t) \<and> \<not> should_stop (cl t)"
proof -
  let ?s0 = "threads_init buf d pol"
  let ?s1 = "?s0\<lparr>rpc := Some [b]\<rparr>"
  let ?s2 = "?s1\<lparr>rpc := None, cl := enqueue_frame [b] (cl ?s1), arrived := arrived ?s1 @ [[b]]\<rparr>"
  let ?s3 = "?s2\<lparr>apc := Draining 2 0\<rparr>"
  let ?s4 = "?s3\<lparr>delivered := delivered ?s3 @ take 0 (playback_queue (cl ?s3)),
      cl := (cl ?s3)\<lparr>playback_queue := drop 0 (playback_queue (cl ?s3))\<rparr>,
      apc := (if 0 + 0 = (2::nat) then Idle else Popping 2 (0 + 0))\<rparr>"
  let ?s5 = "?s4\<lparr>cl := (cl ?s4)\<lparr>compressed_queue := []\<rparr>, apc := Decoding 2 0 [b]\<rparr>"
  have pq: "playback_queue (cl ?s2) = []" and cq: "compressed_queue (cl ?s2) = [[b]]"
    by (simp_all add: threads_init_def enqueue_frame_def client_init_def Let_def max_compressed_queue_frames_def)
  have flags: "healthy (cl ?s0)" "\<not> should_stop (cl ?s0)" "healthy (cl ?s2)" "\<not> should_stop (cl ?s2)"
    by (simp_all add: threads_init_def client_init_def)
  have "cstep dec ?s0 ?s1" by (rule recv_checked) (use flags in \<open>simp_all add: threads_init_def\<close>)
  moreover have "cstep dec ?s1 ?s2" by (rule recv_queued) simp
  moreover have "cstep dec ?s2 ?s3" by (rule cb_enter) (use flags in \<open>simp_all add: threads_init_def\<close>)
  moreover have "cstep dec ?s3 ?s4" by (rule cb_drain) (use pq in simp_all)
  moreover have "cstep dec ?s4 ?s5" by (rule cb_pop) (use cq in simp_all)
  ultimately have "creach dec ?s0 ?s5"
    by (meson creach_refl creach_step)
  moreover have "healthy (cl ?s5)" "\<not> should_stop (cl ?s5)" using flags by simp_all
  moreover have "arrived ?s5 = [[b]]" by (simp add: threads_init_def)
  ultimately show ?thesis by (intro exI [of _ ?s5]) simp
qed



text \<open>Stopping is final for the audio side. Once the stop flag is set while no write callback is
  running, none starts again, however the threads go on: nothing more is delivered and the decoder
  is not called.\<close>

theorem stop_is_final:
  assumes "creach dec s t" and "apc s = Idle" and "should_stop (cl s)"
  shows "apc t = Idle \<and> delivered t = delivered s \<and> dstate t = dstate s \<and> decoded t = decoded s"
  using quiet_reach [OF assms(1)] assms(2,3) by (simp add: quiet_def)

theorem stop_is_final_witness:
  "\<exists>s t. creach toy_decoder s t \<and> should_stop (cl s) \<and> \<not> decoder_open (cl t) \<and> apc t = Idle"
proof -
  let ?i = "threads_init [0, 0] 0 default_policy :: nat threads"
  let ?s = "?i\<lparr>cl := (cl ?i)\<lparr>should_stop := True\<rparr>\<rparr>"
  let ?t = "?s\<lparr>cl := (cl ?s)\<lparr>decoder_open := False\<rparr>\<rparr>"
  have "cstep toy_decoder ?s ?t" by (rule main_destroy) simp
  then have r: "creach toy_decoder ?s ?t" by (rule creach_step [OF creach_refl])
  have "apc ?t = Idle" using stop_is_final [OF r] by (simp add: threads_init_def)
  with r show ?thesis by (intro exI [of _ ?s] exI [of _ ?t]) simp
qed

text \<open>C39. The destructor frees the decoder too early. \<open>~Client\<close> destroys the Opus decoder before it
  joins the virtual input's thread, and setting the stop flag does not wait for a callback that is
  already running; so from every start state, with any decoder, the program can reach a state in
  which the write callback is about to decode a frame with the decoder already destroyed.\<close>

theorem decoder_used_after_destroy:
  "\<exists>t m w f. creach dec (threads_init buf d pol) t \<and> apc t = Decoding m w f \<and>
     \<not> decoder_open (cl t) \<and> thread_started (cl (threads_init buf d pol))"
proof -
  obtain s where s: "creach dec (threads_init buf d pol) s" "apc s = Decoding 2 0 [1]"
    using reach_decoding [of dec buf d pol 1] by blast
  let ?s = "s\<lparr>cl := (cl s)\<lparr>should_stop := True\<rparr>\<rparr>"
  let ?t = "?s\<lparr>cl := (cl ?s)\<lparr>decoder_open := False\<rparr>\<rparr>"
  have "cstep dec s ?s" by (rule main_stop)
  moreover have "cstep dec ?s ?t" by (rule main_destroy) simp
  ultimately have "creach dec (threads_init buf d pol) ?t" by (meson s(1) creach_step)
  with s(2) show ?thesis
    by (intro exI [of _ ?t]) (simp add: threads_init_def)
qed

end
