(* ===== verification/Client_Bounds.thy ===== *)
theory Client_Bounds
  imports Client_Facts
begin

text \<open>
  The data invariant of the client: the sizes of its buffers and queues, from construction on and
  under every sequence of its operations.
\<close>

section \<open>The invariant\<close>

text \<open>The PCM buffer keeps its size, the frame queue its bound, what is left between two write
  callbacks is at most the PCM of one frame, and an unhealthy client is a stopped one.\<close>

definition client_ok :: "client \<Rightarrow> bool" where
  "client_ok c \<longleftrightarrow> length (pcm_decbuf c) = pcm_decbuf_size \<and>
     length (compressed_queue c) \<le> max_compressed_queue_frames \<and>
     length (playback_queue c) \<le> 2 * pcm_decbuf_size \<and> (healthy c \<or> should_stop c)"

lemma decode_step_ok:
  assumes "opus_decode_contract dec" and "client_ok c" and "playback_queue c = []"
    and "decode_step dec f c d = (c', d')"
  shows "client_ok c'"
proof -
  obtain ret out d1 where dec: "dec d f = (ret, out, d1)" by (cases "dec d f")
  have "ret \<le> 960" using assms(1) dec unfolding opus_decode_contract_def by blast
  then have "nat ret * 2 * 2 \<le> 2 * pcm_decbuf_size" by (simp add: pcm_decbuf_size_def)
  then show ?thesis
    using assms(2-4) by (auto simp: decode_step_def dec Let_def client_ok_def split: if_splits)
qed

lemma fill_ok:
  "opus_decode_contract dec \<Longrightarrow> client_ok c \<Longrightarrow> fill dec w dst c d = (n, dst', c', d') \<Longrightarrow> client_ok c'"
proof (induction dec w dst c d arbitrary: n dst' c' d' rule: fill.induct)
  case (1 dec w dst c d)
  obtain w1 dst1 q1 where dr: "drain w dst (playback_queue c) = (w1, dst1, q1)" by (metis surj_pair)
  show ?case
  proof (cases "w < length dst")
    case False
    with "1.prems" show ?thesis by (simp add: fill.simps [of dec w dst c d])
  next
    case True
    have q1: "q1 = drop (length dst - w) (playback_queue c)" "w1 = min (length dst) (w + length (playback_queue c))"
        "length dst1 = length dst"
      using dr True by (auto simp: drain_eq)
    have ok1: "client_ok (c\<lparr>playback_queue := q1\<rparr>)"
      using "1.prems"(2) q1(1) by (auto simp: client_ok_def)
    show ?thesis
    proof (cases "w1 \<noteq> length dst1 \<and> compressed_queue c \<noteq> []")
      case False
      with "1.prems"(3) ok1 True show ?thesis
        by (auto simp: fill.simps [of dec w dst c d] dr Let_def split: if_splits list.splits)
    next
      case more: True
      then obtain f rest where q: "compressed_queue c = f # rest" by (cases "compressed_queue c") auto
      have empty: "q1 = []" using more q1 True by (auto simp: min_def split: if_splits)
      let ?c1 = "c\<lparr>playback_queue := q1\<rparr>"
      obtain c2 d2 where step: "decode_step dec f (?c1\<lparr>compressed_queue := rest\<rparr>) d = (c2, d2)" by fastforce
      have run: "fill dec w1 dst1 c2 d2 = (n, dst', c', d')"
        using "1.prems"(3) True more q step by (simp add: fill.simps [of dec w dst c d] dr Let_def)
      have "client_ok (?c1\<lparr>compressed_queue := rest\<rparr>)"
        using ok1 q by (auto simp: client_ok_def)
      from decode_step_ok [OF "1.prems"(1) this _ step] have ok2: "client_ok c2" by (simp add: empty)
      show ?thesis
        by (rule "1.IH" [OF True dr [symmetric] refl refl _ _ step [symmetric] "1.prems"(1) ok2 run])
          (use more q in auto)
    qed
  qed
qed

lemma write_cb_ok:
  "opus_decode_contract dec \<Longrightarrow> client_ok c \<Longrightarrow> write_cb dec dst (c, d) = (n, dst', c', d') \<Longrightarrow> client_ok c'"
  by (auto simp: write_cb_def dest: fill_ok split: if_splits)

lemma enqueue_frame_ok: "client_ok c \<Longrightarrow> client_ok (enqueue_frame data c)"
  using client_queue.length_push [of c data] by (simp add: client_ok_def)

lemma recv_callback_ok:
  "client_ok c \<Longrightarrow> recv_callback (Some f) (Some c) = (Some c', freed) \<Longrightarrow> client_ok c'"
  by (auto simp: recv_callback_def enqueue_frame_ok split: if_splits option.splits)

lemma recv_callback_some: "\<exists>c' freed. recv_callback (Some f) (Some c) = (Some c', freed)"
  by (auto simp: recv_callback_def split: option.split)

section \<open>Sequences of operations\<close>

datatype client_op = Receive rtp_frame | WriteCallback "byte list" | Report string | RequestShutdown

type_synonym 'd client_world = "client \<times> 'd \<times> uvg_call list \<times> audio"

fun client_step :: "'d opus_decoder \<Rightarrow> client_op \<Rightarrow> 'd client_world \<Rightarrow> 'd client_world" where
  "client_step dec (Receive f) (c, d, tr, a) = (the (fst (recv_callback (Some f) (Some c))), d, tr, a)"
| "client_step dec (WriteCallback dst) (c, d, tr, a) = (case write_cb dec dst (c, d) of
     (n, dst', c1, d1) \<Rightarrow> (c1, d1, tr, a))"
| "client_step dec (Report err) (c, d, tr, a) = (case set_error err (c, a) of (c1, a1) \<Rightarrow> (c1, d, tr, a1))"
| "client_step dec RequestShutdown (c, d, tr, a) = (case client_request_shutdown (c, tr, a) of
     (c1, tr1, a1) \<Rightarrow> (c1, d, tr1, a1))"

lemma client_step_ok:
  assumes "opus_decode_contract dec" and "client_ok c" and "client_step dec op (c, d, tr, a) = (c', p)"
  shows "client_ok c'"
proof (cases op)
  case (Receive f)
  obtain c1 freed where "recv_callback (Some f) (Some c) = (Some c1, freed)"
    using recv_callback_some [of f c] by blast
  with recv_callback_ok [OF assms(2) this] assms(3) Receive show ?thesis by simp
next
  case (WriteCallback dst)
  with assms write_cb_ok [OF assms(1,2)] show ?thesis by (auto split: prod.splits)
next
  case (Report err)
  with assms(2,3) show ?thesis by (auto simp: set_error_def client_ok_def split: if_splits)
next
  case RequestShutdown
  with assms(2,3) show ?thesis
    by (auto simp: client_request_shutdown_def client_ok_def Let_def split: option.splits prod.splits)
qed

lemma client_steps_ok:
  "opus_decode_contract dec \<Longrightarrow> client_ok c \<Longrightarrow> fold (client_step dec) ops (c, d, tr, a) = (c', p) \<Longrightarrow> client_ok c'"
proof (induction ops arbitrary: c d tr a)
  case (Cons op ops)
  obtain c1 d1 tr1 a1 where s: "client_step dec op (c, d, tr, a) = (c1, d1, tr1, a1)" by (metis surj_pair)
  from client_step_ok [OF Cons.prems(1,2) s] Cons.IH [OF Cons.prems(1), of c1 d1 tr1 a1] Cons.prems(3) s
  show ?case by simp
qed simp

lemma new_client_ok:
  assumes "new_client env shut oe strerr self l r pol tr a k = (Inr u, s)"
  shows "client_ok (conn_client s)"
proof -
  let ?s1 = "\<lparr>conn_client = (client_init pol)\<lparr>decoder_open := True, pcm_decbuf := replicate pcm_decbuf_size 0\<rparr>,
     conn_calls = tr, conn_audio = a, registered = True, polls = k, slept = 0\<rparr>"
  obtain r2 s2 where c: "connect env shut l r self (unat (max_retries pol)) 1 ?s1 = (r2, s2)" by (metis surj_pair)
  have "client_ok (conn_client s2)"
    by (rule connect_invariant [OF c, where P = "\<lambda>t. client_ok (conn_client t)"])
      (auto simp: client_ok_def client_init_def conn_set_error_def set_error_def split: prod.splits if_splits)
  moreover have "conn_client s = (conn_client s2)\<lparr>thread_started := True\<rparr>"
    using assms c by (auto simp: new_client_def Let_def split: if_splits prod.splits sum.splits)
  ultimately show ?thesis by (simp add: client_ok_def)
qed

text \<open>What waits to be heard: whole frames in the queue and the rest of one.\<close>

lemma pcm_stream_length:
  assumes "opus_decode_contract dec"
  shows "length (pcm_stream dec buf d fs) \<le> length fs * 3840"
proof (induction fs arbitrary: buf d)
  case (Cons f fs)
  obtain ret out d1 where dec: "dec d f = (ret, out, d1)" by (cases "dec d f")
  with assms have "ret \<le> 960" unfolding opus_decode_contract_def by blast
  then have "length (take (nat ret * 2 * 2) (bytes_of_samples (overwrite buf out))) \<le> 3840" by simp
  with Cons.IH [of "overwrite buf out" d1] show ?case by (simp add: dec del: length_take)
qed simp

lemma backlog_bound:
  assumes "opus_decode_contract dec" and "client_ok c"
  shows "length (remaining dec c d) \<le> 257 * 3840"
proof -
  have "length (playback_queue c) \<le> 3840" "length (compressed_queue c) \<le> 256"
    using assms(2) by (simp_all add: client_ok_def pcm_decbuf_size_def max_compressed_queue_frames_def)
  with pcm_stream_length [OF assms(1), of "pcm_decbuf c" d "compressed_queue c"] show ?thesis
    by (simp add: remaining_def)
qed

section \<open>Properties\<close>

text \<open>C20. The client never outgrows its buffers. From its construction on, whatever frames arrive,
  whatever buffers the write callback is asked to fill, whatever errors are reported and whenever it is
  told to stop: the PCM buffer has its 1920 samples, at most 256 compressed frames wait, at most the
  3840 bytes of one decoded frame are left over between two write callbacks, and an unhealthy client
  is a stopped one. So what waits to be heard is never more than the 986880 bytes of 257 frames: the
  microphone lags at most 5.14 seconds of audio behind the network.\<close>

theorem client_stays_bounded:
  assumes "opus_decode_contract dec"
    and "new_client env shut oe strerr self l r pol tr a k = (Inr u, s)"
    and "fold (client_step dec) ops (conn_client s, d, conn_calls s, conn_audio s) = (c', p)"
  shows "length (pcm_decbuf c') = 1920 \<and> length (compressed_queue c') \<le> 256 \<and>
    length (playback_queue c') \<le> 3840 \<and> (healthy c' \<or> should_stop c') \<and> length (remaining dec c' x) \<le> 986880"
proof -
  have ok: "client_ok c'" by (rule client_steps_ok [OF assms(1) new_client_ok [OF assms(2)] assms(3)])
  from backlog_bound [OF assms(1) ok, of x] ok show ?thesis
    by (simp add: client_ok_def pcm_decbuf_size_def max_compressed_queue_frames_def)
qed

text \<open>A decoder that makes two samples of every payload.\<close>

definition pair_decoder :: "nat opus_decoder" where
  "pair_decoder d f = (1, [258, 3], Suc d)"

theorem client_stays_bounded_witness:
  "\<exists>s c' d' p'. new_client sample_uvg (\<lambda>k. False) 0 (\<lambda>_. []) 1 (''a'', 7981) (''b'', 8179) default_policy []
       \<lparr>recording = False, playback = False\<rparr> 0 = (Inr (), s) \<and>
     fold (client_step pair_decoder) (replicate 300 (Receive \<lparr>payload = Some [1], dgram_size = 13\<rparr>) @ [WriteCallback [0, 0]])
       (conn_client s, 0, conn_calls s, conn_audio s) = (c', d', p') \<and> length (compressed_queue c') \<le> 256"
proof -
  obtain s where s: "new_client sample_uvg (\<lambda>k. False) 0 (\<lambda>_. []) 1 (''a'', 7981) (''b'', 8179) default_policy []
       \<lparr>recording = False, playback = False\<rparr> 0 = (Inr (), s)"
    by (simp add: new_client_def Let_def connect.simps new_rtp_receiver_def init_rtp_def sample_uvg_def make_recv_callback_def
        default_policy_def)
  obtain c' d' p' where f: "fold (client_step pair_decoder) (replicate 300 (Receive \<lparr>payload = Some [1], dgram_size = 13\<rparr>) @ [WriteCallback [0, 0]])
       (conn_client s, 0, conn_calls s, conn_audio s) = (c', d', p')"
    by (metis surj_pair)
  have "opus_decode_contract pair_decoder" by (simp add: opus_decode_contract_def pair_decoder_def)
  from client_stays_bounded [OF this s f] s f show ?thesis by blast
qed

end
