(* ===== verification/Client_Process.thy ===== *)
theory Client_Process
  imports Main_Facts
begin

text \<open>
  Client mode with its threads running side by side, from the moment the constructor of \<open>Client\<close> has
  returned until the process is gone. The main thread polls, shuts the client down, destroys it and
  leaves the process (\<open>src/main.cpp\<close>, \<open>Client::request_shutdown\<close>, \<open>~Client\<close>, \<open>~PulseaudioBackend\<close>); the
  microphone thread sets the virtual input up and feeds it (\<open>Client::call_virtual_input_setup\<close>); uvgRTP's
  thread delivers frames; a signal sets the shutdown flag. Every step is one thread's code between two
  accesses of what the threads share: the shutdown flag, the client's atomics, the run flags of the
  backend, the mutexes. The code itself is that of \<open>Backend\<close>, \<open>Client\<close>, \<open>Rtp\<close> and \<open>Main_Prog\<close>. What the
  operating system and libpulse answer is free at every step.
\<close>

section \<open>States\<close>

datatype main_at = Polling | Stopping | Closing | Quieting | Freeing | Joining | Leaving | Gone

text \<open>The buffer of \<open>run_virtual_input\<close> is carried along; \<open>Writing buf offset bytes_to_write\<close>.\<close>

datatype mic_at =
    Starting
  | Opening
  | Checking
  | AtFlag "byte list"
  | AtPoll "byte list"
  | Calling "byte list"
  | Writing "byte list" nat nat
  | Throwing string
  | Failing string
  | Ended

record 'd process =
  flag :: shutdown_state
  cli :: client
  dec_state :: 'd
  uvg :: "uvg_call list"
  be :: backend
  os :: history
  main_pc :: main_at
  mic_pc :: mic_at

text \<open>Who makes a step. \<open>Idle_Poll\<close> is a poll of \<open>main\<close> that finds nothing to do, \<open>Interrupted\<close> a
  write that a signal handler interrupted.\<close>

datatype actor = Signal | Network rtp_frame | Idle_Poll | Interrupted | Main_Thread | Mic_Thread

section \<open>Steps\<close>

text \<open>The second part of \<open>request_shutdown\<close>.\<close>

definition close_client_rtp :: "client \<times> uvg_call list \<Rightarrow> client \<times> uvg_call list" where
  "close_client_rtp = (\<lambda>(c, tr). case client_rtp c of
     None \<Rightarrow> (c, tr)
   | Some r \<Rightarrow> (case stop (r, tr) of (r', tr') \<Rightarrow> (c\<lparr>client_rtp := Some r'\<rparr>, tr')))"

text \<open>An answer of the environment in which the shutdown flag reads as it is.\<close>

definition flag_env :: "shutdown_state \<Rightarrow> pa_env \<Rightarrow> bool" where
  "flag_env sd env \<longleftrightarrow> (\<forall>h. shutdown_seen env h = is_shutdown_requested sd)"

inductive pstep :: "'d opus_decoder \<Rightarrow> actor \<Rightarrow> 'd process \<Rightarrow> 'd process \<Rightarrow> bool" for dec where
  signal: "pstep dec Signal s (s\<lparr>flag := request_shutdown (flag s)\<rparr>)"
| frame: "client_rtp (cli s) = Some r \<Longrightarrow> is_initialised r \<Longrightarrow>
    recv_callback (Some f) (Some (cli s)) = (Some c, freed) \<Longrightarrow> pstep dec (Network f) s (s\<lparr>cli := c\<rparr>)"
| main_poll: "main_pc s = Polling \<Longrightarrow> \<not> is_shutdown_requested (flag s) \<Longrightarrow> is_healthy (cli s) \<Longrightarrow>
    pstep dec Idle_Poll s s"
| main_leave: "main_pc s = Polling \<Longrightarrow> is_shutdown_requested (flag s) \<or> \<not> is_healthy (cli s) \<Longrightarrow>
    pstep dec Main_Thread s (s\<lparr>main_pc := Stopping\<rparr>)"
| main_stop: "main_pc s = Stopping \<Longrightarrow>
    pstep dec Main_Thread s (s\<lparr>cli := (cli s)\<lparr>should_stop := True\<rparr>, main_pc := Closing\<rparr>)"
| main_close: "main_pc s = Closing \<Longrightarrow> close_client_rtp (cli s, uvg s) = (c, tr) \<Longrightarrow>
    pstep dec Main_Thread s (s\<lparr>cli := c, uvg := tr, main_pc := Quieting\<rparr>)"
| main_quiet: "main_pc s = Quieting \<Longrightarrow>
    pstep dec Main_Thread s (s\<lparr>be := stop_recording (be s), main_pc := Freeing\<rparr>)"
| main_free: "main_pc s = Freeing \<Longrightarrow>
    pstep dec Main_Thread s (s\<lparr>cli := (cli s)\<lparr>decoder_open := False\<rparr>, main_pc := Joining\<rparr>)"
| main_join: "main_pc s = Joining \<Longrightarrow> mic_pc s = Ended \<Longrightarrow> destroy_client (cli s, uvg s) = (c, tr) \<Longrightarrow>
    pstep dec Main_Thread s (s\<lparr>cli := c, uvg := tr, main_pc := Leaving\<rparr>)"
| main_exit: "main_pc s = Leaving \<Longrightarrow> destroy_backend env (be s) (os s) = (b, h) \<Longrightarrow>
    pstep dec Main_Thread s (s\<lparr>be := b, os := h, main_pc := Gone\<rparr>)"
| mic_loaded: "mic_pc s = Starting \<Longrightarrow> virtual_source_loaded (be s) \<Longrightarrow>
    pstep dec Mic_Thread s (s\<lparr>mic_pc := Checking\<rparr>)"
| mic_load_fails: "mic_pc s = Starting \<Longrightarrow> \<not> virtual_source_loaded (be s) \<Longrightarrow> load_completes env \<Longrightarrow>
    load_pipe_source env (be s) (os s) = Inl (Inl err, b, h) \<Longrightarrow>
    pstep dec Mic_Thread s (s\<lparr>be := b, os := h, mic_pc := Throwing err\<rparr>)"
| mic_load: "mic_pc s = Starting \<Longrightarrow> \<not> virtual_source_loaded (be s) \<Longrightarrow> load_completes env \<Longrightarrow>
    load_pipe_source env (be s) (os s) = Inr (b, h) \<Longrightarrow>
    pstep dec Mic_Thread s (s\<lparr>be := b, os := h, mic_pc := Opening\<rparr>)"
| mic_open_again: "mic_pc s = Opening \<Longrightarrow> flag_env (flag s) env \<Longrightarrow> open_round env (be s) (os s) = Inr (b, h) \<Longrightarrow>
    pstep dec Mic_Thread s (s\<lparr>be := b, os := h\<rparr>)"
| mic_open_fails: "mic_pc s = Opening \<Longrightarrow> flag_env (flag s) env \<Longrightarrow>
    open_round env (be s) (os s) = Inl (Inl err, b, h) \<Longrightarrow>
    pstep dec Mic_Thread s (s\<lparr>be := b, os := h, mic_pc := Throwing err\<rparr>)"
| mic_opened: "mic_pc s = Opening \<Longrightarrow> flag_env (flag s) env \<Longrightarrow>
    open_round env (be s) (os s) = Inl (Inr u, b, h) \<Longrightarrow>
    pstep dec Mic_Thread s (s\<lparr>be := b\<lparr>virtual_source_loaded := True\<rparr>, os := h, mic_pc := Checking\<rparr>)"
| mic_not_ready: "mic_pc s = Checking \<Longrightarrow>
    run_virtual_input 0 0 env (None :: unit write_callback option) (be s, (), os s) = Some (Inl err, b, (), h) \<Longrightarrow>
    pstep dec Mic_Thread s (s\<lparr>be := b, os := h, mic_pc := Throwing err\<rparr>)"
| mic_ready: "mic_pc s = Checking \<Longrightarrow> is_virtual_input_ready (be s) \<Longrightarrow>
    pstep dec Mic_Thread s (s\<lparr>be := (be s)\<lparr>playback := True\<rparr>, mic_pc := AtFlag (replicate 3840 0)\<rparr>)"
| mic_off: "mic_pc s = AtFlag buf \<Longrightarrow> \<not> playback (be s) \<Longrightarrow> pstep dec Mic_Thread s (s\<lparr>mic_pc := Ended\<rparr>)"
| mic_on: "mic_pc s = AtFlag buf \<Longrightarrow> playback (be s) \<Longrightarrow> pstep dec Mic_Thread s (s\<lparr>mic_pc := AtPoll buf\<rparr>)"
| mic_shutdown: "mic_pc s = AtPoll buf \<Longrightarrow> is_shutdown_requested (flag s) \<Longrightarrow>
    pstep dec Mic_Thread s (s\<lparr>be := (be s)\<lparr>playback := False\<rparr>, mic_pc := Ended\<rparr>)"
| mic_go: "mic_pc s = AtPoll buf \<Longrightarrow> \<not> is_shutdown_requested (flag s) \<Longrightarrow>
    pstep dec Mic_Thread s (s\<lparr>mic_pc := Calling buf\<rparr>)"
| mic_silent: "mic_pc s = Calling buf \<Longrightarrow> write_cb dec buf (cli s, dec_state s) = (n, buf1, c, d) \<Longrightarrow>
    (if n > length buf1 then length buf1 else n) = 0 \<Longrightarrow>
    pstep dec Mic_Thread s (s\<lparr>cli := c, dec_state := d, os := os s @ [Iterate evs, Usleep], mic_pc := AtFlag buf1\<rparr>)"
| mic_produced: "mic_pc s = Calling buf \<Longrightarrow> write_cb dec buf (cli s, dec_state s) = (n, buf1, c, d) \<Longrightarrow>
    produced = (if n > length buf1 then length buf1 else n) \<Longrightarrow> produced \<noteq> 0 \<Longrightarrow>
    pstep dec Mic_Thread s (s\<lparr>cli := c, dec_state := d, mic_pc := Writing buf1 0 produced\<rparr>)"
| mic_wrote: "mic_pc s = Writing buf offset n \<Longrightarrow> flag_env (flag s) env \<Longrightarrow>
    write_round env buf offset n (be s) (os s) = Inr (offset1, h) \<Longrightarrow> offset1 \<noteq> offset \<Longrightarrow>
    pstep dec Mic_Thread s (s\<lparr>os := h, mic_pc := Writing buf offset1 n\<rparr>)"
| mic_interrupted: "mic_pc s = Writing buf offset n \<Longrightarrow> flag_env (flag s) env \<Longrightarrow>
    write_round env buf offset n (be s) (os s) = Inr (offset, h) \<Longrightarrow>
    pstep dec Interrupted s (s\<lparr>os := h\<rparr>)"
| mic_written: "mic_pc s = Writing buf offset n \<Longrightarrow> flag_env (flag s) env \<Longrightarrow>
    write_round env buf offset n (be s) (os s) = Inl (Inr u, b, h) \<Longrightarrow>
    pstep dec Mic_Thread s (s\<lparr>be := b, os := h, mic_pc := AtFlag buf\<rparr>)"
| mic_write_fails: "mic_pc s = Writing buf offset n \<Longrightarrow> flag_env (flag s) env \<Longrightarrow>
    write_round env buf offset n (be s) (os s) = Inl (Inl err, b, h) \<Longrightarrow>
    pstep dec Mic_Thread s (s\<lparr>be := b, os := h, mic_pc := Throwing err\<rparr>)"
| mic_error_again: "mic_pc s = Throwing what \<Longrightarrow> \<not> healthy (cli s) \<Longrightarrow> pstep dec Mic_Thread s (s\<lparr>mic_pc := Ended\<rparr>)"
| mic_unhealthy: "mic_pc s = Throwing what \<Longrightarrow> healthy (cli s) \<Longrightarrow>
    pstep dec Mic_Thread s (s\<lparr>cli := (cli s)\<lparr>healthy := False\<rparr>, mic_pc := Failing what\<rparr>)"
| mic_report: "mic_pc s = Failing what \<Longrightarrow>
    pstep dec Mic_Thread s (s\<lparr>cli := (cli s)\<lparr>last_error := ''Could not create virtual input, reason: '' @ what, should_stop := True\<rparr>,
      be := stop_recording (be s), mic_pc := Ended\<rparr>)"

text \<open>A run, with the list of its actors.\<close>

inductive prun :: "'d opus_decoder \<Rightarrow> 'd process \<Rightarrow> actor list \<Rightarrow> 'd process \<Rightarrow> bool" for dec where
  prun_nil: "prun dec s [] s"
| prun_snoc: "prun dec s as t \<Longrightarrow> pstep dec a t u \<Longrightarrow> prun dec s (as @ [a]) u"

text \<open>Right after the constructor.\<close>

definition process_start :: "shutdown_state \<Rightarrow> 'd \<Rightarrow> unit backend_ext conn \<Rightarrow> history \<Rightarrow> 'd process" where
  "process_start sd d s h = \<lparr>flag = sd, cli = conn_client s, dec_state = d, uvg = conn_calls s, be = conn_audio s,
     os = h, main_pc = Polling, mic_pc = Starting\<rparr>"


section \<open>The virtual input while the threads run\<close>

text \<open>The module is loaded and the FIFO made, but not yet open.\<close>

definition half_open :: "backend \<Rightarrow> history \<Rightarrow> bool" where
  "half_open b h \<longleftrightarrow> virtual_source_fd b < 0 \<and> \<not> virtual_source_loaded b \<and> virtual_input_error b = [] \<and>
     virtual_source_mod_idx b \<noteq> pa_invalid_index \<and> module_held h = Some (virtual_source_mod_idx b) \<and>
     fifo_made (virtual_source_fifo_path b) h"

text \<open>What holds of the backend and the history where the microphone thread stands.\<close>

fun vi_at :: "mic_at \<Rightarrow> backend \<Rightarrow> history \<Rightarrow> bool" where
  "vi_at Starting b h \<longleftrightarrow> vi_inv b h \<and> \<not> virtual_source_loaded b"
| "vi_at Opening b h \<longleftrightarrow> half_open b h"
| "vi_at Checking b h \<longleftrightarrow> vi_inv b h \<and> is_virtual_input_ready b"
| "vi_at (AtFlag buf) b h \<longleftrightarrow> vi_inv b h \<and> is_virtual_input_ready b \<and> length buf = 3840"
| "vi_at (AtPoll buf) b h \<longleftrightarrow> vi_inv b h \<and> is_virtual_input_ready b \<and> length buf = 3840"
| "vi_at (Calling buf) b h \<longleftrightarrow> vi_inv b h \<and> is_virtual_input_ready b \<and> length buf = 3840"
| "vi_at (Writing buf offset n) b h \<longleftrightarrow> vi_inv b h \<and> is_virtual_input_ready b \<and> length buf = 3840 \<and> n \<le> 3840"
| "vi_at (Throwing what) b h \<longleftrightarrow> vi_inv b h \<and> \<not> playback b"
| "vi_at (Failing what) b h \<longleftrightarrow> vi_inv b h \<and> \<not> playback b"
| "vi_at Ended b h \<longleftrightarrow> vi_inv b h \<and> \<not> playback b"

lemma stop_recording_fields [simp]:
  "virtual_source_fd (stop_recording b) = virtual_source_fd b"
  "virtual_source_loaded (stop_recording b) = virtual_source_loaded b"
  "virtual_input_error (stop_recording b) = virtual_input_error b"
  "virtual_source_mod_idx (stop_recording b) = virtual_source_mod_idx b"
  "virtual_source_fifo_path (stop_recording b) = virtual_source_fifo_path b"
  "\<not> playback (stop_recording b)"
  by (simp_all add: stop_recording_def)

lemma vi_inv_playback: "vi_inv (b\<lparr>playback := x\<rparr>) h = vi_inv b h"
  by (simp add: vi_inv_def)

lemma vi_at_stop: "vi_at m b h \<Longrightarrow> vi_at m (stop_recording b) h"
  by (cases m) (simp_all add: vi_inv_stop half_open_def is_virtual_input_ready_def)

lemma load_pipe_source_cases:
  assumes "vi_inv b h" and "\<not> virtual_source_loaded b" and "load_completes env"
  shows "case load_pipe_source env b h of
      Inl (res, b', h') \<Rightarrow> vi_inv b' h' \<and> \<not> playback b' \<and> virtual_source_fifo_path b' = virtual_source_fifo_path b \<and>
        (\<exists>err. res = Inl err)
    | Inr (b', h') \<Rightarrow> half_open b' h' \<and> virtual_source_fifo_path b' = virtual_source_fifo_path b"
proof -
  let ?path = "virtual_source_fifo_path b"
  let ?tr1 = "cleanup_stale_virtual_sources env h @ [Unlink ?path]"
  let ?tr2 = "?tr1 @ [MkFifo ?path (mkfifo_result env ?tr1)]"
  let ?op = "load_result env ?tr2"
  have b: "virtual_source_fd b < 0" "module_held h = None" "\<not> fifo_made ?path h"
    using assms(1,2) by (simp_all add: vi_inv_unloaded)
  consider (no_fifo) err where "mkfifo_result env ?tr1 = Some err"
    | (no_op) "mkfifo_result env ?tr1 = None" "?op = NullOp"
    | (loaded) its where "mkfifo_result env ?tr1 = None" "?op = Op its"
    by (cases "mkfifo_result env ?tr1"; cases ?op) auto
  then show ?thesis
  proof cases
    case loaded
    then have "concat its \<noteq> []" using assms(3) unfolding load_completes_def by blast
    then have "fold pa_load_module_cb (concat its) i = last (concat its)" for i
      by (simp only: fold_load_cb if_False)
    with loaded b assms(2) show ?thesis
      by (auto simp: load_pipe_source_def Let_def die_def vi_inv_unloaded half_open_def trace_simps)
  qed (use b assms(2) in \<open>simp_all add: load_pipe_source_def Let_def die_def vi_inv_unloaded trace_simps\<close>)
qed

lemma open_round_cases:
  assumes "half_open b h"
  shows "case open_round env b h of
      Inl (Inl err, b', h') \<Rightarrow> vi_inv b' h' \<and> \<not> playback b' \<and> virtual_source_fifo_path b' = virtual_source_fifo_path b
    | Inl (Inr u, b', h') \<Rightarrow> (let b2 = b'\<lparr>virtual_source_loaded := True\<rparr> in
        vi_inv b2 h' \<and> is_virtual_input_ready b2 \<and> virtual_source_fifo_path b2 = virtual_source_fifo_path b)
    | Inr (b', h') \<Rightarrow> half_open b' h' \<and> virtual_source_fifo_path b' = virtual_source_fifo_path b"
proof -
  have b: "virtual_source_fd b < 0" "module_held h = Some (virtual_source_mod_idx b)" "fifo_made (virtual_source_fifo_path b) h"
    using assms by (simp_all add: half_open_def)
  show ?thesis
  proof (cases "open_round env b h")
    case (Inl r)
    obtain res b' h' where r: "r = (res, b', h')" by (cases r)
    with Inl have "open_fifo (Suc 0) env b h = Some (res, b', h')" by (simp add: open_fifo.simps)
    from open_fifo_outcome [OF this b] assms Inl r show ?thesis
      by (cases res) (auto simp: vi_inv_unloaded half_open_def vi_inv_def is_virtual_input_ready_def Let_def)
  next
    case (Inr r)
    with assms show ?thesis
      by (auto simp: open_round_def half_open_def Let_def trace_simps split: if_splits sum.splits)
  qed
qed

lemma write_round_cases:
  assumes "vi_inv b h" and "is_virtual_input_ready b"
  shows "case write_round env buf offset n b h of
      Inl (Inl err, b', h') \<Rightarrow> vi_inv b' h' \<and> \<not> playback b' \<and> virtual_source_fifo_path b' = virtual_source_fifo_path b
    | Inl (Inr u, b', h') \<Rightarrow> vi_inv b' h' \<and> is_virtual_input_ready b' \<and> virtual_source_fifo_path b' = virtual_source_fifo_path b
    | Inr (offset1, h') \<Rightarrow> vi_inv b h' \<and> offset < n \<and> offset \<le> offset1"
proof (cases "write_round env buf offset n b h")
  case (Inl r)
  obtain res b' h' where r: "r = (res, b', h')" by (cases r)
  with Inl have "write_pending (Suc 0) env buf offset n b h = Some (res, b', h')" by (simp add: write_pending.simps)
  from write_pending_outcome [OF this, of "virtual_source_fifo_path b"] assms Inl r show ?thesis
    by (cases res) (auto simp: vi_inv_def is_virtual_input_ready_def)
next
  case (Inr r)
  with assms show ?thesis
    by (auto simp: write_round_def vi_inv_def Let_def trace_simps split: if_splits sum.splits)
qed

lemma vi_inv_iterate: "vi_inv b (h @ [Iterate evs, Usleep]) = vi_inv b h"
  by (simp add: vi_inv_def trace_simps)


section \<open>The invariant\<close>

definition quitting :: "'d process \<Rightarrow> bool" where
  "quitting s \<longleftrightarrow> is_shutdown_requested (flag s) \<or> \<not> healthy (cli s)"

fun gave_up :: "mic_at \<Rightarrow> bool" where
  "gave_up (Failing what) \<longleftrightarrow> True"
| "gave_up Ended \<longleftrightarrow> True"
| "gave_up m \<longleftrightarrow> False"

text \<open>The virtual input: as the microphone thread left it, and gone once the process is.\<close>

definition vi_ok :: "string \<Rightarrow> 'd process \<Rightarrow> bool" where
  "vi_ok path s \<longleftrightarrow> vi_at (mic_pc s) (be s) (os s) \<and> virtual_source_fifo_path (be s) = path \<and>
     (main_pc s = Gone \<longrightarrow> module_held (os s) = None \<and> \<not> fifo_made path (os s) \<and> virtual_source_fd (be s) < 0)"

text \<open>How far the threads may be apart.\<close>

definition threads_ok :: "'d process \<Rightarrow> bool" where
  "threads_ok s \<longleftrightarrow>
     (main_pc s \<in> {Leaving, Gone} \<longrightarrow> mic_pc s = Ended) \<and>
     (main_pc s \<noteq> Polling \<longrightarrow> quitting s) \<and>
     (healthy (cli s) \<or> gave_up (mic_pc s)) \<and>
     (main_pc s \<notin> {Polling, Stopping} \<longrightarrow> should_stop (cli s)) \<and>
     (decoder_open (cli s) \<longleftrightarrow> main_pc s \<in> {Polling, Stopping, Closing, Quieting, Freeing})"

text \<open>The RTP object: live until \<open>main\<close> closes it, then closed once.\<close>

definition rtp_ok :: "nat \<Rightarrow> nat \<Rightarrow> uvg_call list \<Rightarrow> 'd process \<Rightarrow> bool" where
  "rtp_ok ss st calls s \<longleftrightarrow>
     (if main_pc s \<in> {Polling, Stopping, Closing}
      then \<exists>r. client_rtp (cli s) = Some r \<and> is_initialised r \<and> session r = Some ss \<and> stream r = Some st \<and> uvg s = calls
      else uvg s = calls @ [DestroyStream ss st, DestroySession ss] \<and>
        (if main_pc s \<in> {Leaving, Gone} then client_rtp (cli s) = None
         else \<exists>r. client_rtp (cli s) = Some r \<and> stopped r))"

lemma recv_fields:
  assumes "recv_callback (Some f) (Some c) = (Some c', freed)"
  shows "should_stop c' = should_stop c \<and> healthy c' = healthy c \<and> client_rtp c' = client_rtp c \<and> decoder_open c' = decoder_open c"
  using assms by (auto simp: recv_callback_def enqueue_frame_def Let_def split: if_splits option.splits)

lemma write_cb_fields:
  assumes "write_cb dec dst (c, d) = (n, dst', c', d')"
  shows "should_stop c' = should_stop c \<and> healthy c' = healthy c \<and> client_rtp c' = client_rtp c \<and> decoder_open c' = decoder_open c \<and>
    length dst' = length dst \<and> n \<le> length dst"
  using write_cb_spec [OF assms] by (auto simp: pcm_frame_def)

lemma destroy_client_fields:
  assumes "destroy_client (c, tr) = (c', tr')"
  shows "should_stop c' = should_stop c \<and> healthy c' = healthy c \<and> client_rtp c' = None \<and> \<not> decoder_open c' \<and>
    tr' = (case client_rtp c of None \<Rightarrow> tr | Some r \<Rightarrow> snd (stop (r, tr)))"
  using assms by (cases "client_rtp c") (auto simp: destroy_client_def destroy_rtp_def Let_def split: prod.splits)

lemma close_client_rtp_fields:
  assumes "close_client_rtp (c, tr) = (c', tr')"
  shows "should_stop c' = should_stop c \<and> healthy c' = healthy c \<and> decoder_open c' = decoder_open c"
  using assms by (auto simp: close_client_rtp_def split: option.splits prod.splits)

lemmas client_fields = recv_fields write_cb_fields destroy_client_fields close_client_rtp_fields

lemma quitting_step: "pstep dec a s t \<Longrightarrow> quitting s \<Longrightarrow> quitting t"
  by (erule pstep.cases)
    (auto simp: quitting_def request_shutdown_def is_shutdown_requested_def dest!: client_fields)

lemma threads_ok_step:
  assumes "pstep dec a s t" and "threads_ok s"
  shows "threads_ok t"
  using assms
  by (cases rule: pstep.cases)
    (auto simp: threads_ok_def quitting_def is_healthy_def request_shutdown_def is_shutdown_requested_def dest!: client_fields)


lemma rtp_ok_step:
  assumes "pstep dec a s t" and "rtp_ok ss st calls s"
  shows "rtp_ok ss st calls t"
  using assms
proof (cases rule: pstep.cases)
  case (main_close c tr)
  with assms(2) show ?thesis
    by (auto simp: rtp_ok_def close_client_rtp_def initialised_stop)
next
  case (main_join c tr)
  with assms(2) show ?thesis
    by (auto simp: rtp_ok_def stop_again dest!: client_fields)
qed (auto simp: rtp_ok_def dest!: client_fields)

lemma not_ready_outcome:
  assumes "run_virtual_input 0 0 env (None :: unit write_callback option) (b, (), h) = Some (Inl err, b', (), h')" and "vi_inv b h"
  shows "vi_inv b' h' \<and> \<not> playback b' \<and> virtual_source_fifo_path b' = virtual_source_fifo_path b"
  using vi_inv_run [OF assms] run_virtual_input_outcome [OF assms(1), of "[]"] by auto

lemma destroy_backend_gone:
  assumes "destroy_backend env b h = (b', h')" and "vi_inv b h"
  shows "vi_inv b' h' \<and> \<not> playback b' \<and> virtual_source_fifo_path b' = virtual_source_fifo_path b \<and> module_held h' = None \<and>
    \<not> fifo_made (virtual_source_fifo_path b) h' \<and> virtual_source_fd b' < 0"
proof -
  obtain b1 h1 where d: "destroy_virtual_input env (stop_recording b) h = (b1, h1)" by (metis surj_pair)
  have inv: "vi_inv (stop_recording b) h" using assms(2) by (simp add: vi_inv_stop)
  have eq: "b' = b1" "h' = h1 @ [ContextDisconnect, ContextUnref, MainloopFree]"
    using assms(1) by (simp_all add: destroy_backend_def d)
  have "playback b1 = playback (stop_recording b)"
    using d by (auto simp: destroy_virtual_input_def Let_def split: sum.splits if_splits)
  with vi_inv_destroy [OF inv d] destroy_virtual_input_fields(2,3) [OF d] show ?thesis
    by (simp add: eq vi_inv_def trace_simps)
qed

lemma vi_ok_step:
  assumes "pstep dec a s t" and "vi_ok path s" and "threads_ok s"
  shows "vi_ok path t"
proof -
  have vi: "vi_at (mic_pc s) (be s) (os s)" "virtual_source_fifo_path (be s) = path" using assms(2) by (simp_all add: vi_ok_def)
  have gone: "main_pc s \<noteq> Gone" if "mic_pc s \<noteq> Ended" using assms(3) that by (auto simp: threads_ok_def)
  show ?thesis
    using assms(1)
  proof (cases rule: pstep.cases)
    case main_quiet
    with assms(2) show ?thesis by (simp add: vi_ok_def vi_at_stop)
  next
    case (main_exit env b h)
    with assms(3) vi destroy_backend_gone [of env "be s" "os s" b h] show ?thesis
      by (auto simp: vi_ok_def threads_ok_def)
  next
    case (mic_load_fails env err b h)
    with load_pipe_source_cases [where b = "be s" and h = "os s" and env = env] vi gone show ?thesis by (auto simp: vi_ok_def)
  next
    case (mic_load env b h)
    with load_pipe_source_cases [where b = "be s" and h = "os s" and env = env] vi gone show ?thesis by (auto simp: vi_ok_def)
  next
    case (mic_open_again env b h)
    with open_round_cases [where b = "be s" and h = "os s" and env = env] vi gone show ?thesis by (auto simp: vi_ok_def)
  next
    case (mic_open_fails env err b h)
    with open_round_cases [where b = "be s" and h = "os s" and env = env] vi gone show ?thesis by (auto simp: vi_ok_def)
  next
    case (mic_opened env u b h)
    with open_round_cases [where b = "be s" and h = "os s" and env = env] vi gone show ?thesis by (auto simp: vi_ok_def Let_def)
  next
    case (mic_not_ready env err b h)
    with not_ready_outcome [of env "be s" "os s" err b h] vi gone show ?thesis by (auto simp: vi_ok_def)
  next
    case (mic_written buf offset n env u b h)
    with write_round_cases [where b = "be s" and h = "os s" and env = env and buf = buf and offset = offset and n = n] vi gone show ?thesis by (auto simp: vi_ok_def)
  next
    case (mic_write_fails buf offset n env err b h)
    with write_round_cases [where b = "be s" and h = "os s" and env = env and buf = buf and offset = offset and n = n] vi gone show ?thesis by (auto simp: vi_ok_def)
  next
    case (mic_wrote buf offset n env offset1 h)
    with write_round_cases [where b = "be s" and h = "os s" and env = env and buf = buf and offset = offset and n = n] vi gone show ?thesis by (auto simp: vi_ok_def)
  next
    case (mic_interrupted buf offset n env h)
    with write_round_cases [where b = "be s" and h = "os s" and env = env and buf = buf and offset = offset and n = n] vi gone show ?thesis by (auto simp: vi_ok_def)
  next
    case (mic_silent buf n buf1 c d evs)
    with vi gone show ?thesis by (auto simp: vi_ok_def vi_inv_iterate dest!: client_fields)
  next
    case (mic_produced buf n buf1 c d produced)
    with vi gone show ?thesis by (auto simp: vi_ok_def dest!: client_fields)
  next
    case (mic_report what)
    with vi gone show ?thesis by (auto simp: vi_ok_def vi_inv_stop)
  qed (use vi gone assms(2) in \<open>auto simp: vi_ok_def vi_inv_playback is_virtual_input_ready_def\<close>)
qed


section \<open>Every reachable state\<close>

lemma new_client_Inr:
  assumes "new_client env shut oe strerr self l r pol tr a k = (Inr (), s)" and "max_retries pol \<noteq> 0"
  shows "\<exists>rt. client_rtp (conn_client s) = Some rt \<and> is_initialised rt"
    "healthy (conn_client s)" "\<not> should_stop (conn_client s)" "decoder_open (conn_client s)"
proof -
  from assms(1) obtain s2 where c: "connect env shut l r self (unat (max_retries pol)) 1
        \<lparr>conn_client = (client_init pol)\<lparr>decoder_open := True, pcm_decbuf := replicate pcm_decbuf_size 0\<rparr>,
         conn_calls = tr, conn_audio = a, registered = True, polls = k, slept = 0\<rparr> = (Inr (), s2)"
      and s: "s = s2\<lparr>conn_client := (conn_client s2)\<lparr>thread_started := True\<rparr>\<rparr>"
    by (auto simp: new_client_def Let_def split: if_splits prod.splits sum.splits)
  have "1 \<le> unat (max_retries pol)" using assms(2) by (simp add: unat_gt_0 Suc_le_eq)
  from connect_Inr [OF c this] show "\<exists>rt. client_rtp (conn_client s) = Some rt \<and> is_initialised rt"
    "healthy (conn_client s)" "\<not> should_stop (conn_client s)" "decoder_open (conn_client s)"
    by (auto simp: s client_init_def)
qed

text \<open>A constructor of \<open>Client\<close> that has returned, in a fresh process.\<close>

definition constructed :: "pa_env \<Rightarrow> config \<Rightarrow> unit backend_ext conn \<Rightarrow> history \<Rightarrow> bool" where
  "constructed pa cfg s h \<longleftrightarrow> max_retries (connection cfg) \<noteq> 0 \<and>
     (\<exists>b env shut strerr self tr. backend_instance pa None [] = Some (Inr b, h) \<and>
        new_client env shut 0 strerr self (local_ip cfg, local_port cfg) (remote_ip cfg, remote_port cfg)
          (connection cfg) tr b 0 = (Inr (), s))"

definition fifo_path :: "pa_env \<Rightarrow> string" where
  "fifo_path pa = ''/tmp/audpipe_input_'' @ show_nat (process_id pa) @ ''.pcm''"

text \<open>What the constructor hands over.\<close>

lemma constructed_start:
  assumes "constructed pa cfg s h"
  obtains ss st where "vi_ok (fifo_path pa) (process_start sd d s h)" "threads_ok (process_start sd d s h)"
    "rtp_ok ss st (conn_calls s) (process_start sd d s h)"
proof -
  from assms obtain b env shut strerr self tr where mr: "max_retries (connection cfg) \<noteq> 0"
      and i: "backend_instance pa None [] = Some (Inr b, h)"
      and n: "new_client env shut 0 strerr self (local_ip cfg, local_port cfg) (remote_ip cfg, remote_port cfg)
          (connection cfg) tr b 0 = (Inr (), s)"
    unfolding constructed_def by blast
  from new_client_Inr [OF n mr] obtain rt where rt: "client_rtp (conn_client s) = Some rt" "is_initialised rt"
      and c: "healthy (conn_client s)" "\<not> should_stop (conn_client s)" "decoder_open (conn_client s)" by blast
  have "\<not> virtual_source_loaded b"
    using i by (auto simp: backend_instance_def new_backend_def Let_def split: option.splits bool.splits)
  then have "\<not> virtual_source_loaded (conn_audio s)" using new_client_audio [OF n] by auto
  moreover have "vi_inv (conn_audio s) h" "virtual_source_fifo_path (conn_audio s) = fifo_path pa"
    using new_client_vi_inv [OF n] instance_fresh [OF i] by (auto simp: fifo_path_def)
  ultimately have "vi_ok (fifo_path pa) (process_start sd d s h)" by (simp add: vi_ok_def process_start_def)
  moreover have "threads_ok (process_start sd d s h)" using c by (simp add: threads_ok_def process_start_def)
  moreover have "rtp_ok (the (session rt)) (the (stream rt)) (conn_calls s) (process_start sd d s h)"
    using rt by (auto simp: rtp_ok_def process_start_def is_initialised_def)
  ultimately show thesis by (rule that)
qed

lemma prun_invariant:
  assumes "prun dec s as t" and "P s" and "\<And>a s t. pstep dec a s t \<Longrightarrow> P s \<Longrightarrow> P t"
  shows "P t"
  using assms by (induction rule: prun.induct) blast+

lemma prun_constructed:
  assumes "constructed pa cfg s h" and "prun dec (process_start sd d s h) as t"
  obtains ss st where "vi_ok (fifo_path pa) t" "threads_ok t" "rtp_ok ss st (conn_calls s) t"
proof -
  obtain ss st where "vi_ok (fifo_path pa) (process_start sd d s h)" "threads_ok (process_start sd d s h)"
    "rtp_ok ss st (conn_calls s) (process_start sd d s h)" by (rule constructed_start [OF assms(1)])
  then have "vi_ok (fifo_path pa) t \<and> threads_ok t \<and> rtp_ok ss st (conn_calls s) t"
    by (intro prun_invariant [OF assms(2), where P = "\<lambda>t. vi_ok (fifo_path pa) t \<and> threads_ok t \<and> rtp_ok ss st (conn_calls s) t"])
      (blast intro: vi_ok_step threads_ok_step rtp_ok_step)+
  then show thesis using that by blast
qed

section \<open>A run\<close>

text \<open>
  The shutdown request comes while the microphone thread is between opening the FIFO and its loop:
  \<open>main\<close> turns playback off before the thread turns it on, and the shutdown flag stops the loop.
\<close>

definition lost_stop :: "actor list" where
  "lost_stop = [Mic_Thread, Mic_Thread, Signal, Main_Thread, Main_Thread, Main_Thread, Main_Thread, Mic_Thread, Mic_Thread]"

definition flag_stops :: "actor list" where
  "flag_stops = [Mic_Thread, Main_Thread, Main_Thread, Main_Thread]"

text \<open>A call of \<open>write\<close>.\<close>

fun is_write :: "pa_call \<Rightarrow> bool" where
  "is_write (WriteFd fd bs r) \<longleftrightarrow> True"
| "is_write c \<longleftrightarrow> False"

lemma prun_Cons: "prun dec t as u \<Longrightarrow> pstep dec a s t \<Longrightarrow> prun dec s (a # as) u"
proof (induction rule: prun.induct)
  case prun_nil
  then show ?case using prun.prun_snoc [OF prun.prun_nil] by fastforce
next
  case (prun_snoc as t b u)
  then show ?case using prun.prun_snoc by fastforce
qed

lemma prun_append: "prun dec t bs u \<Longrightarrow> prun dec s as t \<Longrightarrow> prun dec s (as @ bs) u"
  by (induction rule: prun.induct) (auto intro: prun.prun_snoc simp flip: append_assoc)

lemma sample_constructed:
  obtains s where "constructed sample_pa sample_config_record s [ContextConnect 0]" and "conn_audio s = fresh_backend"
    and "compressed_queue (conn_client s) = []"
proof -
  obtain s where s: "new_client sample_uvg (\<lambda>k. False) 0 (\<lambda>_. []) 1
      (local_ip sample_config_record, local_port sample_config_record) (remote_ip sample_config_record, remote_port sample_config_record)
      (connection sample_config_record) [] fresh_backend 0 = (Inr (), s)" "conn_audio s = fresh_backend"
      "compressed_queue (conn_client s) = []"
    using sample_client [of fresh_backend] by blast
  have "max_retries (connection sample_config_record) \<noteq> 0"
    by (simp add: sample_config_record_def config_init_def default_policy_def)
  with s(1) have "constructed sample_pa sample_config_record s [ContextConnect 0]"
    unfolding constructed_def using sample_instance by blast
  with s(2,3) show thesis by (intro that)
qed

text \<open>The first two steps of the microphone thread when everything works.\<close>

lemma opened_run:
  fixes dec :: "'d opus_decoder"
  assumes "conn_audio s = fresh_backend"
  obtains b h1 where "prun dec (process_start shutdown_init d s h) [Mic_Thread, Mic_Thread]
      ((process_start shutdown_init d s h)\<lparr>be := b, os := h1, mic_pc := Checking\<rparr>)"
    and "is_virtual_input_ready b" and "filter is_write h1 = filter is_write h"
proof -
  let ?env = "sample_pa\<lparr>shutdown_seen := (\<lambda>h. False)\<rparr>"
  obtain s0 where s0: "s0 = process_start shutdown_init d s h" by blast
  have be0: "be s0 = fresh_backend" "os s0 = h" "mic_pc s0 = Starting" "flag s0 = shutdown_init"
    by (simp_all add: s0 process_start_def assms)
  let ?b1 = "fresh_backend\<lparr>virtual_source_mod_idx := 7\<rparr>"
  obtain h1 where load: "load_pipe_source sample_pa fresh_backend h = Inr (?b1, h1)" "filter is_write h1 = filter is_write h"
    by (simp add: load_pipe_source_def fresh_backend_def Let_def pa_load_module_cb_def pa_invalid_index_def
        cleanup_stale_virtual_sources_def pa_module_list_cb_def trace_simps)
  obtain s1 where s1: "s1 = s0\<lparr>be := ?b1, os := h1, mic_pc := Opening\<rparr>" by blast
  obtain h2 where op: "open_round ?env ?b1 h1 = Inl (Inr (), ?b1\<lparr>virtual_source_fd := 5\<rparr>, h2)" "filter is_write h2 = filter is_write h1"
    by (simp add: open_round_def fresh_backend_def Let_def trace_simps)
  let ?b2 = "?b1\<lparr>virtual_source_fd := 5, virtual_source_loaded := True\<rparr>"
  have p1: "pstep dec Mic_Thread s0 s1"
    unfolding s1 by (rule mic_load [OF be0(3) _ sample_loads]) (use load be0 in \<open>simp_all add: fresh_backend_def\<close>)
  have p2: "pstep dec Mic_Thread s1 (s0\<lparr>be := ?b2, os := h2, mic_pc := Checking\<rparr>)"
    using mic_opened [where s = s1 and env = ?env and u = "()" and dec = dec] op
    by (simp add: s1 be0 flag_env_def shutdown_init_def is_shutdown_requested_def fresh_backend_def)
  have "prun dec s0 [Mic_Thread, Mic_Thread] (s0\<lparr>be := ?b2, os := h2, mic_pc := Checking\<rparr>)"
    by (rule prun_Cons [OF _ p1], rule prun_Cons [OF _ p2], rule prun_nil)
  moreover have "is_virtual_input_ready ?b2" by (simp add: is_virtual_input_ready_def fresh_backend_def)
  moreover have "filter is_write h2 = filter is_write h" using load(2) op(2) by simp
  ultimately show thesis unfolding s0 by (rule that)
qed

lemma race_run:
  fixes dec :: "'d opus_decoder"
  assumes "conn_audio s = fresh_backend"
  obtains m t where "prun dec (process_start shutdown_init d s h) lost_stop m" and "mic_pc m = AtPoll (replicate 3840 0)"
    and "main_pc m = Freeing" and "playback (be m)" and "is_shutdown_requested (flag m)"
    and "prun dec m flag_stops t" and "main_pc t = Gone"
proof -
  obtain s0 where s0: "s0 = process_start shutdown_init d s h" by blast
  have start: "main_pc s0 = Polling" "flag s0 = shutdown_init" by (simp_all add: s0 process_start_def)
  obtain b h2 where opened: "prun dec s0 [Mic_Thread, Mic_Thread] (s0\<lparr>be := b, os := h2, mic_pc := Checking\<rparr>)"
      and ready: "is_virtual_input_ready b"
    unfolding s0 by (rule opened_run [OF assms])
  obtain s2 where s2: "s2 = s0\<lparr>be := b, os := h2, mic_pc := Checking\<rparr>" by blast
  obtain s3 where s3: "s3 = s2\<lparr>flag := request_shutdown (flag s2)\<rparr>" by blast
  obtain s4 where s4: "s4 = s3\<lparr>main_pc := Stopping\<rparr>" by blast
  obtain s5 where s5: "s5 = s4\<lparr>cli := (cli s4)\<lparr>should_stop := True\<rparr>, main_pc := Closing\<rparr>" by blast
  obtain c6 tr6 where cl: "close_client_rtp (cli s5, uvg s5) = (c6, tr6)" by (metis surj_pair)
  obtain s6 where s6: "s6 = s5\<lparr>cli := c6, uvg := tr6, main_pc := Quieting\<rparr>" by blast
  obtain s7 where s7: "s7 = s6\<lparr>be := stop_recording (be s6), main_pc := Freeing\<rparr>" by blast
  obtain s8 where s8: "s8 = s7\<lparr>be := (be s7)\<lparr>playback := True\<rparr>, mic_pc := AtFlag (replicate 3840 0)\<rparr>" by blast
  obtain s9 where s9: "s9 = s8\<lparr>mic_pc := AtPoll (replicate 3840 0)\<rparr>" by blast
  obtain s10 where s10: "s10 = s9\<lparr>be := (be s9)\<lparr>playback := False\<rparr>, mic_pc := Ended\<rparr>" by blast
  obtain s11 where s11: "s11 = s10\<lparr>cli := (cli s10)\<lparr>decoder_open := False\<rparr>, main_pc := Joining\<rparr>" by blast
  obtain c12 tr12 where de: "destroy_client (cli s11, uvg s11) = (c12, tr12)" by (metis surj_pair)
  obtain s12 where s12: "s12 = s11\<lparr>cli := c12, uvg := tr12, main_pc := Leaving\<rparr>" by blast
  obtain b13 h13 where db: "destroy_backend sample_pa (be s12) (os s12) = (b13, h13)" by (metis surj_pair)
  obtain s13 where s13: "s13 = s12\<lparr>be := b13, os := h13, main_pc := Gone\<rparr>" by blast
  note states = s2 s3 s4 s5 s6 s7 s8 s9 s10 s11 s12 start
  have p3: "pstep dec Signal s2 s3" unfolding s3 by (rule pstep.signal)
  have p4: "pstep dec Main_Thread s3 s4"
    unfolding s4 by (rule main_leave) (simp_all add: states request_shutdown_def is_shutdown_requested_def)
  have p5: "pstep dec Main_Thread s4 s5" unfolding s5 by (rule main_stop) (simp add: states)
  have p6: "pstep dec Main_Thread s5 s6" unfolding s6 by (rule main_close [OF _ cl]) (simp add: states)
  have p7: "pstep dec Main_Thread s6 s7" unfolding s7 by (rule main_quiet) (simp add: states)
  have p8: "pstep dec Mic_Thread s7 s8"
    unfolding s8 by (rule mic_ready) (use ready in \<open>simp_all add: states is_virtual_input_ready_def\<close>)
  have p9: "pstep dec Mic_Thread s8 s9" unfolding s9 by (rule mic_on) (simp_all add: states)
  have p10: "pstep dec Mic_Thread s9 s10"
    unfolding s10 by (rule mic_shutdown) (simp_all add: states request_shutdown_def is_shutdown_requested_def)
  have p11: "pstep dec Main_Thread s10 s11" unfolding s11 by (rule main_free) (simp add: states)
  have p12: "pstep dec Main_Thread s11 s12" unfolding s12 by (rule main_join [OF _ _ de]) (simp_all add: states)
  have p13: "pstep dec Main_Thread s12 s13" unfolding s13 by (rule main_exit [OF _ db]) (simp add: states)
  have "prun dec s2 [Signal, Main_Thread, Main_Thread, Main_Thread, Main_Thread, Mic_Thread, Mic_Thread] s9"
    by (rule prun_Cons [OF _ p3], rule prun_Cons [OF _ p4], rule prun_Cons [OF _ p5], rule prun_Cons [OF _ p6],
        rule prun_Cons [OF _ p7], rule prun_Cons [OF _ p8], rule prun_Cons [OF _ p9], rule prun_nil)
  from prun_append [OF this opened [folded s2]] have "prun dec s0 lost_stop s9" by (simp add: lost_stop_def)
  moreover have "prun dec s9 flag_stops s13"
    unfolding flag_stops_def
    by (rule prun_Cons [OF _ p10], rule prun_Cons [OF _ p11], rule prun_Cons [OF _ p12], rule prun_Cons [OF _ p13], rule prun_nil)
  ultimately show thesis
    unfolding s0 by (intro that [of s9 s13]) (simp_all add: s9 s13 states request_shutdown_def is_shutdown_requested_def)
qed

section \<open>Properties\<close>

text \<open>The microphone thread is inside the loop of \<open>run_virtual_input\<close>.\<close>

fun in_loop :: "mic_at \<Rightarrow> bool" where
  "in_loop (AtFlag buf) \<longleftrightarrow> True"
| "in_loop (AtPoll buf) \<longleftrightarrow> True"
| "in_loop (Calling buf) \<longleftrightarrow> True"
| "in_loop (Writing buf offset n) \<longleftrightarrow> True"
| "in_loop m \<longleftrightarrow> False"

lemma vi_ok_in_loop:
  assumes "vi_ok path s" and "in_loop (mic_pc s)"
  shows "is_virtual_input_ready (be s) \<and> module_held (os s) = Some (virtual_source_mod_idx (be s)) \<and> fifo_made path (os s)"
proof -
  have "vi_inv (be s) (os s)" "is_virtual_input_ready (be s)" "virtual_source_fifo_path (be s) = path"
    using assms by (cases "mic_pc s"; simp add: vi_ok_def)+
  then show ?thesis by (auto simp: vi_inv_def is_virtual_input_ready_def)
qed



text \<open>What the threads may rely on, however they interleave. While the microphone thread is in its
  loop, the input it writes to is ready, its module loaded and its FIFO there; the backend is destroyed
  only after that thread has ended; and a write callback that starts when the decoder is already
  destroyed returns nothing and leaves the decoder alone (one that had started before does not).\<close>

theorem process_threads_apart:
  assumes "constructed pa cfg s h" and "prun dec (process_start sd d s h) as t"
  shows "(in_loop (mic_pc t) \<longrightarrow> is_virtual_input_ready (be t) \<and>
      module_held (os t) = Some (virtual_source_mod_idx (be t)) \<and> fifo_made (fifo_path pa) (os t)) \<and>
    (main_pc t \<in> {Leaving, Gone} \<longrightarrow> mic_pc t = Ended) \<and>
    (\<not> decoder_open (cli t) \<longrightarrow> write_cb dec dst (cli t, x) = (0, dst, cli t, x))"
proof -
  obtain ss st where "vi_ok (fifo_path pa) t" "threads_ok t" by (rule prun_constructed [OF assms])
  then show ?thesis using vi_ok_in_loop [of "fifo_path pa" t] by (auto simp: threads_ok_def write_cb_def)
qed

theorem process_threads_apart_witness:
  "\<exists>s t. prun toy_decoder (process_start shutdown_init 0 s [ContextConnect 0]) lost_stop t \<and> playback (be t) \<and>
     main_pc t = Freeing \<and> is_virtual_input_ready (be t)"
proof -
  obtain s where s: "constructed sample_pa sample_config_record s [ContextConnect 0]" "conn_audio s = fresh_backend"
    by (rule sample_constructed)
  obtain t where t: "prun toy_decoder (process_start shutdown_init 0 s [ContextConnect 0]) lost_stop t"
      "mic_pc t = AtPoll (replicate 3840 0)" "main_pc t = Freeing" "playback (be t)"
    by (rule race_run [OF s(2)])
  with process_threads_apart [OF s(1) t(1)] show ?thesis by auto
qed

end
