(* ===== verification/Client_Exit.thy ===== *)
theory Client_Exit
  imports Client_Process
begin

text \<open>
  That client mode comes to its end. Once a shutdown has been requested or the client has failed, every
  step of the main and of the microphone thread brings a variant down, the other steps leave it alone,
  and until the process is gone one of the two threads can go on.
\<close>

section \<open>The variant\<close>

fun main_left :: "main_at \<Rightarrow> nat" where
  "main_left Polling = 7"
| "main_left Stopping = 6"
| "main_left Closing = 5"
| "main_left Quieting = 4"
| "main_left Freeing = 3"
| "main_left Joining = 2"
| "main_left Leaving = 1"
| "main_left Gone = 0"

text \<open>A buffer of 3840 bytes takes at most as many writes.\<close>

fun mic_left :: "mic_at \<Rightarrow> nat" where
  "mic_left Starting = 7"
| "mic_left Opening = 6"
| "mic_left Checking = 5"
| "mic_left (AtFlag buf) = 4"
| "mic_left (AtPoll buf) = 3"
| "mic_left (Calling buf) = 3846"
| "mic_left (Writing buf offset n) = 5 + (n - offset)"
| "mic_left (Throwing what) = 2"
| "mic_left (Failing what) = 1"
| "mic_left Ended = 0"

definition steps_left :: "'d process \<Rightarrow> nat" where
  "steps_left s = main_left (main_pc s) + mic_left (mic_pc s)"

definition works :: "actor \<Rightarrow> bool" where
  "works a \<longleftrightarrow> a = Main_Thread \<or> a = Mic_Thread"

text \<open>When the shutdown flag is set the opening loop is left.\<close>

lemma open_round_shutdown:
  assumes "half_open b h" and "flag_env sd env" and "is_shutdown_requested sd"
  shows "open_round env b h \<noteq> Inr r"
  using assms by (auto simp: open_round_def half_open_def flag_env_def Let_def split: sum.split)

lemma quitting_shutdown:
  assumes "quitting s" and "threads_ok s" and "\<not> gave_up (mic_pc s)"
  shows "is_shutdown_requested (flag s)"
  using assms by (auto simp: quitting_def threads_ok_def)

lemma working_step_decreases:
  assumes "pstep dec a s t" and "works a" and "quitting s" and "vi_ok path s" and "threads_ok s"
  shows "steps_left t < steps_left s"
  using assms(1)
proof (cases rule: pstep.cases)
  case (mic_open_again env b h)
  have "is_shutdown_requested (flag s)" by (rule quitting_shutdown [OF assms(3,5)]) (simp add: mic_open_again)
  moreover have "half_open (be s) (os s)" using assms(4) mic_open_again by (simp add: vi_ok_def)
  ultimately show ?thesis using open_round_shutdown mic_open_again by blast
next
  case (mic_go buf)
  have "is_shutdown_requested (flag s)" by (rule quitting_shutdown [OF assms(3,5)]) (simp add: mic_go)
  with mic_go show ?thesis by simp
next
  case (mic_produced buf n buf1 c d produced)
  have "length buf1 = 3840" using mic_produced assms(4) by (auto simp: vi_ok_def dest!: write_cb_fields)
  with mic_produced have "produced \<le> 3840" by simp
  with mic_produced show ?thesis by (simp add: steps_left_def)
next
  case (mic_wrote buf offset n env offset1 h)
  have "vi_inv (be s) (os s)" "is_virtual_input_ready (be s)" using mic_wrote assms(4) by (simp_all add: vi_ok_def)
  with write_round_cases [where b = "be s" and h = "os s" and env = env and buf = buf and offset = offset and n = n] mic_wrote have "offset < n" "offset < offset1" by auto
  with mic_wrote show ?thesis by (simp add: steps_left_def)
qed (use assms(2) in \<open>simp_all add: works_def steps_left_def\<close>)

lemma idle_step_keeps: "pstep dec a s t \<Longrightarrow> \<not> works a \<Longrightarrow> steps_left t = steps_left s"
  by (erule pstep.cases) (simp_all add: works_def steps_left_def)

lemma steps_left_bound:
  assumes "vi_ok path s"
  shows "steps_left s \<le> 3853"
proof -
  have "mic_left (mic_pc s) \<le> 3846" using assms by (cases "mic_pc s") (auto simp: vi_ok_def)
  moreover have "main_left (main_pc s) \<le> 7" by (cases "main_pc s") simp_all
  ultimately show ?thesis by (simp add: steps_left_def)
qed

section \<open>No thread is stuck\<close>

text \<open>The environment of the samples, with the shutdown flag as it is.\<close>

definition answering :: "shutdown_state \<Rightarrow> pa_env" where
  "answering sd = sample_pa\<lparr>shutdown_seen := (\<lambda>h. is_shutdown_requested sd)\<rparr>"

lemma answering_env [simp]: "flag_env sd (answering sd)" "write_result (answering sd) h bs = Inr (length bs)"
  by (simp_all add: flag_env_def answering_def)

lemma mic_can_go_on:
  assumes "vi_ok path s" and "mic_pc s \<noteq> Ended"
  shows "\<exists>t. pstep dec Mic_Thread s t"
proof -
  have vi: "vi_at (mic_pc s) (be s) (os s)" using assms(1) by (simp add: vi_ok_def)
  show ?thesis
  proof (cases "mic_pc s")
    case Starting
    with vi have "vi_inv (be s) (os s)" "\<not> virtual_source_loaded (be s)" by simp_all
    from load_pipe_source_cases [OF this sample_loads] Starting this(2) show ?thesis
      by (cases "load_pipe_source sample_pa (be s) (os s)")
        (auto intro: mic_load_fails [OF _ _ sample_loads] mic_load [OF _ _ sample_loads])
  next
    case Opening
    obtain r where r: "open_round (answering (flag s)) (be s) (os s) = r" by blast
    show ?thesis
    proof (cases r)
      case (Inr p)
      obtain b h where "p = (b, h)" by (cases p)
      with r Inr mic_open_again [OF Opening answering_env(1)] show ?thesis by blast
    next
      case (Inl p)
      obtain x b h where p: "p = (x, b, h)" by (cases p)
      with r Inl mic_open_fails [OF Opening answering_env(1)] mic_opened [OF Opening answering_env(1)] show ?thesis
        by (cases x) blast+
    qed
  next
    case Checking
    with vi show ?thesis using mic_ready [OF Checking] by auto
  next
    case (AtFlag buf)
    show ?thesis using mic_off [OF AtFlag] mic_on [OF AtFlag] by blast
  next
    case (AtPoll buf)
    show ?thesis using mic_shutdown [OF AtPoll] mic_go [OF AtPoll] by blast
  next
    case (Calling buf)
    obtain n buf1 c d where w: "write_cb dec buf (cli s, dec_state s) = (n, buf1, c, d)" by (metis surj_pair)
    show ?thesis
      using mic_silent [OF Calling w] mic_produced [OF Calling w refl] by blast
  next
    case (Writing buf offset n)
    show ?thesis
    proof (cases "write_round (answering (flag s)) buf offset n (be s) (os s)")
      case (Inl p)
      obtain x b h where "p = (x, b, h)" by (cases p)
      with Inl mic_written [OF Writing answering_env(1)] mic_write_fails [OF Writing answering_env(1)] show ?thesis
        by (cases x) blast+
    next
      case (Inr p)
      obtain offset1 h where p: "p = (offset1, h)" by (cases p)
      with Inr have "offset1 \<noteq> offset" by (auto simp: write_round_def Let_def split: if_splits)
      with Inr p mic_wrote [OF Writing answering_env(1)] show ?thesis by blast
    qed
  next
    case (Throwing what)
    show ?thesis using mic_error_again [OF Throwing] mic_unhealthy [OF Throwing] by blast
  next
    case (Failing what)
    show ?thesis using mic_report [OF Failing] by blast
  next
    case Ended
    with assms(2) show ?thesis by simp
  qed
qed

lemma main_can_go_on:
  assumes "quitting s" and "main_pc s \<noteq> Gone" and "main_pc s = Joining \<longrightarrow> mic_pc s = Ended"
  shows "\<exists>t. pstep dec Main_Thread s t"
proof (cases "main_pc s")
  case Polling
  show ?thesis using main_leave [OF Polling] assms(1) by (auto simp: quitting_def is_healthy_def)
next
  case Stopping
  show ?thesis using main_stop [OF Stopping] by blast
next
  case Closing
  show ?thesis using main_close [OF Closing] by (metis surj_pair)
next
  case Quieting
  show ?thesis using main_quiet [OF Quieting] by blast
next
  case Freeing
  show ?thesis using main_free [OF Freeing] by blast
next
  case Joining
  show ?thesis using main_join [OF Joining] assms(3) Joining by (metis surj_pair)
next
  case Leaving
  show ?thesis using main_exit [OF Leaving] by (metis surj_pair)
qed (use assms(2) in simp)

section \<open>Properties\<close>

lemma prun_works:
  assumes "prun dec s as t" and "quitting s" and "vi_ok path s" and "threads_ok s"
  shows "length (filter works as) + steps_left t \<le> steps_left s \<and> quitting t \<and> vi_ok path t \<and> threads_ok t"
  using assms
proof (induction rule: prun.induct)
  case (prun_snoc s as t a u)
  then have IH: "length (filter works as) + steps_left t \<le> steps_left s" "quitting t" "vi_ok path t" "threads_ok t" by simp_all
  note next_ok = quitting_step [OF prun_snoc.hyps(2) IH(2)] vi_ok_step [OF prun_snoc.hyps(2) IH(3,4)] threads_ok_step [OF prun_snoc.hyps(2) IH(4)]
  show ?case
  proof (cases "works a")
    case True
    with working_step_decreases [OF prun_snoc.hyps(2) True IH(2-4)] IH(1) next_ok show ?thesis by simp
  next
    case False
    with idle_step_keeps [OF prun_snoc.hyps(2) False] IH(1) next_ok show ?thesis by simp
  qed
qed simp



end
