(* ===== verification/Client_Stream.thy ===== *)
theory Client_Stream
  imports Client_Process Virtual_Mic
begin

text \<open>
  What the virtual microphone of the running process hears: the bytes the FIFO accepts while the threads
  of \<open>Client_Process\<close> interleave, against what the frames that arrived decode to.
\<close>

section \<open>Writes to the FIFO\<close>

definition fifo_writes :: "history \<Rightarrow> history" where
  "fifo_writes h = filter is_write h"

lemma fifo_writes_simps [simp]:
  "fifo_writes [] = []" "fifo_writes (xs @ ys) = fifo_writes xs @ fifo_writes ys"
  "fifo_writes (c # cs) = (if is_write c then c # fifo_writes cs else fifo_writes cs)"
  by (simp_all add: fifo_writes_def)

text \<open>Every write took all its bytes, or had to be repeated.\<close>

definition took_all :: "history \<Rightarrow> bool" where
  "took_all h \<longleftrightarrow> (\<forall>fd bs r. WriteFd fd bs r \<in> set h \<longrightarrow> r = Inr (length bs) \<or> r = Inl EINTR)"

text \<open>Every write took all its bytes or none.\<close>

definition took_whole :: "history \<Rightarrow> bool" where
  "took_whole h \<longleftrightarrow> (\<forall>fd bs k. WriteFd fd bs (Inr k) \<in> set h \<longrightarrow> k = length bs)"

lemma took_simps [simp]:
  "took_all []" "took_whole []"
  "took_all (xs @ ys) \<longleftrightarrow> took_all xs \<and> took_all ys" "took_whole (xs @ ys) \<longleftrightarrow> took_whole xs \<and> took_whole ys"
  unfolding took_all_def took_whole_def by (simp_all, blast+)

lemma same_writes:
  assumes "fifo_writes h' = fifo_writes h"
  shows "accepted h' = accepted h" "took_all h' = took_all h" "took_whole h' = took_whole h"
proof -
  have acc: "accepted (fifo_writes x) = accepted x" for x
  proof (induction x)
    case (Cons c x)
    then show ?case by (cases c) (simp_all add: accepted_def)
  qed simp
  have mem: "WriteFd fd bs r \<in> set x \<longleftrightarrow> WriteFd fd bs r \<in> set (fifo_writes x)" for fd bs r x
    by (simp add: fifo_writes_def)
  show "accepted h' = accepted h" using acc assms by metis
  show "took_all h' = took_all h" "took_whole h' = took_whole h"
    using mem assms unfolding took_all_def took_whole_def by metis+
qed

text \<open>Only the inner loop writes.\<close>

lemma unload_stale_quiet [simp]: "fifo_writes (unload_stale env is h) = fifo_writes h"
  by (induction "is" arbitrary: h) simp_all

lemma cleanup_quiet [simp]: "fifo_writes (cleanup_stale_virtual_sources env h) = fifo_writes h"
  by (simp add: cleanup_stale_virtual_sources_def Let_def)

lemma load_pipe_source_quiet:
  "load_pipe_source env b h = Inl (res, b', h') \<Longrightarrow> fifo_writes h' = fifo_writes h"
  "load_pipe_source env b h = Inr (b', h') \<Longrightarrow> fifo_writes h' = fifo_writes h"
  by (auto simp: load_pipe_source_def Let_def die_def split: if_splits sum.splits option.splits)

lemma open_round_quiet:
  "open_round env b h = Inl (res, b', h') \<Longrightarrow> fifo_writes h' = fifo_writes h"
  "open_round env b h = Inr (b', h') \<Longrightarrow> fifo_writes h' = fifo_writes h"
  by (auto simp: open_round_def Let_def die_def rollback_def split: if_splits sum.splits)

lemma not_ready_quiet:
  "run_virtual_input 0 0 env (None :: unit write_callback option) (b, u, h) = Some (Inl err, b', u', h') \<Longrightarrow>
     fifo_writes h' = fifo_writes h"
  by (auto simp: run_virtual_input_def run_loop.simps Let_def die_def split: if_splits)

lemma destroy_backend_quiet:
  "destroy_backend env b h = (b', h') \<Longrightarrow> fifo_writes h' = fifo_writes h"
  by (auto simp: destroy_backend_def destroy_virtual_input_def Let_def split: if_splits sum.splits)

lemmas quiet = load_pipe_source_quiet open_round_quiet not_ready_quiet destroy_backend_quiet

text \<open>A round of the inner loop: it goes round after a write that took something or was interrupted, and is
  left when nothing remains to be written, or after a write that took nothing.\<close>

lemma write_round_again:
  assumes "write_round env buf offset n b h = Inr (offset1, h')"
  obtains r where "h' = h @ [WriteFd (virtual_source_fd b) (take (n - offset) (drop offset buf)) r]"
    and "r = Inl EINTR \<and> offset1 = offset \<or> (\<exists>k. r = Inr k \<and> offset1 = offset + k)"
proof -
  let ?bs = "take (n - offset) (drop offset buf)"
  have "h' = h @ [WriteFd (virtual_source_fd b) ?bs (write_result env h ?bs)]"
    and "write_result env h ?bs = Inl EINTR \<and> offset1 = offset \<or> (\<exists>k. write_result env h ?bs = Inr k \<and> offset1 = offset + k)"
    using assms by (cases "write_result env h ?bs"; simp add: write_round_def Let_def split: if_splits)+
  with that show thesis by blast
qed

lemma write_round_left:
  assumes "write_round env buf offset n b h = Inl (res, b', h')" and "n \<le> length buf"
  obtains (finished) "n \<le> offset" and "h' = h"
  | (refused) r rest where "h' = h @ WriteFd (virtual_source_fd b) (take (n - offset) (drop offset buf)) r # rest"
    and "fifo_writes rest = []" and "r = Inr 0 \<or> (\<exists>e. r = Inl e)"
    and "r \<noteq> Inl EINTR" and "r \<noteq> Inr (length (take (n - offset) (drop offset buf)))"
proof (cases "offset < n")
  case False
  with assms(1) finished show thesis by (auto simp add: write_round_def)
next
  case True
  let ?bs = "take (n - offset) (drop offset buf)"
  let ?r = "write_result env h ?bs"
  have ne: "length ?bs \<noteq> 0" using True assms(2) by simp
  have "\<exists>rest. h' = h @ WriteFd (virtual_source_fd b) ?bs ?r # rest \<and> fifo_writes rest = []"
    using assms(1) True by (cases ?r) (auto simp: write_round_def Let_def die_def split: if_splits)
  moreover have "?r = Inr 0 \<or> (\<exists>e. ?r = Inl e)" "?r \<noteq> Inl EINTR"
    using assms(1) True by (cases ?r; simp add: write_round_def Let_def split: if_splits)+
  moreover from this ne have "?r \<noteq> Inr (length ?bs)" by auto
  ultimately show thesis using refused by blast
qed


section \<open>The invariant\<close>

text \<open>The frames uvgRTP's thread delivered in a run.\<close>

fun frames_of :: "actor \<Rightarrow> rtp_frame list" where
  "frames_of (Network f) = [f]"
| "frames_of a = []"

definition arrived :: "actor list \<Rightarrow> byte list list" where
  "arrived as = payloads (concat (map frames_of as))"

lemma arrived_snoc: "arrived (as @ [a]) = arrived as @ payloads (frames_of a)"
  by (simp add: arrived_def payloads_def List.map_filter_def)

text \<open>What is still to be written of the buffer the microphone thread is busy with.\<close>

fun in_flight :: "mic_at \<Rightarrow> byte list" where
  "in_flight (Writing buf offset n) = drop offset (take n buf)"
| "in_flight m = []"

text \<open>
  Some of the frames that arrived have been decoded in order, starting with the PCM buffer \<open>buf\<close> and the
  decoder's state \<open>d\<close>, and later ones wait. The bytes accepted, in flight and queued are a subsequence
  of what the decoded ones stand for, and equal to it if no write was refused. If \<open>exact\<close> holds, no
  frame is missing.
\<close>

definition stream_at :: "bool \<Rightarrow> 'd opus_decoder \<Rightarrow> sample list \<Rightarrow> 'd \<Rightarrow> byte list list \<Rightarrow> history \<Rightarrow> byte list
    \<Rightarrow> client \<Rightarrow> 'd \<Rightarrow> bool" where
  "stream_at exact dec buf d frames h pending c d' \<longleftrightarrow> (\<exists>taken. subseq (taken @ compressed_queue c) frames \<and>
     (exact \<longrightarrow> taken @ compressed_queue c = frames) \<and>
     decode_run dec buf d taken = (pcm_decbuf c, d') \<and>
     subseq (accepted h @ pending @ playback_queue c) (pcm_stream dec buf d taken) \<and>
     (took_all h \<longrightarrow> accepted h @ pending @ playback_queue c = pcm_stream dec buf d taken))"

text \<open>Whole stereo samples have been accepted, are in flight and queued.\<close>

definition whole_at :: "history \<Rightarrow> byte list \<Rightarrow> client \<Rightarrow> bool" where
  "whole_at h pending c \<longleftrightarrow> even (length (pcm_decbuf c)) \<and> 4 dvd length (playback_queue c) \<and>
     (took_whole h \<longrightarrow> 4 dvd length (accepted h) \<and> 4 dvd length pending)"

definition hearing :: "bool \<Rightarrow> 'd opus_decoder \<Rightarrow> sample list \<Rightarrow> 'd \<Rightarrow> byte list list \<Rightarrow> 'd process \<Rightarrow> bool" where
  "hearing exact dec buf d frames s \<longleftrightarrow>
     stream_at exact dec buf d frames (os s) (in_flight (mic_pc s)) (cli s) (dec_state s) \<and>
     whole_at (os s) (in_flight (mic_pc s)) (cli s)"

definition same_queues :: "client \<Rightarrow> client \<Rightarrow> bool" where
  "same_queues c c' \<longleftrightarrow> compressed_queue c' = compressed_queue c \<and> playback_queue c' = playback_queue c \<and>
     pcm_decbuf c' = pcm_decbuf c"

lemma hearing_same:
  assumes "hearing exact dec buf d frames s" and "fifo_writes (os t) = fifo_writes (os s)" and "same_queues (cli s) (cli t)"
    and "dec_state t = dec_state s" and "in_flight (mic_pc t) = in_flight (mic_pc s)"
  shows "hearing exact dec buf d frames t"
  using assms(1,3-5) by (simp add: hearing_def stream_at_def whole_at_def same_queues_def same_writes [OF assms(2)])

text \<open>A frame arrives. It is neither refused nor does it displace another one if the client runs and has room.\<close>

definition has_room :: "client \<Rightarrow> bool" where
  "has_room c \<longleftrightarrow> \<not> should_stop c \<and> healthy c \<and> length (compressed_queue c) < max_compressed_queue_frames"

lemma recv_has_room:
  "recv_callback (Some f) (Some c) = (Some c', freed) \<Longrightarrow> has_room c \<Longrightarrow> compressed_queue c' = compressed_queue c @ payloads [f]"
  by (auto simp: recv_callback_def has_room_def enqueue_frame_def Let_def split: if_splits option.splits)

lemma stream_at_frame:
  assumes "stream_at exact dec buf d frames h pending c d'" and "recv_callback (Some f) (Some c) = (Some c', freed)"
    and "exact \<longrightarrow> has_room c"
  shows "stream_at exact dec buf d (frames @ payloads [f]) h pending c' d'"
proof -
  have one: "playback_queue c' = playback_queue c" "pcm_decbuf c' = pcm_decbuf c"
      "subseq (compressed_queue c') (compressed_queue c @ payloads [f])"
    using recv_all_queue [of "[f]" c] assms(2) by (simp_all split: prod.splits)
  from assms(1) obtain taken where t: "subseq (taken @ compressed_queue c) frames"
      "decode_run dec buf d taken = (pcm_decbuf c, d')"
      "subseq (accepted h @ pending @ playback_queue c) (pcm_stream dec buf d taken)"
      "took_all h \<longrightarrow> accepted h @ pending @ playback_queue c = pcm_stream dec buf d taken"
      and ex: "exact \<longrightarrow> taken @ compressed_queue c = frames"
    by (auto simp: stream_at_def)
  have "subseq (taken @ compressed_queue c') ((taken @ compressed_queue c) @ payloads [f])"
    using one(3) by (simp only: append_assoc subseq_append')
  also have "subseq \<dots> (frames @ payloads [f])" using t(1) by (simp only: subseq_append)
  finally have "subseq (taken @ compressed_queue c') (frames @ payloads [f])" .
  moreover have "exact \<longrightarrow> taken @ compressed_queue c' = frames @ payloads [f]"
    using ex recv_has_room [OF assms(2)] assms(3) by (simp del: payloads_simps flip: append_assoc)
  ultimately show ?thesis using t(2-4) one(1,2) unfolding stream_at_def by (intro exI [of _ taken]) simp
qed

lemma decode_run_append:
  "decode_run dec buf d (xs @ ys) = (case decode_run dec buf d xs of (buf1, d1) \<Rightarrow> decode_run dec buf1 d1 ys)"
  by (induction xs arbitrary: buf d) (auto split: prod.splits)

text \<open>The write callback is called; what it produces is in flight.\<close>

lemma stream_at_callback:
  assumes "stream_at exact dec buf d frames h [] c d'" and "write_cb dec dst (c, d') = (n, dst', c1, d1)"
  shows "stream_at exact dec buf d frames h (take n dst') c1 d1"
proof -
  from assms(1) obtain taken where t: "subseq (taken @ compressed_queue c) frames"
      "decode_run dec buf d taken = (pcm_decbuf c, d')"
      "subseq (accepted h @ playback_queue c) (pcm_stream dec buf d taken)"
      "took_all h \<longrightarrow> accepted h @ playback_queue c = pcm_stream dec buf d taken"
      and ex: "exact \<longrightarrow> taken @ compressed_queue c = frames"
    by (auto simp: stream_at_def)
  from write_cb_takes_frames [OF assms(2)] obtain fs where f: "compressed_queue c = fs @ compressed_queue c1"
      "decode_run dec (pcm_decbuf c) d' fs = (pcm_decbuf c1, d1)"
      "take n dst' @ playback_queue c1 = playback_queue c @ pcm_stream dec (pcm_decbuf c) d' fs" by blast
  have "pcm_stream dec buf d (taken @ fs) = pcm_stream dec buf d taken @ pcm_stream dec (pcm_decbuf c) d' fs"
    using t(2) by (simp add: pcm_stream_append)
  moreover have "accepted h @ take n dst' @ playback_queue c1 = (accepted h @ playback_queue c) @ pcm_stream dec (pcm_decbuf c) d' fs"
    using f(3) by simp
  moreover have "decode_run dec buf d (taken @ fs) = (pcm_decbuf c1, d1)"
    using t(2) f(2) by (simp add: decode_run_append)
  moreover have "subseq ((accepted h @ playback_queue c) @ pcm_stream dec (pcm_decbuf c) d' fs)
      (pcm_stream dec buf d taken @ pcm_stream dec (pcm_decbuf c) d' fs)"
    using t(3) by (simp only: subseq_append)
  ultimately show ?thesis
    using t(1,4) f(1) ex unfolding stream_at_def by (intro exI [of _ "taken @ fs"]) simp
qed

text \<open>Bytes in flight are accepted, in part or not at all.\<close>

lemma stream_at_write:
  assumes "stream_at exact dec buf d frames h pending c d'" and "subseq (accepted h' @ rest) (accepted h @ pending)"
    and "took_all h' \<longrightarrow> took_all h \<and> accepted h' @ rest = accepted h @ pending"
  shows "stream_at exact dec buf d frames h' rest c d'"
proof -
  have "subseq (accepted h' @ rest @ playback_queue c) (accepted h @ pending @ playback_queue c)"
    using assms(2) by (simp only: append_assoc [symmetric] subseq_append)
  with assms(1,3) show ?thesis
    unfolding stream_at_def by (metis append_assoc subseq_order.order_trans)
qed


text \<open>A round of the inner loop; \<open>b\<close> is what it makes of the backend.\<close>

lemma hearing_write_again:
  assumes "hearing exact dec buf0 d frames s" and "mic_pc s = Writing buf offset n"
    and "write_round env buf offset n (be s) (os s) = Inr (offset1, h)"
  shows "hearing exact dec buf0 d frames (s\<lparr>os := h, mic_pc := Writing buf offset1 n\<rparr>)"
proof -
  obtain p where p: "p = take n buf" by blast
  let ?bs = "drop offset p" and ?rest = "drop offset1 p"
  have pend: "stream_at exact dec buf0 d frames (os s) ?bs (cli s) (dec_state s)" "whole_at (os s) ?bs (cli s)"
    using assms(1,2) by (simp_all only: hearing_def p in_flight.simps)
  from assms(3) obtain r where h: "h = os s @ [WriteFd (virtual_source_fd (be s)) ?bs r]"
      and r: "r = Inl EINTR \<and> offset1 = offset \<or> (\<exists>k. r = Inr k \<and> offset1 = offset + k)"
    by (rule write_round_again) (simp add: p drop_take)
  have acc: "accepted h = accepted (os s) @ (case r of Inl e \<Rightarrow> [] | Inr k \<Rightarrow> take k ?bs)"
    by (cases r) (simp_all add: h accepted_def)
  have "take k ?bs @ drop (offset + k) p = ?bs" for k
    using append_take_drop_id [of k ?bs] by (simp only: drop_drop add.commute)
  with r have all: "accepted h @ ?rest = accepted (os s) @ ?bs" by (elim disjE exE conjE) (simp_all only: acc sum.case append_assoc append_Nil)
  then have "stream_at exact dec buf0 d frames h ?rest (cli s) (dec_state s)"
    using stream_at_write [OF pend(1)] by (simp add: h)
  moreover have "4 dvd length (accepted h) \<and> 4 dvd length ?rest" if w: "took_whole h"
  proof -
    from w have "took_whole (os s)" "took_whole [WriteFd (virtual_source_fd (be s)) ?bs r]" by (simp_all only: h took_simps)
    with pend(2) have w1: "4 dvd length (accepted (os s))" "4 dvd length ?bs" "\<And>k. r = Inr k \<Longrightarrow> k = length ?bs"
      by (simp_all add: whole_at_def took_whole_def del: length_drop)
    from r show ?thesis
    proof
      assume "r = Inl EINTR \<and> offset1 = offset"
      with w1(1,2) show ?thesis by (simp only: acc sum.case append_Nil2)
    next
      assume "\<exists>k. r = Inr k \<and> offset1 = offset + k"
      then obtain k where k: "r = Inr k" "offset1 = offset + k" by blast
      with w1(3) have "r = Inr (length ?bs)" "?rest = []" by simp_all
      with w1(1,2) show ?thesis by (simp only: acc sum.case take_all_iff [THEN iffD2, OF order_refl] length_append list.size dvd_add dvd_0_right)
    qed
  qed
  ultimately show ?thesis using pend(2) by (simp add: hearing_def whole_at_def p del: length_drop length_take)
qed

lemma hearing_write_left:
  assumes "hearing exact dec buf0 d frames s" and "mic_pc s = Writing buf offset n" and "n \<le> length buf"
    and "write_round env buf offset n (be s) (os s) = Inl (res, b, h)" and "in_flight m = []"
  shows "hearing exact dec buf0 d frames (s\<lparr>be := b, os := h, mic_pc := m\<rparr>)"
proof -
  let ?bs = "drop offset (take n buf)"
  have pend: "stream_at exact dec buf0 d frames (os s) ?bs (cli s) (dec_state s)" "whole_at (os s) ?bs (cli s)"
    using assms(1,2) by (simp_all add: hearing_def)
  show ?thesis
    using assms(4,3)
  proof (cases rule: write_round_left)
    case finished
    with pend assms(5) show ?thesis by (simp add: hearing_def)
  next
    case (refused r rest)
    have acc: "accepted h = accepted (os s)"
      using same_writes(1) [of rest "[]"] refused(2,3) by (auto simp: refused(1) accepted_def)
    have "\<not> took_all h" using refused(4,5) by (auto simp: refused(1) took_all_def)
    then have "stream_at exact dec buf0 d frames h [] (cli s) (dec_state s)"
      by (intro stream_at_write [OF pend(1)]) (simp_all add: acc prefix_imp_subseq)
    moreover have "took_whole (os s)" if "took_whole h" using that by (simp add: refused(1))
    ultimately show ?thesis using pend(2) assms(5) by (simp add: hearing_def whole_at_def acc)
  qed
qed

lemma hearing_callback:
  assumes "hearing exact dec buf0 d frames s" and "mic_pc s = Calling buf" and "length buf = 3840"
    and "write_cb dec buf (cli s, dec_state s) = (n, buf1, c, x)"
    and "fifo_writes h = fifo_writes (os s)" and "in_flight m = take n buf1"
  shows "hearing exact dec buf0 d frames (s\<lparr>cli := c, dec_state := x, os := h, mic_pc := m\<rparr>)"
proof -
  have pend: "stream_at exact dec buf0 d frames (os s) [] (cli s) (dec_state s)" "whole_at (os s) [] (cli s)"
    using assms(1,2) by (simp_all add: hearing_def)
  have n: "n \<le> length buf1" using write_cb_fields [OF assms(4)] by simp
  have "4 dvd n \<and> even (length (pcm_decbuf c)) \<and> 4 dvd length (playback_queue c)"
    using pend(2) assms(3) by (intro write_cb_whole [OF assms(4)]) (simp_all add: whole_at_def)
  moreover have "stream_at exact dec buf0 d frames (os s) (take n buf1) c x" by (rule stream_at_callback [OF pend(1) assms(4)])
  ultimately show ?thesis
    using pend(2) n assms(6) by (simp add: hearing_def whole_at_def stream_at_def same_writes [OF assms(5)])
qed


lemma close_queues: "close_client_rtp (c, tr) = (c', tr') \<Longrightarrow> same_queues c c'"
  by (auto simp: close_client_rtp_def same_queues_def split: option.splits prod.splits)

lemma destroy_queues: "destroy_client (c, tr) = (c', tr') \<Longrightarrow> same_queues c c'"
  by (auto simp: destroy_client_def same_queues_def Let_def split: option.splits prod.splits)

lemma hearing_step:
  assumes "pstep dec a s t" and "vi_ok path s" and "hearing exact dec buf0 d frames s"
    and "exact \<longrightarrow> frames_of a = [] \<or> has_room (cli s)"
  shows "hearing exact dec buf0 d (frames @ payloads (frames_of a)) t"
proof -
  have buf: "length buf = 3840" if "mic_pc s = Calling buf" for buf using assms(2) that by (simp add: vi_ok_def)
  have wr: "n \<le> length buf" if "mic_pc s = Writing buf offset n" for buf offset n using assms(2) that by (simp add: vi_ok_def)
  show ?thesis
    using assms(1)
  proof (cases rule: pstep.cases)
    case (frame r f c freed)
    then have rc: "recv_callback (Some f) (Some (cli s)) = (Some c, freed)" and t: "t = s\<lparr>cli := c\<rparr>" "a = Network f" by simp_all
    have "playback_queue c = playback_queue (cli s)" "pcm_decbuf c = pcm_decbuf (cli s)"
      using recv_all_queue [of "[f]" "cli s"] rc by (simp_all split: prod.splits)
    moreover have "stream_at exact dec buf0 d (frames @ payloads [f]) (os s) (in_flight (mic_pc s)) c (dec_state s)"
      using assms(3,4) t(2) by (intro stream_at_frame [OF _ rc]) (simp_all add: hearing_def)
    ultimately show ?thesis using assms(3) by (simp add: hearing_def whole_at_def t del: payloads_simps)
  next
    case (mic_silent buf n buf1 c x evs)
    with write_cb_fields [of dec buf "cli s" "dec_state s" n buf1 c x] buf [of buf] have "n = 0" by (simp split: if_splits)
    with hearing_callback [OF assms(3) mic_silent(3) buf [OF mic_silent(3)] mic_silent(4), of "os s @ [Iterate evs, Usleep]" "AtFlag buf1"] mic_silent
    show ?thesis by simp
  next
    case (mic_produced buf n buf1 c x produced)
    with write_cb_fields [of dec buf "cli s" "dec_state s" n buf1 c x] buf [of buf] have "produced = n" by simp
    with hearing_callback [OF assms(3) mic_produced(3) buf [OF mic_produced(3)] mic_produced(4), of "os s" "Writing buf1 0 n"] mic_produced
    show ?thesis by simp
  next
    case (mic_wrote buf offset n env offset1 h)
    with hearing_write_again [OF assms(3) mic_wrote(3)] show ?thesis by simp
  next
    case (mic_interrupted buf offset n env h)
    with hearing_write_again [OF assms(3) mic_interrupted(3) mic_interrupted(5)] show ?thesis
      by (simp add: hearing_def)
  next
    case (mic_written buf offset n env u b h)
    with hearing_write_left [OF assms(3) mic_written(3) wr [OF mic_written(3)] mic_written(5), of "AtFlag buf"] show ?thesis by simp
  next
    case (mic_write_fails buf offset n env err b h)
    with hearing_write_left [OF assms(3) mic_write_fails(3) wr [OF mic_write_fails(3)] mic_write_fails(5), of "Throwing err"] show ?thesis by simp
  qed (auto intro!: hearing_same [OF assms(3)] simp: same_queues_def quiet dest!: close_queues destroy_queues)
qed


section \<open>Every run\<close>

lemma constructed_empty:
  assumes "constructed pa cfg s h"
  shows "compressed_queue (conn_client s) = [] \<and> playback_queue (conn_client s) = [] \<and>
    pcm_decbuf (conn_client s) = replicate pcm_decbuf_size 0 \<and> fifo_writes h = []"
proof -
  from assms obtain b env shut strerr self tr where i: "backend_instance pa None [] = Some (Inr b, h)"
      and n: "new_client env shut 0 strerr self (local_ip cfg, local_port cfg) (remote_ip cfg, remote_port cfg)
          (connection cfg) tr b 0 = (Inr (), s)"
    unfolding constructed_def by blast
  let ?c0 = "(client_init (connection cfg))\<lparr>decoder_open := True, pcm_decbuf := replicate pcm_decbuf_size 0\<rparr>"
  let ?s1 = "\<lparr>conn_client = ?c0, conn_calls = tr, conn_audio = b, registered = True, polls = 0, slept = 0\<rparr>"
  obtain l r r2 s2 where c: "connect env shut l r self (unat (max_retries (connection cfg))) 1 ?s1 = (r2, s2)"
      and s: "conn_client s = (conn_client s2)\<lparr>thread_started := True\<rparr>"
    using n by (auto simp: new_client_def Let_def split: if_splits prod.splits sum.splits)
  have "same_queues ?c0 (conn_client s2)"
    by (rule connect_invariant [OF c, where P = "\<lambda>t. same_queues ?c0 (conn_client t)"])
      (auto simp: same_queues_def conn_set_error_def set_error_def split: prod.splits if_splits)
  moreover have "fifo_writes h = []"
    using i by (auto simp: backend_instance_def new_backend_def Let_def split: option.splits bool.splits)
  ultimately show ?thesis by (simp add: s same_queues_def client_init_def)
qed

lemma constructed_live:
  assumes "constructed pa cfg s h"
  shows "\<not> should_stop (conn_client s) \<and> healthy (conn_client s) \<and>
    (\<exists>r. client_rtp (conn_client s) = Some r \<and> is_initialised r)"
  using assms by (auto simp: constructed_def dest: new_client_Inr)

lemma constructed_hearing:
  assumes "constructed pa cfg s h"
  shows "hearing exact dec (replicate pcm_decbuf_size 0) d (arrived []) (process_start sd d s h)"
  using constructed_empty [OF assms] same_writes [of h "[]"]
  by (simp add: hearing_def stream_at_def whole_at_def process_start_def arrived_def pcm_decbuf_size_def exI [of _ "[]"])

text \<open>A run in which every frame that arrives finds room.\<close>

inductive lossless :: "'d opus_decoder \<Rightarrow> 'd process \<Rightarrow> actor list \<Rightarrow> 'd process \<Rightarrow> bool" for dec where
  lossless_nil: "lossless dec s [] s"
| lossless_snoc: "lossless dec s as t \<Longrightarrow> pstep dec a t u \<Longrightarrow> frames_of a = [] \<or> has_room (cli t) \<Longrightarrow> lossless dec s (as @ [a]) u"

lemma lossless_prun: "lossless dec s as t \<Longrightarrow> prun dec s as t"
  by (induction rule: lossless.induct) (auto intro: prun.intros)

lemma lossless_quiet:
  assumes "prun dec t bs u" and "lossless dec s as t" and "concat (map frames_of bs) = []"
  shows "lossless dec s (as @ bs) u"
  using assms
proof (induction arbitrary: rule: prun.induct)
  case (prun_nil t)
  then show ?case by simp
next
  case (prun_snoc t bs u a v)
  then have "lossless dec s ((as @ bs) @ [a]) v" by (intro lossless_snoc) simp_all
  then show ?case by simp
qed

lemma prun_hearing:
  assumes "prun dec (process_start sd d s h) as t" and "constructed pa cfg s h"
  shows "hearing False dec (replicate pcm_decbuf_size 0) d (arrived as) t"
  using assms(1)
proof (induction "process_start sd d s h" as t rule: prun.induct)
  case prun_nil
  then show ?case by (rule constructed_hearing [OF assms(2)])
next
  case (prun_snoc as t a u)
  obtain ss st where "vi_ok (fifo_path pa) t" by (rule prun_constructed [OF assms(2) prun_snoc.hyps(1)])
  from hearing_step [OF prun_snoc.hyps(3) this prun_snoc.hyps(2)] show ?case by (simp add: arrived_snoc)
qed

lemma lossless_hearing:
  assumes "lossless dec (process_start sd d s h) as t" and "constructed pa cfg s h"
  shows "hearing True dec (replicate pcm_decbuf_size 0) d (arrived as) t"
  using assms(1)
proof (induction "process_start sd d s h" as t rule: lossless.induct)
  case lossless_nil
  then show ?case by (rule constructed_hearing [OF assms(2)])
next
  case (lossless_snoc as t a u)
  obtain ss st where "vi_ok (fifo_path pa) t" by (rule prun_constructed [OF assms(2) lossless_prun [OF lossless_snoc.hyps(1)]])
  from hearing_step [OF lossless_snoc.hyps(3) this lossless_snoc.hyps(2)] lossless_snoc.hyps(4) show ?case by (simp add: arrived_snoc)
qed

lemma lossless_run_stream:
  assumes "constructed pa cfg s h" and "lossless dec (process_start sd d s h) as t" and "took_all (os t)"
  shows "accepted (os t) @ in_flight (mic_pc t) @ remaining dec (cli t) (dec_state t) =
    pcm_stream dec (replicate pcm_decbuf_size 0) d (arrived as)"
proof -
  from lossless_hearing [OF assms(2,1)] assms(3) obtain taken where t: "taken @ compressed_queue (cli t) = arrived as"
      "decode_run dec (replicate pcm_decbuf_size 0) d taken = (pcm_decbuf (cli t), dec_state t)"
      "accepted (os t) @ in_flight (mic_pc t) @ playback_queue (cli t) = pcm_stream dec (replicate pcm_decbuf_size 0) d taken"
    by (auto simp: hearing_def stream_at_def)
  have "accepted (os t) @ in_flight (mic_pc t) @ remaining dec (cli t) (dec_state t) =
      (accepted (os t) @ in_flight (mic_pc t) @ playback_queue (cli t)) @ pcm_stream dec (pcm_decbuf (cli t)) (dec_state t) (compressed_queue (cli t))"
    by (simp add: remaining_def)
  also have "\<dots> = pcm_stream dec (replicate pcm_decbuf_size 0) d (arrived as)"
    by (simp only: t(1) [symmetric] t(3) pcm_stream_append t(2) prod.case)
  finally show ?thesis .
qed

lemma prun_stream:
  assumes "constructed pa cfg s h" and "prun dec (process_start sd d s h) as t"
  shows "\<exists>kept. subseq kept (arrived as) \<and>
    subseq (accepted (os t)) (pcm_stream dec (replicate pcm_decbuf_size 0) d kept) \<and>
    (took_all (os t) \<longrightarrow> prefix (accepted (os t)) (pcm_stream dec (replicate pcm_decbuf_size 0) d kept)) \<and>
    (took_whole (os t) \<longrightarrow> 4 dvd length (accepted (os t)))"
proof -
  from prun_hearing [OF assms(2,1)] obtain kept where k: "subseq (kept @ compressed_queue (cli t)) (arrived as)"
      "subseq (accepted (os t) @ in_flight (mic_pc t) @ playback_queue (cli t)) (pcm_stream dec (replicate pcm_decbuf_size 0) d kept)"
      "took_all (os t) \<longrightarrow> accepted (os t) @ in_flight (mic_pc t) @ playback_queue (cli t) = pcm_stream dec (replicate pcm_decbuf_size 0) d kept"
      "took_whole (os t) \<longrightarrow> 4 dvd length (accepted (os t))"
    by (auto simp: hearing_def stream_at_def whole_at_def)
  have "subseq kept (arrived as)" "subseq (accepted (os t)) (pcm_stream dec (replicate pcm_decbuf_size 0) d kept)"
    using k(1,2) by (meson list_emb_appendD prefixI prefix_imp_subseq subseq_order.order_trans)+
  moreover have "prefix (accepted (os t)) (pcm_stream dec (replicate pcm_decbuf_size 0) d kept)" if "took_all (os t)"
    using k(3) that by (metis prefixI)
  ultimately show ?thesis using k(4) by blast
qed

section \<open>Property\<close>

text \<open>C10. What the microphone hears, under every interleaving. Let the threads of client mode run side by side
  in any way from the constructor of \<open>Client\<close> on, also past the end of the process. The bytes the
  FIFO has accepted are a subsequence of what some of the frames that arrived decode to, in order of
  arrival: nothing is invented, repeated or reordered by a race. If no write was refused they are a
  prefix of it, so that only whole frames are missing. And if the FIFO took every write whole or not at
  all, as a pipe does with the at most 3840 bytes of one buffer, they are whole stereo samples.\<close>

theorem process_stream:
  assumes "constructed pa cfg s h" and "prun dec (process_start sd d s h) as t"
  shows "\<exists>kept. subseq kept (arrived as) \<and>
    subseq (accepted (os t)) (pcm_stream dec (replicate pcm_decbuf_size 0) d kept) \<and>
    (took_all (os t) \<longrightarrow> prefix (accepted (os t)) (pcm_stream dec (replicate pcm_decbuf_size 0) d kept)) \<and>
    (took_whole (os t) \<longrightarrow> 4 dvd length (accepted (os t)))"
  by (rule prun_stream [OF assms])

text \<open>A frame arrives and is written to the FIFO.\<close>

definition small_frame :: "byte \<Rightarrow> rtp_frame" where
  "small_frame x = \<lparr>payload = Some [x], dgram_size = 13\<rparr>"

definition one_frame :: "byte \<Rightarrow> actor list" where
  "one_frame x = [Mic_Thread, Mic_Thread, Mic_Thread, Network (small_frame x), Mic_Thread, Mic_Thread, Mic_Thread, Mic_Thread]"

lemma one_frame_run:
  assumes "constructed pa cfg s h" and "conn_audio s = fresh_backend"
  obtains t where "prun toy_decoder (process_start shutdown_init 0 s h) (one_frame x) t" and "accepted (os t) = [x, 0, x, 0]"
    and "took_all (os t)" and "took_whole (os t)" and "lossless toy_decoder (process_start shutdown_init 0 s h) (one_frame x) t"
proof -
  let ?env = "sample_pa\<lparr>shutdown_seen := (\<lambda>h. False)\<rparr>"
  obtain s0 where s0: "s0 = process_start shutdown_init (0 :: nat) s h" by blast
  have start: "flag s0 = shutdown_init" "cli s0 = conn_client s" "dec_state s0 = 0" by (simp_all add: s0 process_start_def)
  obtain b h2 where opened: "prun toy_decoder s0 [Mic_Thread, Mic_Thread] (s0\<lparr>be := b, os := h2, mic_pc := Checking\<rparr>)"
      and ready: "is_virtual_input_ready b" and quiet_h2: "filter is_write h2 = filter is_write h"
    unfolding s0 by (rule opened_run [OF assms(2)])
  obtain s2 where s2: "s2 = s0\<lparr>be := b, os := h2, mic_pc := Checking\<rparr>" by blast
  let ?buf = "replicate 3840 0 :: byte list"
  obtain s3 where s3: "s3 = s2\<lparr>be := b\<lparr>playback := True\<rparr>, mic_pc := AtFlag ?buf\<rparr>" by blast
  obtain r where r: "client_rtp (conn_client s) = Some r" "is_initialised r" and c: "healthy (conn_client s)" "\<not> should_stop (conn_client s)"
    using constructed_live [OF assms(1)] by blast
  let ?c = "(conn_client s)\<lparr>compressed_queue := [[x]], frames_received := frames_received (conn_client s) + 1\<rparr>"
  have rc: "recv_callback (Some (small_frame x)) (Some (cli s3)) = (Some ?c, [small_frame x])"
    using constructed_empty [OF assms(1)] c
    by (simp add: s3 s2 start recv_callback_def small_frame_def enqueue_frame_def max_compressed_queue_frames_def)
  obtain s4 where s4: "s4 = s3\<lparr>cli := ?c\<rparr>" by blast
  obtain s5 where s5: "s5 = s4\<lparr>mic_pc := AtPoll ?buf\<rparr>" by blast
  obtain s6 where s6: "s6 = s5\<lparr>mic_pc := Calling ?buf\<rparr>" by blast
  note states = s2 s3 s4 s5 s6 start
  obtain n dst c1 d1 where w: "write_cb toy_decoder ?buf (?c, 0) = (n, dst, c1, d1)" by (metis surj_pair)
  have rem: "remaining toy_decoder ?c 0 = [x, 0, x, 0]"
    using constructed_empty [OF assms(1)] by (simp add: remaining_def toy_pcm pcm_decbuf_size_def del: pcm_stream.simps(2))
  have live: "\<not> should_stop ?c" "healthy ?c" using c by simp_all
  note wr = write_cb_remaining [OF w live, unfolded rem]
  have n4: "n = 4" using conjunct1 [OF wr] by simp
  have "take n dst = [x, 0, x, 0]" using conjunct1 [OF conjunct2 [OF wr]] by simp
  then have n: "n = 4" "take 4 dst = [x, 0, x, 0]" unfolding n4 by blast+
  from arg_cong [OF n(2), of length] have len: "4 \<le> length dst" by simp
  obtain s7 where s7: "s7 = s6\<lparr>cli := c1, dec_state := d1, mic_pc := Writing dst 0 4\<rparr>" by blast
  let ?h = "h2 @ [WriteFd (virtual_source_fd b) [x, 0, x, 0] (Inr 4)]"
  have round: "write_round ?env dst 0 4 (be s7) (os s7) = Inr (4, ?h)"
    using n(2) by (simp add: write_round_def s7 states Let_def sample_pa_def)
  obtain s8 where s8: "s8 = s7\<lparr>os := ?h, mic_pc := Writing dst 4 4\<rparr>" by blast
  have p3: "pstep toy_decoder Mic_Thread s2 s3" 
    using mic_ready [of s2 toy_decoder] ready by (simp add: s2 s3)
  have p4: "pstep toy_decoder (Network (small_frame x)) s3 s4"
    unfolding s4 by (rule pstep.frame [OF _ r(2) rc]) (simp add: s3 s2 start r(1))
  have p5: "pstep toy_decoder Mic_Thread s4 s5" unfolding s5 by (rule mic_on) (simp_all add: states)
  have p6: "pstep toy_decoder Mic_Thread s5 s6"
    unfolding s6 by (rule mic_go) (simp_all add: states shutdown_init_def is_shutdown_requested_def)
  have p7: "pstep toy_decoder Mic_Thread s6 s7"
    unfolding s7 by (rule mic_produced) (use w n len in \<open>auto simp: states\<close>)
  have p8: "pstep toy_decoder Mic_Thread s7 s8"
    unfolding s8 by (rule mic_wrote [OF _ _ round]) (simp_all add: s7 states flag_env_def shutdown_init_def is_shutdown_requested_def)
  have "prun toy_decoder s2 [Mic_Thread] s3" by (rule prun_Cons [OF _ p3], rule prun_nil)
  from prun_append [OF this opened [folded s2]] have "prun toy_decoder s0 [Mic_Thread, Mic_Thread, Mic_Thread] s3" by simp
  from lossless_quiet [OF this lossless_nil] have "lossless toy_decoder s0 [Mic_Thread, Mic_Thread, Mic_Thread] s3" by simp
  moreover have "has_room (cli s3)"
    using c constructed_empty [OF assms(1)] by (simp add: states has_room_def max_compressed_queue_frames_def)
  ultimately have l4: "lossless toy_decoder s0 ([Mic_Thread, Mic_Thread, Mic_Thread] @ [Network (small_frame x)]) s4"
    using p4 by (intro lossless_snoc) simp_all
  have "prun toy_decoder s4 [Mic_Thread, Mic_Thread, Mic_Thread, Mic_Thread] s8"
    by (rule prun_Cons [OF _ p5], rule prun_Cons [OF _ p6], rule prun_Cons [OF _ p7], rule prun_Cons [OF _ p8], rule prun_nil)
  from lossless_quiet [OF this l4] have lossless: "lossless toy_decoder s0 (one_frame x) s8" by (simp add: one_frame_def)
  then have run: "prun toy_decoder s0 (one_frame x) s8" by (rule lossless_prun)
  have "fifo_writes h2 = fifo_writes []" using quiet_h2 constructed_empty [OF assms(1)] by (simp add: fifo_writes_def)
  from same_writes [OF this] have "accepted (os s8) = [x, 0, x, 0]" "took_all (os s8)" "took_whole (os s8)"
    by (simp_all add: s8 trace_simps) (simp_all add: took_all_def took_whole_def)
  with run lossless show thesis using that by (simp add: s0)
qed


theorem process_stream_witness:
  "\<exists>s t. constructed sample_pa sample_config_record s [ContextConnect 0] \<and>
     prun toy_decoder (process_start shutdown_init 0 s [ContextConnect 0]) (one_frame 3) t \<and>
     accepted (os t) = [3, 0, 3, 0] \<and> arrived (one_frame 3) = [[3]] \<and>
     (\<exists>kept. subseq kept [[3]] \<and> prefix [3, 0, 3, 0] (pcm_stream toy_decoder (replicate pcm_decbuf_size 0) 0 kept))"
proof -
  obtain s where s: "constructed sample_pa sample_config_record s [ContextConnect 0]" "conn_audio s = fresh_backend"
    by (rule sample_constructed)
  obtain t where run: "prun toy_decoder (process_start shutdown_init 0 s [ContextConnect 0]) (one_frame 3) t"
      and t: "accepted (os t) = [3, 0, 3, 0]" "took_all (os t)"
    by (rule one_frame_run [OF s, where x = 3])
  have "arrived (one_frame 3) = [[3]]" by (simp add: arrived_def one_frame_def small_frame_def)
  with process_stream [OF s(1) run] s(1) run t show ?thesis by auto
qed

text \<open>C9. Nothing is lost on the way. If every frame that arrives finds the client running and room in its queue,
  and no write to the FIFO is refused, then at every moment, under every interleaving, what the FIFO has
  accepted, what is being written, and what the client still has to deliver are together exactly what all
  the frames that arrived decode to, in order.\<close>

theorem lossless_stream:
  assumes "constructed pa cfg s h" and "lossless dec (process_start sd d s h) as t" and "took_all (os t)"
  shows "accepted (os t) @ in_flight (mic_pc t) @ remaining dec (cli t) (dec_state t) =
    pcm_stream dec (replicate pcm_decbuf_size 0) d (arrived as)"
  by (rule lossless_run_stream [OF assms])

theorem lossless_stream_witness:
  "\<exists>s t. constructed sample_pa sample_config_record s [ContextConnect 0] \<and>
     lossless toy_decoder (process_start shutdown_init 0 s [ContextConnect 0]) (one_frame 5) t \<and>
     accepted (os t) = [5, 0, 5, 0] \<and>
     [5, 0, 5, 0] @ in_flight (mic_pc t) @ remaining toy_decoder (cli t) (dec_state t) =
       pcm_stream toy_decoder (replicate pcm_decbuf_size 0) 0 [[5]]"
proof -
  obtain s where s: "constructed sample_pa sample_config_record s [ContextConnect 0]" "conn_audio s = fresh_backend"
    by (rule sample_constructed)
  obtain t where run: "lossless toy_decoder (process_start shutdown_init 0 s [ContextConnect 0]) (one_frame 5) t"
      and t: "accepted (os t) = [5, 0, 5, 0]" "took_all (os t)"
    by (rule one_frame_run [OF s, where x = 5])
  have "arrived (one_frame 5) = [[5]]" by (simp add: arrived_def one_frame_def small_frame_def)
  with lossless_stream [OF s(1) run t(2)] t(1) s(1) run show ?thesis by (intro exI [of _ s] exI [of _ t]) simp
qed

end
