(* ===== verification/Client_Races.thy ===== *)
theory Client_Races
  imports Client_Stream
begin

text \<open>
  Who touches what while the threads of client mode run. The flags the threads share are atomics, the
  queues are guarded by \<open>playback_queue_mutex\<close>, the RTP object by its \<open>teardown_mutex\<close>; everything else
  relies on the order in which the threads start, stop and are joined. Each point of the code has the
  list of its accesses to memory that is not atomic. The lists are checked against the step relation
  (what is not written does not change), and compared under every interleaving.
\<close>

section \<open>Accesses\<close>

text \<open>Members of \<open>Client\<close> and of the backend; \<open>Virtual_Source\<close> are the descriptor, the module index and
  the path, \<open>Pulse_Mainloop\<close> libpulse's mainloop and context, which are not thread-safe.\<close>

datatype place = Opus_Decoder | Pcm_Buffer | Playback_Queue | Compressed_Queue | Rtp_Object | Last_Error
  | Virtual_Source | Input_Error | Pulse_Mainloop

datatype mutex = Queue_Mutex | Teardown_Mutex

record access =
  where_at :: place
  is_store :: bool
  locks :: "mutex list"

definition store :: "mutex list \<Rightarrow> place \<Rightarrow> access" where
  "store ms p = \<lparr>where_at = p, is_store = True, locks = ms\<rparr>"

definition load :: "mutex list \<Rightarrow> place \<Rightarrow> access" where
  "load ms p = \<lparr>where_at = p, is_store = False, locks = ms\<rparr>"

text \<open>The main thread: \<open>Rtp::stop\<close>, \<open>opus_decoder_destroy\<close>, the members of \<open>Client\<close> after the join, and the
  destructor of the backend.\<close>

fun main_accesses :: "main_at \<Rightarrow> access list" where
  "main_accesses Closing = [store [Teardown_Mutex] Rtp_Object]"
| "main_accesses Freeing = [store [] Opus_Decoder]"
| "main_accesses Joining = map (store []) [Opus_Decoder, Pcm_Buffer, Playback_Queue, Compressed_Queue, Rtp_Object, Last_Error]"
| "main_accesses Leaving = map (store []) [Virtual_Source, Input_Error, Pulse_Mainloop]"
| "main_accesses m = []"

text \<open>The microphone thread. While it is \<open>Calling\<close> the write callback may be anywhere in its loop, also
  when the flags have changed since it looked at them.\<close>

fun mic_accesses :: "mic_at \<Rightarrow> access list" where
  "mic_accesses Starting = map (store []) [Virtual_Source, Input_Error, Pulse_Mainloop]"
| "mic_accesses Opening = map (store []) [Virtual_Source, Input_Error, Pulse_Mainloop]"
| "mic_accesses Checking = [load [] Virtual_Source, store [] Input_Error]"
| "mic_accesses (Calling buf) = [store [Queue_Mutex] Playback_Queue, store [Queue_Mutex] Compressed_Queue,
     store [] Opus_Decoder, store [] Pcm_Buffer, store [] Pulse_Mainloop]"
| "mic_accesses (Writing buf offset n) = [load [] Virtual_Source, store [] Input_Error, store [] Pulse_Mainloop]"
| "mic_accesses (Failing what) = [store [] Last_Error]"
| "mic_accesses m = []"

text \<open>uvgRTP's thread, in \<open>recv_callback\<close>.\<close>

definition network_accesses :: "access list" where
  "network_accesses = [store [Queue_Mutex] Compressed_Queue]"

datatype thread = Main | Mic | Uvg | Handler

fun thread_of :: "actor \<Rightarrow> thread" where
  "thread_of Signal = Handler"
| "thread_of (Network f) = Uvg"
| "thread_of Idle_Poll = Main"
| "thread_of Main_Thread = Main"
| "thread_of Interrupted = Mic"
| "thread_of Mic_Thread = Mic"

definition accesses :: "thread \<Rightarrow> 'd process \<Rightarrow> access list" where
  "accesses th s = (case th of Main \<Rightarrow> main_accesses (main_pc s) | Mic \<Rightarrow> mic_accesses (mic_pc s)
     | Uvg \<Rightarrow> network_accesses | Handler \<Rightarrow> [])"

text \<open>Two accesses race if one of them writes and no mutex keeps them apart.\<close>

definition racing :: "access \<Rightarrow> access \<Rightarrow> bool" where
  "racing x y \<longleftrightarrow> where_at x = where_at y \<and> (is_store x \<or> is_store y) \<and> set (locks x) \<inter> set (locks y) = {}"

section \<open>The lists are right\<close>

fun same_at :: "place \<Rightarrow> 'd process \<Rightarrow> 'd process \<Rightarrow> bool" where
  "same_at Opus_Decoder s t \<longleftrightarrow> dec_state t = dec_state s \<and> decoder_open (cli t) = decoder_open (cli s)"
| "same_at Pcm_Buffer s t \<longleftrightarrow> pcm_decbuf (cli t) = pcm_decbuf (cli s)"
| "same_at Playback_Queue s t \<longleftrightarrow> playback_queue (cli t) = playback_queue (cli s)"
| "same_at Compressed_Queue s t \<longleftrightarrow> compressed_queue (cli t) = compressed_queue (cli s)"
| "same_at Rtp_Object s t \<longleftrightarrow> client_rtp (cli t) = client_rtp (cli s)"
| "same_at Last_Error s t \<longleftrightarrow> last_error (cli t) = last_error (cli s)"
| "same_at Virtual_Source s t \<longleftrightarrow> virtual_source_fd (be t) = virtual_source_fd (be s) \<and>
     virtual_source_mod_idx (be t) = virtual_source_mod_idx (be s) \<and> virtual_source_fifo_path (be t) = virtual_source_fifo_path (be s)"
| "same_at Input_Error s t \<longleftrightarrow> virtual_input_error (be t) = virtual_input_error (be s)"
| "same_at Pulse_Mainloop s t \<longleftrightarrow> filter (\<lambda>c. \<not> is_write c) (os t) = filter (\<lambda>c. \<not> is_write c) (os s)"

definition stores :: "access list \<Rightarrow> place set" where
  "stores xs = where_at ` set (filter is_store xs)"

lemma not_ready_stores:
  assumes "run_virtual_input 0 0 env (None :: unit write_callback option) (b, (), h) = Some (Inl err, b', (), h')"
  shows "virtual_source_fd b' = virtual_source_fd b" "virtual_source_mod_idx b' = virtual_source_mod_idx b"
    "virtual_source_fifo_path b' = virtual_source_fifo_path b" "h' = h"
  using assms by (auto simp: run_virtual_input_def run_loop.simps Let_def die_def split: if_splits)

lemma write_round_stores:
  "write_round env buf offset n b h = Inl (res, b', h') \<Longrightarrow> virtual_source_fd b' = virtual_source_fd b \<and>
     virtual_source_mod_idx b' = virtual_source_mod_idx b \<and> virtual_source_fifo_path b' = virtual_source_fifo_path b"
  by (auto simp: write_round_def Let_def die_def split: if_splits sum.splits)

lemma write_round_again_stores:
  "write_round env buf offset n b h = Inr (offset1, h') \<Longrightarrow> filter (\<lambda>c. \<not> is_write c) h' = filter (\<lambda>c. \<not> is_write c) h"
  by (elim write_round_again) simp

lemma recv_stores:
  "recv_callback (Some f) (Some c) = (Some c', freed) \<Longrightarrow> decoder_open c' = decoder_open c \<and> pcm_decbuf c' = pcm_decbuf c \<and>
     playback_queue c' = playback_queue c \<and> client_rtp c' = client_rtp c \<and> last_error c' = last_error c"
  by (auto simp: recv_callback_def enqueue_frame_def Let_def split: if_splits option.splits)

lemma write_cb_stores:
  "write_cb dec dst (c, d) = (n, dst', c', d') \<Longrightarrow> client_rtp c' = client_rtp c \<and> last_error c' = last_error c"
  by (drule write_cb_spec) (auto simp: pcm_frame_def)

lemma close_stores:
  "close_client_rtp (c, tr) = (c', tr') \<Longrightarrow> decoder_open c' = decoder_open c \<and> pcm_decbuf c' = pcm_decbuf c \<and>
     playback_queue c' = playback_queue c \<and> compressed_queue c' = compressed_queue c \<and> last_error c' = last_error c"
  by (auto simp: close_client_rtp_def split: option.splits prod.splits)

lemma load_pipe_source_path:
  "load_pipe_source env b h = Inl (res, b', h') \<Longrightarrow> virtual_source_fifo_path b' = virtual_source_fifo_path b"
  "load_pipe_source env b h = Inr (b', h') \<Longrightarrow> virtual_source_fifo_path b' = virtual_source_fifo_path b"
  by (auto simp: load_pipe_source_def Let_def die_def split: if_splits sum.splits option.splits)

lemmas what_is_stored = not_ready_stores write_round_stores write_round_again_stores recv_stores write_cb_stores close_stores

section \<open>Who can go on\<close>

text \<open>The join waits for the microphone thread, and no frame arrives once the stream is closed.\<close>

lemma join_waits:
  "pstep dec a s t \<Longrightarrow> thread_of a = Main \<Longrightarrow> main_pc s = Joining \<Longrightarrow> mic_pc s = Ended"
  by (cases rule: pstep.cases) auto

lemma frames_need_stream:
  "pstep dec a s t \<Longrightarrow> thread_of a = Uvg \<Longrightarrow> rtp_ok ss st calls s \<Longrightarrow> main_pc s \<in> {Polling, Stopping, Closing}"
  by (cases rule: pstep.cases) (auto simp: rtp_ok_def is_initialised_def split: if_splits)

lemma racing_sym: "racing x y = racing y x"
  by (simp add: racing_def eq_commute disj_commute Int_commute)

lemmas access_lists = accesses_def network_accesses_def racing_def store_def load_def

text \<open>What the lists alone leave.\<close>

lemma main_accesses_at:
  "x \<in> set (main_accesses m) \<Longrightarrow> m = Closing \<and> where_at x = Rtp_Object \<or> m = Freeing \<and> where_at x = Opus_Decoder \<or>
     m = Joining \<or> m = Leaving \<and> where_at x \<noteq> Compressed_Queue"
  by (cases m) (auto simp: store_def load_def)

lemma mic_accesses_at:
  "y \<in> set (mic_accesses k) \<Longrightarrow> k \<noteq> Ended \<and> where_at y \<noteq> Rtp_Object \<and> (where_at y = Opus_Decoder \<longrightarrow> (\<exists>buf. k = Calling buf)) \<and>
     (where_at y = Compressed_Queue \<longrightarrow> Queue_Mutex \<in> set (locks y))"
  by (cases k) (auto simp: store_def load_def)

lemma network_accesses_at:
  "z \<in> set network_accesses \<Longrightarrow> where_at z = Compressed_Queue \<and> Queue_Mutex \<in> set (locks z)"
  by (simp add: network_accesses_def store_def)

lemma racing_at: "racing x y \<Longrightarrow> where_at x = where_at y \<and> \<not> (Queue_Mutex \<in> set (locks x) \<and> Queue_Mutex \<in> set (locks y))"
  by (auto simp: racing_def)

lemma main_races:
  assumes "threads_ok s" and "rtp_ok ss st calls s" and "pstep dec a s t" and "pstep dec b s u"
    and "thread_of a = Main" and "thread_of b \<noteq> Main"
    and "x \<in> set (accesses (thread_of a) s)" and "y \<in> set (accesses (thread_of b) s)" and "racing x y"
  shows "where_at x = Opus_Decoder \<and> main_pc s = Freeing \<and> (\<exists>buf. mic_pc s = Calling buf) \<and> thread_of b = Mic"
proof (cases "thread_of b")
  case Mic
  with assms(5,7,8) have "x \<in> set (main_accesses (main_pc s))" "y \<in> set (mic_accesses (mic_pc s))"
    by (simp_all add: accesses_def)
  note at = main_accesses_at [OF this(1)] mic_accesses_at [OF this(2)] racing_at [OF assms(9)]
  have "main_pc s \<noteq> Joining" "main_pc s \<noteq> Leaving"
    using at(2) join_waits [OF assms(3,5)] assms(1) by (simp_all add: threads_ok_def) (metis)+
  with at Mic show ?thesis by auto
next
  case Uvg
  with assms(5,7,8) have "x \<in> set (main_accesses (main_pc s))" "y \<in> set network_accesses"
    by (simp_all add: accesses_def)
  with main_accesses_at [of x "main_pc s"] network_accesses_at [of y] racing_at [OF assms(9)] have "main_pc s = Joining" by auto
  with frames_need_stream [OF assms(4) Uvg assms(2)] show ?thesis by simp
qed (use assms(6,8) in \<open>simp_all add: accesses_def\<close>)

lemma no_other_races:
  assumes "th \<noteq> Main" and "th' \<noteq> Main" and "th \<noteq> th'"
    and "x \<in> set (accesses th s)" and "y \<in> set (accesses th' s)"
  shows "\<not> racing x y"
proof -
  consider "th = Handler" | "th' = Handler" | "th = Mic" "th' = Uvg" | "th = Uvg" "th' = Mic"
    using assms(1-3) by (cases th; cases th') auto
  then show ?thesis
  proof cases
    case 3
    with assms(4,5) mic_accesses_at [of x "mic_pc s"] network_accesses_at [of y] racing_at [of x y] show ?thesis
      by (auto simp: accesses_def)
  next
    case 4
    with assms(4,5) mic_accesses_at [of y "mic_pc s"] network_accesses_at [of x] racing_at [of x y] show ?thesis
      by (auto simp: accesses_def)
  qed (use assms(4,5) in \<open>simp_all add: accesses_def\<close>)
qed

section \<open>Properties\<close>


text \<open>C11. Data races of client mode. Let its threads interleave in any way from the constructor of
  \<open>Client\<close> on. Whenever two of them can go on, nothing that one accesses and the other writes is
  unprotected, with one exception: the main thread destroys the Opus decoder while the microphone thread may
  still be inside a write callback that it entered before the client was told to stop. The join protects
  the queues, the buffers and the backend, and closing the stream protects the frame queue from uvgRTP's
  thread, although no mutex does.\<close>

theorem process_races:
  assumes "constructed pa cfg s h" and "prun dec (process_start sd d s h) as t"
    and "pstep dec a t u" and "pstep dec b t v" and "thread_of a \<noteq> thread_of b"
    and "x \<in> set (accesses (thread_of a) t)" and "y \<in> set (accesses (thread_of b) t)" and "racing x y"
  shows "where_at x = Opus_Decoder \<and> main_pc t = Freeing \<and> (\<exists>buf. mic_pc t = Calling buf) \<and> should_stop (cli t) \<and>
    {thread_of a, thread_of b} = {Main, Mic}"
proof -
  obtain ss st where ok: "vi_ok (fifo_path pa) t" "threads_ok t" "rtp_ok ss st (conn_calls s) t"
    by (rule prun_constructed [OF assms(1,2)])
  consider "thread_of a = Main" | "thread_of b = Main" | "thread_of a \<noteq> Main" "thread_of b \<noteq> Main" by blast
  then show ?thesis
  proof cases
    case 1
    with main_races [OF ok(2,3) assms(3,4) _ _ assms(6,7,8)] assms(5) ok(2) show ?thesis
      by (auto simp: threads_ok_def)
  next
    case 2
    with main_races [OF ok(2,3) assms(4,3) _ _ assms(7,6)] assms(5,8) ok(2) show ?thesis
      by (auto simp: threads_ok_def racing_sym racing_def)
  next
    case 3
    with no_other_races [OF 3 assms(5-7)] assms(8) show ?thesis by simp
  qed
qed


text \<open>The microphone thread is inside a write callback when \<open>main\<close> shuts the client down.\<close>

definition caught_calling :: "actor list" where
  "caught_calling = replicate 5 Mic_Thread @ Signal # replicate 4 Main_Thread"

lemma caught_run:
  fixes dec :: "'d opus_decoder"
  assumes "conn_audio s = fresh_backend"
  obtains t where "prun dec (process_start shutdown_init d s h) caught_calling t" and "mic_pc t = Calling (replicate 3840 0)"
    and "main_pc t = Freeing" and "should_stop (cli t)"
proof -
  obtain s0 where s0: "s0 = process_start shutdown_init d s h" by blast
  have start: "main_pc s0 = Polling" "flag s0 = shutdown_init" by (simp_all add: s0 process_start_def)
  obtain b h2 where opened: "prun dec s0 [Mic_Thread, Mic_Thread] (s0\<lparr>be := b, os := h2, mic_pc := Checking\<rparr>)"
      and ready: "is_virtual_input_ready b"
    unfolding s0 by (rule opened_run [OF assms])
  obtain s2 where s2: "s2 = s0\<lparr>be := b, os := h2, mic_pc := Checking\<rparr>" by blast
  obtain s3 where s3: "s3 = s2\<lparr>be := (be s2)\<lparr>playback := True\<rparr>, mic_pc := AtFlag (replicate 3840 0)\<rparr>" by blast
  obtain s4 where s4: "s4 = s3\<lparr>mic_pc := AtPoll (replicate 3840 0)\<rparr>" by blast
  obtain s5 where s5: "s5 = s4\<lparr>mic_pc := Calling (replicate 3840 0)\<rparr>" by blast
  obtain s6 where s6: "s6 = s5\<lparr>flag := request_shutdown (flag s5)\<rparr>" by blast
  obtain s7 where s7: "s7 = s6\<lparr>main_pc := Stopping\<rparr>" by blast
  obtain s8 where s8: "s8 = s7\<lparr>cli := (cli s7)\<lparr>should_stop := True\<rparr>, main_pc := Closing\<rparr>" by blast
  obtain c9 tr9 where cl: "close_client_rtp (cli s8, uvg s8) = (c9, tr9)" by (metis surj_pair)
  obtain s9 where s9: "s9 = s8\<lparr>cli := c9, uvg := tr9, main_pc := Quieting\<rparr>" by blast
  obtain s10 where s10: "s10 = s9\<lparr>be := stop_recording (be s9), main_pc := Freeing\<rparr>" by blast
  note states = s2 s3 s4 s5 s6 s7 s8 s9 s10 start
  have p2: "pstep dec Mic_Thread s2 s3"
    unfolding s3 by (rule mic_ready) (use ready in \<open>simp_all add: states\<close>)
  have p3: "pstep dec Mic_Thread s3 s4" unfolding s4 by (rule mic_on) (simp_all add: states)
  have p4: "pstep dec Mic_Thread s4 s5"
    unfolding s5 by (rule mic_go) (simp_all add: states shutdown_init_def is_shutdown_requested_def)
  have p5: "pstep dec Signal s5 s6" unfolding s6 by (rule pstep.signal)
  have p6: "pstep dec Main_Thread s6 s7"
    unfolding s7 by (rule main_leave) (simp_all add: states request_shutdown_def is_shutdown_requested_def)
  have p7: "pstep dec Main_Thread s7 s8" unfolding s8 by (rule main_stop) (simp add: states)
  have p8: "pstep dec Main_Thread s8 s9" unfolding s9 by (rule main_close [OF _ cl]) (simp add: states)
  have p9: "pstep dec Main_Thread s9 s10" unfolding s10 by (rule main_quiet) (simp add: states)
  have "prun dec s2 [Mic_Thread, Mic_Thread, Mic_Thread, Signal, Main_Thread, Main_Thread, Main_Thread, Main_Thread] s10"
    by (rule prun_Cons [OF _ p2], rule prun_Cons [OF _ p3], rule prun_Cons [OF _ p4], rule prun_Cons [OF _ p5],
        rule prun_Cons [OF _ p6], rule prun_Cons [OF _ p7], rule prun_Cons [OF _ p8], rule prun_Cons [OF _ p9], rule prun_nil)
  from prun_append [OF this opened [folded s2]] have run: "prun dec s0 caught_calling s10"
    by (simp add: caught_calling_def numeral_eq_Suc)
  have "should_stop (cli s10)" using close_client_rtp_fields [OF cl] by (simp add: states)
  with run that show thesis by (simp add: s0 s10 s9 s8 s7 s6 s5)
qed


theorem process_races_witness:
  "\<exists>s t x y. prun toy_decoder (process_start shutdown_init 0 s [ContextConnect 0]) caught_calling t \<and>
     x \<in> set (accesses Main t) \<and> y \<in> set (accesses Mic t) \<and> racing x y \<and> where_at x = Opus_Decoder"
proof -
  obtain s where s: "constructed sample_pa sample_config_record s [ContextConnect 0]" "conn_audio s = fresh_backend"
    by (rule sample_constructed)
  obtain t where run: "prun toy_decoder (process_start shutdown_init 0 s [ContextConnect 0]) caught_calling t"
      and t: "mic_pc t = Calling (replicate 3840 0)" "main_pc t = Freeing" "should_stop (cli t)"
    by (rule caught_run [OF s(2)])
  let ?x = "store [] Opus_Decoder"
  have a: "pstep toy_decoder Main_Thread t (t\<lparr>cli := (cli t)\<lparr>decoder_open := False\<rparr>, main_pc := Joining\<rparr>)"
    by (rule main_free [OF t(2)])
  have "write_cb toy_decoder (replicate 3840 0) (cli t, dec_state t) = (0, replicate 3840 0, cli t, dec_state t)"
    using t(3) by (simp add: write_cb_def)
  from mic_silent [OF t(1) this] obtain u where b: "pstep toy_decoder Mic_Thread t u" by auto
  have r: "?x \<in> set (accesses (thread_of Main_Thread) t)" "?x \<in> set (accesses (thread_of Mic_Thread) t)" "racing ?x ?x"
    using t(1,2) by (simp_all add: accesses_def racing_def store_def)
  with process_races [OF s(1) run a b _ r] run show ?thesis by auto
qed

end
