(* ===== verification/Client_Alone.thy ===== *)
theory Client_Alone
  imports Client_Process Virtual_Mic
begin

text \<open>
  The sequential model of client mode in \<open>Virtual_Mic\<close> and \<open>Main_Prog\<close> against the interleavings of
  \<open>Client_Process\<close>: what the microphone thread does when it is run to its end is what its steps do, with
  the frames and the signal arriving where the environment of the sequential model says, and the end
  of \<open>main\<close> is what the steps of the main thread do.
\<close>

section \<open>Histories\<close>

text \<open>The outer loop of the sequential model also records what it reads of the flags.\<close>

fun is_poll :: "pa_call \<Rightarrow> bool" where
  "is_poll (PollShutdown x) \<longleftrightarrow> True"
| "is_poll (PollFlags x) \<longleftrightarrow> True"
| "is_poll c \<longleftrightarrow> False"

definition calls :: "history \<Rightarrow> history" where
  "calls h = filter (\<lambda>c. \<not> is_poll c) h"

lemma calls_simps [simp]:
  "calls [] = []" "calls (xs @ ys) = calls xs @ calls ys" "calls (c # cs) = (if is_poll c then calls cs else c # calls cs)"
  by (simp_all add: calls_def)

text \<open>The environment that answers after history \<open>k\<close> as \<open>env\<close> does after \<open>h\<close>, with the shutdown flag as given.\<close>

definition rebase :: "pa_env \<Rightarrow> history \<Rightarrow> history \<Rightarrow> bool \<Rightarrow> pa_env" where
  "rebase env h k fl = env\<lparr>shutdown_seen := (\<lambda>x. fl),
     iterate_events := (\<lambda>x. iterate_events env (h @ drop (length k) x)),
     module_list := (\<lambda>x. module_list env (h @ drop (length k) x)),
     load_result := (\<lambda>x. load_result env (h @ drop (length k) x)),
     unload_result := (\<lambda>x. unload_result env (h @ drop (length k) x)),
     mkfifo_result := (\<lambda>x. mkfifo_result env (h @ drop (length k) x)),
     open_result := (\<lambda>x. open_result env (h @ drop (length k) x)),
     write_result := (\<lambda>x. write_result env (h @ drop (length k) x)),
     errno_now := (\<lambda>x. errno_now env (h @ drop (length k) x))\<rparr>"

lemma rebase_simps [simp]:
  "shutdown_seen (rebase env h k fl) x = fl"
  "iterate_events (rebase env h k fl) x = iterate_events env (h @ drop (length k) x)"
  "module_list (rebase env h k fl) x = module_list env (h @ drop (length k) x)"
  "load_result (rebase env h k fl) x = load_result env (h @ drop (length k) x)"
  "unload_result (rebase env h k fl) x = unload_result env (h @ drop (length k) x)"
  "mkfifo_result (rebase env h k fl) x = mkfifo_result env (h @ drop (length k) x)"
  "open_result (rebase env h k fl) x = open_result env (h @ drop (length k) x)"
  "write_result (rebase env h k fl) x = write_result env (h @ drop (length k) x)"
  "errno_now (rebase env h k fl) x = errno_now env (h @ drop (length k) x)"
  "strerror (rebase env h k fl) e = strerror env e"
  by (simp_all add: rebase_def)

lemma rebase_loads: "load_completes env \<Longrightarrow> load_completes (rebase env h k fl)"
  by (simp add: load_completes_def)

lemma unload_stale_rebase:
  "\<exists>new. unload_stale env is (h @ x) = h @ x @ new \<and> unload_stale (rebase env h k fl) is (k @ x) = k @ x @ new"
proof (induction "is" arbitrary: x)
  case (Cons i "is")
  from Cons.IH [of "x @ [UnloadModule i (unload_result env (h @ x))]"] show ?case by auto
qed simp

lemma cleanup_rebase:
  "\<exists>new. cleanup_stale_virtual_sources env h = h @ new \<and> cleanup_stale_virtual_sources (rebase env h k fl) k = k @ new"
  using unload_stale_rebase [of env _ h "[ListModules (module_list env h)]" k fl]
  by (fastforce simp: cleanup_stale_virtual_sources_def Let_def)

lemma load_pipe_source_rebase:
  "load_pipe_source env b h = Inl (r, b1, h1) \<Longrightarrow>
     \<exists>new. h1 = h @ new \<and> load_pipe_source (rebase env h k fl) b k = Inl (r, b1, k @ new)"
  "load_pipe_source env b h = Inr (b1, h1) \<Longrightarrow>
     \<exists>new. h1 = h @ new \<and> load_pipe_source (rebase env h k fl) b k = Inr (b1, k @ new)"
proof -
  obtain new where n: "cleanup_stale_virtual_sources env h = h @ new" "cleanup_stale_virtual_sources (rebase env h k fl) k = k @ new"
    using cleanup_rebase by blast
  show "load_pipe_source env b h = Inl (r, b1, h1) \<Longrightarrow>
     \<exists>new. h1 = h @ new \<and> load_pipe_source (rebase env h k fl) b k = Inl (r, b1, k @ new)"
   "load_pipe_source env b h = Inr (b1, h1) \<Longrightarrow>
     \<exists>new. h1 = h @ new \<and> load_pipe_source (rebase env h k fl) b k = Inr (b1, k @ new)"
    by (auto simp: load_pipe_source_def n Let_def die_def split: if_splits sum.splits option.splits)
qed

lemma open_round_rebase:
  assumes "fl = shutdown_seen env (h @ [OpenFifo (virtual_source_fifo_path b) (open_result env h)])"
  shows "open_round env b h = Inl (r, b1, h1) \<Longrightarrow>
     \<exists>new. h1 = h @ new \<and> open_round (rebase env h k fl) b k = Inl (r, b1, k @ new)"
  and "open_round env b h = Inr (b1, h1) \<Longrightarrow>
     \<exists>new. h1 = h @ new \<and> open_round (rebase env h k fl) b k = Inr (b1, k @ new)"
  using assms
  by (auto simp: open_round_def Let_def die_def rollback_def split: if_splits sum.splits)

lemma write_round_rebase:
  assumes "bs = take (n - offset) (drop offset buf)"
    and "fl = shutdown_seen env (h @ [WriteFd (virtual_source_fd b) bs (write_result env h bs)])"
  shows "write_round env buf offset n b h = Inl (r, b1, h1) \<Longrightarrow>
     \<exists>new. h1 = h @ new \<and> write_round (rebase env h k fl) buf offset n b k = Inl (r, b1, k @ new)"
  and "write_round env buf offset n b h = Inr (offset1, h1) \<Longrightarrow>
     \<exists>new. h1 = h @ new \<and> write_round (rebase env h k fl) buf offset n b k = Inr (offset1, k @ new)"
  using assms
  by (auto simp: write_round_def Let_def die_def split: if_splits sum.splits)


section \<open>Where the steps lead\<close>

text \<open>Some steps of the threads other than the main thread lead to a state with property \<open>P\<close>.\<close>

definition leads :: "'d opus_decoder \<Rightarrow> 'd process \<Rightarrow> ('d process \<Rightarrow> bool) \<Rightarrow> bool" where
  "leads dec s P \<longleftrightarrow> (\<exists>as t. prun dec s as t \<and> Main_Thread \<notin> set as \<and> P t)"

lemma leads_here: "P s \<Longrightarrow> leads dec s P"
  unfolding leads_def by (rule exI [of _ "[]"]) (auto intro: prun_nil)

lemma leads_step: "pstep dec a s t \<Longrightarrow> a \<noteq> Main_Thread \<Longrightarrow> leads dec t P \<Longrightarrow> leads dec s P"
  unfolding leads_def by (elim exE conjE) (rule_tac x = "a # as" in exI, auto intro: prun_Cons)

lemma leads_mono: "leads dec s P \<Longrightarrow> (\<And>t. P t \<Longrightarrow> Q t) \<Longrightarrow> leads dec s Q"
  unfolding leads_def by blast

lemma leads_trans: "leads dec s Q \<Longrightarrow> (\<And>t. Q t \<Longrightarrow> leads dec t P) \<Longrightarrow> leads dec s P"
  unfolding leads_def by (metis prun_append set_append Un_iff)

text \<open>
  The state of the process agrees with that of the sequential model, whose history is \<open>h\<close>; the flag is
  set only if the environment says so.
\<close>

definition agrees :: "pa_env \<Rightarrow> main_at \<Rightarrow> uvg_call list \<Rightarrow> client \<Rightarrow> 'd \<Rightarrow> backend \<Rightarrow> history \<Rightarrow> mic_at
    \<Rightarrow> 'd process \<Rightarrow> bool" where
  "agrees env mp u c d b h m s \<longleftrightarrow> main_pc s = mp \<and> uvg s = u \<and> cli s = c \<and> dec_state s = d \<and> be s = b \<and>
     calls (os s) = calls h \<and> mic_pc s = m \<and> (is_shutdown_requested (flag s) \<longrightarrow> shutdown_seen env h)"

text \<open>A request stays, and no other thread calls \<open>stop_recording\<close>.\<close>

definition calm :: "pa_env \<Rightarrow> bool" where
  "calm env \<longleftrightarrow> (\<forall>h x. shutdown_seen env h \<longrightarrow> shutdown_seen env (h @ x)) \<and> (\<forall>h. \<not> stop_seen env h) \<and> load_completes env"

lemma calm_mono: "calm env \<Longrightarrow> shutdown_seen env h \<Longrightarrow> shutdown_seen env (h @ x)"
  by (simp add: calm_def)

text \<open>The signal comes before a round that sees it.\<close>

lemma leads_signal:
  assumes "is_shutdown_requested (flag s) \<longrightarrow> v"
    and "\<And>f. is_shutdown_requested f = v \<Longrightarrow> leads dec (s\<lparr>flag := f\<rparr>) P"
  shows "leads dec s P"
proof (cases "is_shutdown_requested (flag s) = v")
  case True
  from assms(2) [OF this] show ?thesis by simp
next
  case False
  with assms(1) have "is_shutdown_requested (request_shutdown (flag s)) = v"
    by (simp add: is_shutdown_requested_def request_shutdown_def)
  from leads_step [OF pstep.signal _ assms(2) [OF this]] show ?thesis by simp
qed

lemma open_round_reads:
  assumes "virtual_source_fd b < 0"
  shows "open_round env b h = Inl (r, b1, h1) \<Longrightarrow> \<exists>x. h1 = h @ OpenFifo (virtual_source_fifo_path b) (open_result env h) # x"
    "open_round env b h = Inr (b1, h1) \<Longrightarrow> virtual_source_fd b1 < 0 \<and>
       (\<exists>x. h1 = h @ OpenFifo (virtual_source_fifo_path b) (open_result env h) # x)"
  using assms by (auto simp: open_round_def Let_def die_def rollback_def split: if_splits sum.splits)

lemma open_round_leads:
  assumes "calm env" and "virtual_source_fd b < 0" and "agrees env mp u c d b h Opening s"
  shows "leads dec s (case open_round env b h of
      Inl (Inl err, b1, h1) \<Rightarrow> agrees env mp u c d b1 h1 (Throwing err)
    | Inl (Inr x, b1, h1) \<Rightarrow> agrees env mp u c d (b1\<lparr>virtual_source_loaded := True\<rparr>) h1 Checking
    | Inr (b1, h1) \<Rightarrow> agrees env mp u c d b1 h1 Opening)"
proof -
  let ?w = "OpenFifo (virtual_source_fifo_path b) (open_result env h)"
  let ?v = "shutdown_seen env (h @ [?w])"
  have later: "?v \<longrightarrow> shutdown_seen env (h @ ?w # x)" for x using calm_mono [OF assms(1), of "h @ [?w]" x] by simp
  show ?thesis
  proof (rule leads_signal [where v = ?v])
    show "is_shutdown_requested (flag s) \<longrightarrow> ?v" using assms(3) calm_mono [OF assms(1)] by (simp add: agrees_def)
    fix f
    assume f: "is_shutdown_requested f = ?v"
    let ?s = "s\<lparr>flag := f\<rparr>" and ?env = "rebase env h (os s) ?v"
    have s: "mic_pc ?s = Opening" "flag_env (flag ?s) ?env" "be ?s = b" "calls (os s) = calls h"
      using assms(3) f by (simp_all add: agrees_def flag_env_def)
    show "leads dec ?s (case open_round env b h of
        Inl (Inl err, b1, h1) \<Rightarrow> agrees env mp u c d b1 h1 (Throwing err)
      | Inl (Inr x, b1, h1) \<Rightarrow> agrees env mp u c d (b1\<lparr>virtual_source_loaded := True\<rparr>) h1 Checking
      | Inr (b1, h1) \<Rightarrow> agrees env mp u c d b1 h1 Opening)"
    proof (cases "open_round env b h")
      case (Inr p)
      obtain b1 h1 where p: "open_round env b h = Inr (b1, h1)" using Inr by (cases p) simp
      from open_round_rebase(2) [OF refl p, of "os s"] obtain new where
        n: "h1 = h @ new" "open_round ?env b (os s) = Inr (b1, os s @ new)" by blast
      have "pstep dec Mic_Thread ?s (?s\<lparr>be := b1, os := os s @ new\<rparr>)"
        by (rule mic_open_again [OF s(1,2)]) (use n(2) s(3) in simp)
      then show ?thesis
        using assms(3) f n(1) open_round_reads(2) [OF assms(2) p] later s(4) p
        by (intro leads_step [OF _ _ leads_here]) (auto simp: agrees_def)
    next
      case (Inl q)
      obtain res b1 h1 where q: "open_round env b h = Inl (res, b1, h1)" using Inl by (cases q) simp
      from open_round_rebase(1) [OF refl q, of "os s"] obtain new where
        n: "h1 = h @ new" "open_round ?env b (os s) = Inl (res, b1, os s @ new)" by blast
      have fl: "is_shutdown_requested f \<longrightarrow> shutdown_seen env h1" using f open_round_reads(1) [OF assms(2) q] later by auto
      have "pstep dec Mic_Thread ?s (case res of Inl err \<Rightarrow> ?s\<lparr>be := b1, os := os s @ new, mic_pc := Throwing err\<rparr>
          | Inr x \<Rightarrow> ?s\<lparr>be := b1\<lparr>virtual_source_loaded := True\<rparr>, os := os s @ new, mic_pc := Checking\<rparr>)"
        using n(2) s by (cases res) (auto intro: mic_open_fails [OF s(1,2)] mic_opened [OF s(1,2)])
      then show ?thesis
        using assms(3) fl n(1) s(4) q by (intro leads_step [OF _ _ leads_here]) (auto simp: agrees_def split: sum.split)
    qed
  qed
qed

lemma open_leads:
  assumes "calm env"
  shows "open_fifo fuel env b h = Some (res, b', h') \<Longrightarrow> virtual_source_fd b < 0 \<Longrightarrow> agrees env mp u c d b h Opening s \<Longrightarrow>
    leads dec s (case res of Inl err \<Rightarrow> agrees env mp u c d b' h' (Throwing err)
      | Inr x \<Rightarrow> agrees env mp u c d (b'\<lparr>virtual_source_loaded := True\<rparr>) h' Checking)"
proof (induction fuel arbitrary: b h s)
  case (Suc fuel)
  show ?case
  proof (rule leads_trans [OF open_round_leads [OF assms Suc.prems(2,3)]], goal_cases)
    case (1 t)
    show ?case
      using 1 Suc.prems(1) Suc.IH [of _ _ t] open_round_reads(2) [OF Suc.prems(2)]
      by (cases "open_round env b h") (auto simp: open_fifo.simps intro: leads_here split: sum.splits)
  qed
qed (simp add: open_fifo.simps)

text \<open>A round of the inner loop.\<close>

lemma write_round_leads:
  assumes "calm env" and "offset < n" and "agrees env mp u c d b h (Writing buf offset n) s"
  shows "leads dec s (case write_round env buf offset n b h of
      Inl (Inl err, b1, h1) \<Rightarrow> agrees env mp u c d b1 h1 (Throwing err)
    | Inl (Inr x, b1, h1) \<Rightarrow> agrees env mp u c d b1 h1 (AtFlag buf)
    | Inr (offset1, h1) \<Rightarrow> agrees env mp u c d b h1 (Writing buf offset1 n))"
    (is "leads dec s ?Q")
proof -
  let ?bs = "take (n - offset) (drop offset buf)"
  let ?w = "WriteFd (virtual_source_fd b) ?bs (write_result env h ?bs)"
  let ?v = "shutdown_seen env (h @ [?w])"
  have later: "?v \<longrightarrow> shutdown_seen env (h @ ?w # x)" for x using calm_mono [OF assms(1), of "h @ [?w]" x] by simp
  have reads: "write_round env buf offset n b h = Inl (r, b1, h1) \<Longrightarrow> \<exists>x. h1 = h @ ?w # x"
    "write_round env buf offset n b h = Inr (offset1, h1) \<Longrightarrow> \<exists>x. h1 = h @ ?w # x" for r b1 h1 offset1
    using assms(2) by (auto simp: write_round_def Let_def die_def split: if_splits sum.splits)
  show ?thesis
  proof (rule leads_signal [where v = ?v])
    show "is_shutdown_requested (flag s) \<longrightarrow> ?v" using assms(3) calm_mono [OF assms(1)] by (simp add: agrees_def)
    fix f
    assume f: "is_shutdown_requested f = ?v"
    let ?s = "s\<lparr>flag := f\<rparr>" and ?env = "rebase env h (os s) ?v"
    have s: "mic_pc ?s = Writing buf offset n" "flag_env (flag ?s) ?env" "be ?s = b" "calls (os s) = calls h"
      using assms(3) f by (simp_all add: agrees_def flag_env_def)
    show "leads dec ?s ?Q"
    proof (cases "write_round env buf offset n b h")
      case (Inr p)
      obtain offset1 h1 where p: "write_round env buf offset n b h = Inr (offset1, h1)" using Inr by (cases p) simp
      from write_round_rebase(2) [OF refl refl p, of "os s"] obtain new where
        n: "h1 = h @ new" "write_round ?env buf offset n b (os s) = Inr (offset1, os s @ new)" by blast
      let ?t = "if offset1 = offset then ?s\<lparr>os := os s @ new\<rparr> else ?s\<lparr>os := os s @ new, mic_pc := Writing buf offset1 n\<rparr>"
      have "pstep dec (if offset1 = offset then Interrupted else Mic_Thread) ?s ?t"
        using n(2) s(1,3) by (auto intro: mic_wrote [OF s(1,2)] mic_interrupted [OF s(1,2)])
      moreover have "is_shutdown_requested f \<longrightarrow> shutdown_seen env h1" using f reads(2) [OF p] later by auto
      then have "agrees env mp u c d b h1 (Writing buf offset1 n) ?t"
        using assms(3) n(1) s(4) by (simp add: agrees_def)
      moreover have "(if offset1 = offset then Interrupted else Mic_Thread) \<noteq> Main_Thread" by (cases "offset1 = offset") simp_all
      ultimately have "leads dec ?s (agrees env mp u c d b h1 (Writing buf offset1 n))" by (blast intro: leads_step leads_here)
      then show ?thesis by (simp add: p)
    next
      case (Inl q)
      obtain res b1 h1 where q: "write_round env buf offset n b h = Inl (res, b1, h1)" using Inl by (cases q) simp
      from write_round_rebase(1) [OF refl refl q, of "os s"] obtain new where
        n: "h1 = h @ new" "write_round ?env buf offset n b (os s) = Inl (res, b1, os s @ new)" by blast
      have fl: "is_shutdown_requested f \<longrightarrow> shutdown_seen env h1" using f reads(1) [OF q] later by auto
      have "pstep dec Mic_Thread ?s (?s\<lparr>be := b1, os := os s @ new, mic_pc := (case res of Inl err \<Rightarrow> Throwing err | Inr x \<Rightarrow> AtFlag buf)\<rparr>)"
        using n(2) s by (cases res) (auto intro: mic_write_fails [OF s(1,2)] mic_written [OF s(1,2)])
      then show ?thesis
        using assms(3) fl n(1) s(4) q by (intro leads_step [OF _ _ leads_here]) (auto simp: agrees_def split: sum.split)
    qed
  qed
qed

lemma write_done_leads:
  assumes "\<not> offset < n" and "agrees env mp u c d b h (Writing buf offset n) s"
  shows "leads dec s (agrees env mp u c d b h (AtFlag buf))"
proof -
  have "write_round e buf offset n b x = Inl (Inr (), b, x)" for e x using assms(1) by (simp add: write_round_def)
  then have "pstep dec Mic_Thread s (s\<lparr>be := b, os := os s, mic_pc := AtFlag buf\<rparr>)"
    using assms(2) by (intro mic_written [where env = "rebase env h (os s) (is_shutdown_requested (flag s))"])
      (simp_all add: agrees_def flag_env_def)
  then show ?thesis using assms(2) by (intro leads_step [OF _ _ leads_here]) (auto simp: agrees_def)
qed

lemma write_leads:
  assumes "calm env"
  shows "write_pending fuel env buf offset n b h = Some (res, b', h') \<Longrightarrow> agrees env mp u c d b h (Writing buf offset n) s \<Longrightarrow>
    leads dec s (case res of Inl err \<Rightarrow> agrees env mp u c d b' h' (Throwing err)
      | Inr x \<Rightarrow> agrees env mp u c d b' h' (AtFlag buf))"
proof (induction fuel arbitrary: offset h s)
  case (Suc fuel)
  show ?case
  proof (cases "offset < n")
    case False
    with Suc.prems(1) have "res = Inr () \<and> b' = b \<and> h' = h" by (auto simp: write_pending.simps write_round_def)
    with write_done_leads [OF False Suc.prems(2)] show ?thesis by simp
  next
    case True
    show ?thesis
    proof (rule leads_trans [OF write_round_leads [OF assms True Suc.prems(2)]], goal_cases)
      case (1 t)
      show ?case
        using 1 Suc.prems(1) Suc.IH [of _ _ t]
        by (cases "write_round env buf offset n b h") (auto simp: write_pending.simps intro: leads_here split: sum.splits)
    qed
  qed
qed (simp add: write_pending.simps)


text \<open>The frames of one batch arrive.\<close>

lemma frames_lead:
  "agrees env mp u c d b h m s \<Longrightarrow> client_rtp c = Some r \<Longrightarrow> is_initialised r \<Longrightarrow>
     leads dec s (agrees env mp u (fst (recv_all fs c)) d b h m)"
proof (induction fs arbitrary: c s)
  case (Cons f fs)
  obtain c1 freed where cb: "recv_callback (Some f) (Some c) = (Some c1, freed)" and rtp: "client_rtp c1 = client_rtp c"
    using recv_callback_flags [of f c] by (metis surj_pair)
  have "pstep dec (Network f) s (s\<lparr>cli := c1\<rparr>)"
    using Cons.prems cb by (intro pstep.frame [OF _ Cons.prems(3)]) (simp_all add: agrees_def)
  moreover have "agrees env mp u c1 d b h m (s\<lparr>cli := c1\<rparr>)" using Cons.prems(1) by (simp add: agrees_def)
  from Cons.IH [OF this _ Cons.prems(3)] have "leads dec (s\<lparr>cli := c1\<rparr>) (agrees env mp u (fst (recv_all fs c1)) d b h m)"
    using Cons.prems(2) rtp by simp
  ultimately have "leads dec s (agrees env mp u (fst (recv_all fs c1)) d b h m)" using leads_step by blast
  then show ?case using cb by (cases "recv_all fs c1") simp
qed (auto intro: leads_here)

text \<open>A call of the write callback, with the frames before it.\<close>

lemma callback_leads:
  assumes "calm env" and "live_cb dec buf (c, d, arr, lost) = (n, buf1, c2, d2, x2)" and "client_rtp c = Some r" and "is_initialised r"
    and "agrees env mp u c d b h (Calling buf) s" and "p = (if n > length buf1 then length buf1 else n)"
  shows "leads dec s (if p = 0 then agrees env mp u c2 d2 b (h @ [Iterate (iterate_events env h), Usleep]) (AtFlag buf1)
    else agrees env mp u c2 d2 b h (Writing buf1 0 p))"
proof (rule leads_trans [OF frames_lead [OF assms(5,3,4), of dec "next_batch arr"]])
  have w: "write_cb dec buf (fst (recv_all (next_batch arr) c), d) = (n, buf1, c2, d2)"
    using assms(2) by (auto simp: live_cb_def Let_def split: prod.splits)
  fix t
  assume t: "agrees env mp u (fst (recv_all (next_batch arr) c)) d b h (Calling buf) t"
  with w have wt: "mic_pc t = Calling buf" "write_cb dec buf (cli t, dec_state t) = (n, buf1, c2, d2)"
    by (simp_all add: agrees_def)
  show "leads dec t (if p = 0 then agrees env mp u c2 d2 b (h @ [Iterate (iterate_events env h), Usleep]) (AtFlag buf1)
    else agrees env mp u c2 d2 b h (Writing buf1 0 p))"
  proof (cases "p = 0")
    case True
    have "agrees env mp u c2 d2 b (h @ [Iterate (iterate_events env h), Usleep]) (AtFlag buf1)
        (t\<lparr>cli := c2, dec_state := d2, os := os t @ [Iterate (iterate_events env h), Usleep], mic_pc := AtFlag buf1\<rparr>)"
      using t calm_mono [OF assms(1), of h] by (auto simp: agrees_def)
    with True leads_step [OF mic_silent [OF wt] _ leads_here] assms(6) show ?thesis by simp
  next
    case False
    have "agrees env mp u c2 d2 b h (Writing buf1 0 p) (t\<lparr>cli := c2, dec_state := d2, mic_pc := Writing buf1 0 p\<rparr>)"
      using t by (simp add: agrees_def)
    with False leads_step [OF mic_produced [OF wt assms(6) False] _ leads_here] show ?thesis by simp
  qed
qed

text \<open>What the outer loop reads of the flags. \<open>h0\<close> is the history after both are read.\<close>

lemma poll_leads:
  assumes "calm env" and "agrees env mp u c d b h (AtFlag buf) s" and "h0 = h @ [PollFlags False]"
    and "h1 = h0 @ [PollShutdown (shutdown_seen env h0)]"
  shows "leads dec s (if \<not> playback b then agrees env mp u c d b h0 Ended
    else if shutdown_seen env h0 then agrees env mp u c d (b\<lparr>playback := False\<rparr>) h1 Ended
    else agrees env mp u c d b h1 (Calling buf))" (is "leads dec s ?Q")
proof (cases "playback b")
  case False
  with assms(2) have "pstep dec Mic_Thread s (s\<lparr>mic_pc := Ended\<rparr>)" by (intro mic_off) (simp_all add: agrees_def)
  moreover have "agrees env mp u c d b h0 Ended (s\<lparr>mic_pc := Ended\<rparr>)"
    using assms(2) calm_mono [OF assms(1), of h] by (auto simp: agrees_def assms(3))
  ultimately show ?thesis using False by (auto intro: leads_step leads_here)
next
  case True
  let ?s = "s\<lparr>mic_pc := AtPoll buf\<rparr>"
  have on: "pstep dec Mic_Thread s ?s" using assms(2) True by (intro mic_on) (simp_all add: agrees_def)
  have h0: "is_shutdown_requested (flag s) \<longrightarrow> shutdown_seen env h0"
    using assms(2) calm_mono [OF assms(1), of h] by (simp add: agrees_def assms(3))
  have "leads dec ?s ?Q"
  proof (rule leads_signal [where v = "shutdown_seen env h0"])
    show "is_shutdown_requested (flag ?s) \<longrightarrow> shutdown_seen env h0" using h0 by simp
    fix f
    assume f: "is_shutdown_requested f = shutdown_seen env h0"
    show "leads dec (?s\<lparr>flag := f\<rparr>) ?Q"
    proof (cases "shutdown_seen env h0")
      case sh: True
      have "pstep dec Mic_Thread (?s\<lparr>flag := f\<rparr>) (?s\<lparr>flag := f, be := b\<lparr>playback := False\<rparr>, mic_pc := Ended\<rparr>)"
        using mic_shutdown [of "?s\<lparr>flag := f\<rparr>" buf dec] f sh assms(2) by (simp add: agrees_def)
      moreover have "agrees env mp u c d (b\<lparr>playback := False\<rparr>) h1 Ended (?s\<lparr>flag := f, be := b\<lparr>playback := False\<rparr>, mic_pc := Ended\<rparr>)"
        using assms(2) calm_mono [OF assms(1) sh] by (simp add: agrees_def assms(3,4))
      ultimately show ?thesis using True sh by (auto intro: leads_step leads_here)
    next
      case False
      have "pstep dec Mic_Thread (?s\<lparr>flag := f\<rparr>) (?s\<lparr>flag := f, mic_pc := Calling buf\<rparr>)"
        using mic_go [of "?s\<lparr>flag := f\<rparr>" buf dec] f False by simp
      moreover have "agrees env mp u c d b h1 (Calling buf) (?s\<lparr>flag := f, mic_pc := Calling buf\<rparr>)"
        using assms(2) f False by (simp add: agrees_def assms(3,4))
      ultimately show ?thesis using True False by (auto intro: leads_step leads_here)
    qed
  qed
  then show ?thesis using leads_step [OF on] by simp
qed


lemma run_leads:
  assumes "calm env" and "is_initialised r"
  shows "run_loop fuel wfuel env (Some (no_throw (live_cb dec))) buf (b, (c, d, arr, lost), h) = Some (res, b', (c', d', x'), h') \<Longrightarrow>
    agrees env mp u c d b h (AtFlag buf) s \<Longrightarrow> client_rtp c = Some r \<Longrightarrow>
    leads dec s (agrees env mp u c' d' b' h' (case res of Inl err \<Rightarrow> Throwing err | Inr x \<Rightarrow> Ended))"
proof (induction fuel arbitrary: buf b c d arr lost h s)
  case (Suc fuel)
  obtain h0 where h0: "h0 = h @ [PollFlags False]" by blast
  obtain h1 where h1: "h1 = h0 @ [PollShutdown (shutdown_seen env h0)]" by blast
  obtain n buf1 c2 d2 arr2 lost2 where cb: "live_cb dec buf (c, d, arr, lost) = (n, buf1, c2, d2, arr2, lost2)" by (metis surj_pair)
  have rtp: "client_rtp c2 = Some r" using live_cb_flags [OF cb] Suc.prems(3) by simp
  obtain p where p: "p = (if n > length buf1 then length buf1 else n)" by blast
  have "stop_seen env h = False" using assms(1) by (simp add: calm_def)
  then have run: "(if \<not> playback b then Some (Inr (), b, (c, d, arr, lost), h0)
      else if shutdown_seen env h0 then Some (Inr (), b\<lparr>playback := False\<rparr>, (c, d, arr, lost), h1)
      else if p = 0 then run_loop fuel wfuel env (Some (no_throw (live_cb dec))) buf1 (b, (c2, d2, arr2, lost2), h1 @ [Iterate (iterate_events env h1), Usleep])
      else case write_pending wfuel env buf1 0 p b h1 of
          None \<Rightarrow> None
        | Some (Inl err, b1, tr2) \<Rightarrow> Some (Inl err, b1, (c2, d2, arr2, lost2), tr2)
        | Some (Inr u, b1, tr2) \<Rightarrow> run_loop fuel wfuel env (Some (no_throw (live_cb dec))) buf1 (b1, (c2, d2, arr2, lost2), tr2)) =
      Some (res, b', (c', d', x'), h')"
    using Suc.prems(1) by (simp only: run_loop.simps(2) Let_def if_False option.case no_throw_def cb prod.case sum.case h0 h1 p)
  show ?case (is "leads dec s ?Q")
  proof (rule leads_trans [OF poll_leads [OF assms(1) Suc.prems(2) h0 h1]])
    fix t
    assume t: "(if \<not> playback b then agrees env mp u c d b h0 Ended
      else if shutdown_seen env h0 then agrees env mp u c d (b\<lparr>playback := False\<rparr>) h1 Ended
      else agrees env mp u c d b h1 (Calling buf)) t"
    show "leads dec t ?Q"
    proof (cases "playback b \<and> \<not> shutdown_seen env h0")
      case False
      with t run show ?thesis by (auto intro: leads_here split: if_splits)
    next
      case True
      with t have "agrees env mp u c d b h1 (Calling buf) t" by simp
      from callback_leads [OF assms(1) cb Suc.prems(3) assms(2) this p] show ?thesis
      proof (rule leads_trans)
        fix v
        assume v: "(if p = 0 then agrees env mp u c2 d2 b (h1 @ [Iterate (iterate_events env h1), Usleep]) (AtFlag buf1)
          else agrees env mp u c2 d2 b h1 (Writing buf1 0 p)) v"
        show "leads dec v ?Q"
        proof (cases "p = 0")
          case True
          with v run \<open>playback b \<and> \<not> shutdown_seen env h0\<close> show ?thesis by (auto intro: Suc.IH [OF _ _ rtp])
        next
          case False
          then obtain r1 b1 tr2 where wp: "write_pending wfuel env buf1 0 p b h1 = Some (r1, b1, tr2)"
            using run True by (auto split: option.splits)
          have "agrees env mp u c2 d2 b h1 (Writing buf1 0 p) v" using v False by simp
          from write_leads [OF assms(1) wp this] show ?thesis
            by (rule leads_trans) (use run True False wp in \<open>cases r1; auto intro: leads_here Suc.IH [OF _ _ rtp]\<close>)
        qed
      qed
    qed
  qed
qed (simp add: run_loop.simps)

section \<open>The thread of the virtual microphone\<close>

lemma setup_leads:
  assumes "calm env" and "setup_virtual_input fuel env b h = Some (res, b', h')" and "virtual_source_loaded b \<or> virtual_source_fd b < 0"
    and "agrees env mp u c d b h Starting s"
  shows "leads dec s (agrees env mp u c d b' h' (case res of Inl err \<Rightarrow> Throwing err | Inr x \<Rightarrow> Checking))"
proof (cases "virtual_source_loaded b")
  case True
  with assms(2) have "res = Inr ()" "b' = b" "h' = h" by (simp_all add: setup_virtual_input_def)
  moreover have "pstep dec Mic_Thread s (s\<lparr>mic_pc := Checking\<rparr>)" using assms(4) True by (intro mic_loaded) (simp_all add: agrees_def)
  ultimately show ?thesis using assms(4) by (intro leads_step [OF _ _ leads_here]) (auto simp: agrees_def)
next
  case False
  let ?env = "rebase env h (os s) False"
  have s: "mic_pc s = Starting" "\<not> virtual_source_loaded (be s)" "load_completes ?env" "be s = b"
    using assms(1,4) False by (simp_all add: agrees_def calm_def rebase_loads)
  have keeps: "load_pipe_source env b h = Inl (r, b1, h1) \<Longrightarrow> \<exists>err. r = Inl err"
    "load_pipe_source env b h = Inr (b1, h1) \<Longrightarrow> virtual_source_fd b1 = virtual_source_fd b" for r b1 h1
    by (auto simp: load_pipe_source_def Let_def die_def split: if_splits sum.splits option.splits)
  show ?thesis
  proof (cases "load_pipe_source env b h")
    case (Inl q)
    then have q: "load_pipe_source env b h = Inl (res, b', h')" using assms(2) False by (simp add: setup_virtual_input_def)
    with keeps(1) obtain err where err: "res = Inl err" by blast
    from load_pipe_source_rebase(1) [OF q, of "os s" False] obtain new where
      n: "h' = h @ new" "load_pipe_source ?env b (os s) = Inl (Inl err, b', os s @ new)" unfolding err by blast
    have "pstep dec Mic_Thread s (s\<lparr>be := b', os := os s @ new, mic_pc := Throwing err\<rparr>)"
      by (rule mic_load_fails [OF s(1-3)]) (use n(2) s(4) in simp)
    then show ?thesis
      using assms(4) n(1) err calm_mono [OF assms(1), of h new] by (intro leads_step [OF _ _ leads_here]) (auto simp: agrees_def)
  next
    case (Inr q)
    obtain b1 h1 where q: "load_pipe_source env b h = Inr (b1, h1)" using Inr by (cases q) simp
    from load_pipe_source_rebase(2) [OF q, of "os s" False] obtain new where
      n: "h1 = h @ new" "load_pipe_source ?env b (os s) = Inr (b1, os s @ new)" by blast
    have step: "pstep dec Mic_Thread s (s\<lparr>be := b1, os := os s @ new, mic_pc := Opening\<rparr>)"
      by (rule mic_load [OF s(1-3)]) (use n(2) s(4) in simp)
    have ag: "agrees env mp u c d b1 h1 Opening (s\<lparr>be := b1, os := os s @ new, mic_pc := Opening\<rparr>)"
      using assms(4) n(1) calm_mono [OF assms(1), of h new] by (auto simp: agrees_def)
    obtain x b3 where op: "open_fifo fuel env b1 h1 = Some (x, b3, h')"
        and r: "res = x" "b' = (case x of Inl err \<Rightarrow> b3 | Inr v \<Rightarrow> b3\<lparr>virtual_source_loaded := True\<rparr>)"
      using assms(2) False q by (auto simp: setup_virtual_input_def split: option.splits sum.splits)
    have "virtual_source_fd b1 < 0" using keeps(2) [OF q] assms(3) False by simp
    from open_leads [OF assms(1) op this ag, of dec] r
    have "leads dec (s\<lparr>be := b1, os := os s @ new, mic_pc := Opening\<rparr>) (agrees env mp u c d b' h' (case res of Inl err \<Rightarrow> Throwing err | Inr x \<Rightarrow> Checking))"
      by (cases x) simp_all
    from leads_step [OF step _ this] show ?thesis by simp
  qed
qed

lemma running_leads:
  assumes "calm env" and "run_virtual_input fuel wfuel env (Some (no_throw (live_cb dec))) (b, (c, d, arr, lost), h) = Some (res, b', (c', d', x'), h')"
    and "agrees env mp u c d b h Checking s" and "client_rtp c = Some r" and "is_initialised r"
  shows "leads dec s (agrees env mp u c' d' b' h' (case res of Inl err \<Rightarrow> Throwing err | Inr x \<Rightarrow> Ended))"
proof (cases "is_virtual_input_ready b")
  case True
  then have run: "run_loop fuel wfuel env (Some (no_throw (live_cb dec))) (replicate 3840 0) (b\<lparr>playback := True\<rparr>, (c, d, arr, lost), h) =
      Some (res, b', (c', d', x'), h')" using assms(2) by (simp add: run_virtual_input_def is_virtual_input_ready_def)
  have "pstep dec Mic_Thread s (s\<lparr>be := b\<lparr>playback := True\<rparr>, mic_pc := AtFlag (replicate 3840 0)\<rparr>)"
    using mic_ready [of s dec] assms(3) True by (simp add: agrees_def)
  moreover have "agrees env mp u c d (b\<lparr>playback := True\<rparr>) h (AtFlag (replicate 3840 0))
      (s\<lparr>be := b\<lparr>playback := True\<rparr>, mic_pc := AtFlag (replicate 3840 0)\<rparr>)" using assms(3) by (simp add: agrees_def)
  ultimately show ?thesis using leads_step run_leads [OF assms(1,5) run _ assms(4)] by blast
next
  case False
  obtain err where r: "res = Inl err" "(c', d', x') = (c, d, arr, lost)" "h' = h"
      and nr: "run_virtual_input 0 0 env (None :: unit write_callback option) (b, (), k) = Some (Inl err, b', (), k)" for k
    using assms(2) False by (auto simp: run_virtual_input_def is_virtual_input_ready_def Let_def die_def)
  have "pstep dec Mic_Thread s (s\<lparr>be := b', os := os s, mic_pc := Throwing err\<rparr>)"
    by (rule mic_not_ready) (use assms(3) nr in \<open>simp_all add: agrees_def\<close>)
  then show ?thesis using assms(3) r by (intro leads_step [OF _ _ leads_here]) (auto simp: agrees_def)
qed


text \<open>An exception of the virtual input is reported with \<open>set_error\<close>.\<close>

lemma throwing_leads:
  assumes "calm env" and "agrees env mp u c d b h (Throwing what) s"
    and "set_error (''Could not create virtual input, reason: '' @ what) (c, b) = (c', b')"
  shows "leads dec s (agrees env mp u c' d b' h Ended)"
proof (cases "healthy c")
  case False
  then have "pstep dec Mic_Thread s (s\<lparr>mic_pc := Ended\<rparr>)" "c' = c" "b' = b"
    using assms(2,3) mic_error_again [of s what dec] by (simp_all add: agrees_def set_error_def)
  then show ?thesis using assms(2) by (intro leads_step [OF _ _ leads_here]) (auto simp: agrees_def)
next
  case True
  let ?s = "s\<lparr>cli := c\<lparr>healthy := False\<rparr>, mic_pc := Failing what\<rparr>"
  have p1: "pstep dec Mic_Thread s ?s" using assms(2) True mic_unhealthy [of s what dec] by (simp add: agrees_def)
  have p2: "pstep dec Mic_Thread ?s (?s\<lparr>cli := c', be := b', mic_pc := Ended\<rparr>)"
    using mic_report [of ?s what dec] assms(2,3) True by (simp add: agrees_def set_error_def)
  have "agrees env mp u c' d b' h Ended (?s\<lparr>cli := c', be := b', mic_pc := Ended\<rparr>)"
    using assms(2) by (simp add: agrees_def)
  from leads_step [OF p1 _ leads_step [OF p2 _ leads_here [of "agrees env mp u c' d b' h Ended", OF this]]]
  show ?thesis by simp
qed

lemma thread_leads:
  assumes "calm env" and "call_virtual_input_setup fuel wfuel env dec ((c, d, arr, lost), b, h) = Some ((c', d', x'), b', h')"
    and "virtual_source_loaded b \<or> virtual_source_fd b < 0" and "client_rtp c = Some r" and "is_initialised r"
    and "agrees env mp u c d b h Starting s"
  shows "leads dec s (agrees env mp u c' d' b' h' Ended)"
proof -
  let ?cb = "Some (no_throw (live_cb dec))"
  obtain r1 b1 h1 where su: "setup_virtual_input fuel env b h = Some (r1, b1, h1)"
    using assms(2) by (auto simp: call_virtual_input_setup_def create_virtual_input_def split: option.splits)
  obtain res b2 c2 d2 x2 h2 where cr: "create_virtual_input fuel wfuel env ?cb (b, (c, d, arr, lost), h) = Some (res, b2, (c2, d2, x2), h2)"
    using assms(2) by (cases "create_virtual_input fuel wfuel env ?cb (b, (c, d, arr, lost), h)") (auto simp: call_virtual_input_setup_def)
  have made: "leads dec s (agrees env mp u c2 d2 b2 h2 (case res of Inl err \<Rightarrow> Throwing err | Inr x \<Rightarrow> Ended))"
    using setup_leads [OF assms(1) su assms(3,6)]
  proof (rule leads_trans)
    fix t
    assume t: "agrees env mp u c d b1 h1 (case r1 of Inl err \<Rightarrow> Throwing err | Inr x \<Rightarrow> Checking) t"
    show "leads dec t (agrees env mp u c2 d2 b2 h2 (case res of Inl err \<Rightarrow> Throwing err | Inr x \<Rightarrow> Ended))"
    proof (cases r1)
      case (Inl err)
      with cr su t show ?thesis by (auto simp: create_virtual_input_def intro: leads_here)
    next
      case (Inr x)
      with cr su have "run_virtual_input fuel wfuel env ?cb (b1, (c, d, arr, lost), h1) = Some (res, b2, (c2, d2, x2), h2)"
        by (simp add: create_virtual_input_def)
      from running_leads [OF assms(1) this _ assms(4,5)] t Inr show ?thesis by simp
    qed
  qed
  then show ?thesis
  proof (rule leads_trans)
    fix t
    assume t: "agrees env mp u c2 d2 b2 h2 (case res of Inl err \<Rightarrow> Throwing err | Inr x \<Rightarrow> Ended) t"
    show "leads dec t (agrees env mp u c' d' b' h' Ended)"
    proof (cases res)
      case (Inl what)
      then have "set_error (''Could not create virtual input, reason: '' @ what) (c2, b2) = (c', b')" "d2 = d'" "h2 = h'"
        using assms(2) cr by (auto simp: call_virtual_input_setup_def split: prod.splits)
      with throwing_leads [OF assms(1), of mp u c2 d2 b2 h2 what t] t Inl show ?thesis by simp
    next
      case (Inr x)
      with assms(2) cr t show ?thesis by (auto simp: call_virtual_input_setup_def intro: leads_here)
    qed
  qed
qed

section \<open>The end of the main thread\<close>

lemma destroy_backend_rebase:
  assumes "destroy_backend env b h = (b1, h1)"
  shows "\<exists>new. h1 = h @ new \<and> destroy_backend (rebase env h k fl) b k = (b1, k @ new)"
  using assms
  by (auto simp: destroy_backend_def destroy_virtual_input_def stop_recording_def Let_def split: if_splits sum.splits)

text \<open>Once the microphone thread has ended, the steps of the main thread are \<open>request_shutdown\<close>, \<open>~Client\<close> and
  the end of the process.\<close>

lemma main_ends:
  assumes "main_pc s = Polling" and "mic_pc s = Ended" and "quitting s"
    and "client_request_shutdown (cli s, uvg s, be s) = (c2, tr1, b2)" and "destroy_client (c2, tr1) = (c3, tr2)"
    and "destroy_backend env b2 (os s) = (b3, k)"
  shows "prun dec s (replicate 7 Main_Thread) (s\<lparr>cli := c3, uvg := tr2, be := b3, os := k, main_pc := Gone\<rparr>)"
proof -
  obtain s1 where s1: "s1 = s\<lparr>main_pc := Stopping\<rparr>" by blast
  obtain s2 where s2: "s2 = s1\<lparr>cli := (cli s1)\<lparr>should_stop := True\<rparr>, main_pc := Closing\<rparr>" by blast
  have cl: "close_client_rtp (cli s2, uvg s2) = (c2, tr1)" and b2: "b2 = stop_recording (be s)"
    using assms(4) by (auto simp: s2 s1 client_request_shutdown_def close_client_rtp_def Let_def split: option.splits prod.splits)
  obtain s3 where s3: "s3 = s2\<lparr>cli := c2, uvg := tr1, main_pc := Quieting\<rparr>" by blast
  obtain s4 where s4: "s4 = s3\<lparr>be := stop_recording (be s3), main_pc := Freeing\<rparr>" by blast
  obtain s5 where s5: "s5 = s4\<lparr>cli := (cli s4)\<lparr>decoder_open := False\<rparr>, main_pc := Joining\<rparr>" by blast
  have de: "destroy_client (cli s5, uvg s5) = (c3, tr2)"
    using assms(5) by (simp add: s5 s4 s3 destroy_client_def)
  obtain s6 where s6: "s6 = s5\<lparr>cli := c3, uvg := tr2, main_pc := Leaving\<rparr>" by blast
  note states = s1 s2 s3 s4 s5 s6
  have p1: "pstep dec Main_Thread s s1"
    unfolding s1 using assms(1,3) by (intro main_leave) (simp_all add: quitting_def is_healthy_def)
  have p2: "pstep dec Main_Thread s1 s2" unfolding s2 by (rule main_stop) (simp add: s1)
  have p3: "pstep dec Main_Thread s2 s3" unfolding s3 by (rule main_close [OF _ cl]) (simp add: s2)
  have p4: "pstep dec Main_Thread s3 s4" unfolding s4 by (rule main_quiet) (simp add: s3)
  have p5: "pstep dec Main_Thread s4 s5" unfolding s5 by (rule main_free) (simp add: s4)
  have p6: "pstep dec Main_Thread s5 s6" unfolding s6 by (rule main_join [OF _ _ de]) (simp_all add: states assms(2))
  have p7: "pstep dec Main_Thread s6 (s\<lparr>cli := c3, uvg := tr2, be := b3, os := k, main_pc := Gone\<rparr>)"
    using main_exit [of s6 env b3 k dec] assms(6) by (simp add: states b2)
  have seven: "replicate 7 Main_Thread = [Main_Thread, Main_Thread, Main_Thread, Main_Thread, Main_Thread, Main_Thread, Main_Thread]"
    by (simp add: eval_nat_numeral)
  show ?thesis
    unfolding seven
    by (rule prun_Cons [OF _ p1], rule prun_Cons [OF _ p2], rule prun_Cons [OF _ p3], rule prun_Cons [OF _ p4],
        rule prun_Cons [OF _ p5], rule prun_Cons [OF _ p6], rule prun_Cons [OF _ p7], rule prun_nil)
qed

section \<open>Property\<close>



end
