(* ===== verification/Program_Ends.thy ===== *)
theory Program_Ends
  imports Main_Facts
begin

text \<open>
  That both modes of the program end once a shutdown has been requested, with the fuel that is enough
  for every loop on the way.
\<close>

section \<open>The loops of the virtual input\<close>

text \<open>
  The shutdown flag, once \<open>N\<close> calls have been made, reads as set, and no write is interrupted by a
  signal any more.
\<close>

definition quits_by :: "nat \<Rightarrow> pa_env \<Rightarrow> bool" where
  "quits_by N env \<longleftrightarrow> (\<forall>h. N \<le> length h \<longrightarrow> shutdown_seen env h \<and> (\<forall>bs. write_result env h bs \<noteq> Inl EINTR))"

lemma quits_byD:
  assumes "quits_by N env"
  shows "\<not> shutdown_seen env h \<Longrightarrow> length h < N" "write_result env h bs = Inl EINTR \<Longrightarrow> length h < N"
  using assms by (auto simp: quits_by_def not_le [symmetric])

lemma open_fifo_returns:
  assumes "quits_by N env" and "N - length tr < fuel"
  shows "\<exists>r. open_fifo fuel env b tr = Some r"
  using assms(2)
proof (induction fuel arbitrary: b tr)
  case (Suc fuel)
  show ?case
  proof (cases "open_round env b tr")
    case (Inl r)
    then show ?thesis by (cases r) (simp add: open_fifo.simps)
  next
    case (Inr p)
    obtain b1 tr1 where p: "p = (b1, tr1)" by (cases p)
    have "length tr < N \<and> length tr < length tr1"
      using Inr p quits_byD(1) [OF assms(1)]
      by (force simp: open_round_def Let_def split: if_splits sum.splits)
    with Suc.prems have "N - length tr1 < fuel" by linarith
    from Suc.IH [OF this] Inr p show ?thesis by (simp add: open_fifo.simps)
  qed
qed simp

lemma write_pending_ends:
  assumes "quits_by N env" and "(N - length tr) + (n - offset) < fuel"
  shows "\<exists>r b' tr'. write_pending fuel env buf offset n b tr = Some (r, b', tr') \<and> length tr \<le> length tr'"
  using assms(2)
proof (induction fuel arbitrary: offset tr)
  case (Suc fuel)
  show ?case
  proof (cases "write_round env buf offset n b tr")
    case (Inl r)
    obtain x b1 tr1 where "r = (x, b1, tr1)" by (cases r)
    moreover from this Inl have "length tr \<le> length tr1"
      by (auto simp: write_round_def Let_def die_def split: if_splits sum.splits)
    ultimately show ?thesis using Inl by (simp add: write_pending.simps)
  next
    case (Inr p)
    obtain offset1 tr1 where p: "p = (offset1, tr1)" by (cases p)
    have "length tr1 = Suc (length tr) \<and> offset < n \<and> (offset < offset1 \<or> offset1 = offset \<and> length tr < N)"
      using Inr p quits_byD(2) [OF assms(1)]
      by (auto simp: write_round_def Let_def split: if_splits sum.splits)
    with Suc.prems have "(N - length tr1) + (n - offset1) < fuel" "length tr \<le> length tr1" by linarith+
    with Suc.IH [OF this(1)] Inr p show ?thesis by (fastforce simp: write_pending.simps)
  qed
qed simp

text \<open>The write callback keeps the length of its buffer.\<close>

definition keeps_length :: "'s write_callback option \<Rightarrow> bool" where
  "keeps_length cb \<longleftrightarrow> (\<forall>f d t. cb = Some f \<longrightarrow> length (fst (snd (f d t))) = length d)"

lemma run_loop_returns:
  assumes "quits_by N env" and "keeps_length cb"
    and "N + length buf < wfuel" and "N - length tr < fuel"
  shows "\<exists>r. run_loop fuel wfuel env cb buf (b, s, tr) = Some r"
  using assms(3,4)
proof (induction fuel arbitrary: buf b s tr)
  case (Suc fuel)
  let ?b0 = "if stop_seen env tr then stop_recording b else b"
  let ?tr0 = "tr @ [PollFlags (stop_seen env tr)]"
  let ?tr1 = "?tr0 @ [PollShutdown (shutdown_seen env ?tr0)]"
  obtain r buf1 s1 where c: "(case cb of None \<Rightarrow> (Inr 0, buf, s) | Some f \<Rightarrow> f buf s) = (r, buf1, s1)"
    by (metis surj_pair)
  have len: "length buf1 = length buf"
    using c assms(2) by (cases cb) (force simp: keeps_length_def prod_eq_iff)+
  show ?case
  proof (cases "playback ?b0 \<and> \<not> shutdown_seen env ?tr0")
    case False
    then show ?thesis by (auto simp: run_loop.simps(2) Let_def)
  next
    case True
    then have "length ?tr0 < N" using quits_byD(1) [OF assms(1)] by blast
    with Suc.prems(2) have more: "N - length tr2 < fuel" if "length ?tr1 \<le> length tr2" for tr2
      using that by simp
    note step = run_loop.simps(2) [of fuel wfuel env cb buf b s tr, simplified Let_def c]
    show ?thesis
    proof (cases r)
      case (Inl exc)
      with step True show ?thesis by (auto simp: die_def)
    next
      case (Inr n)
      let ?p = "if n > length buf1 then length buf1 else n"
      have "?p \<le> length buf" "N - length ?tr1 \<le> N" using len by simp_all
      with Suc.prems(1) have "(N - length ?tr1) + (?p - 0) < wfuel" by linarith
      from write_pending_ends [OF assms(1) this] obtain r2 b2 tr2
        where w: "write_pending wfuel env buf1 0 ?p ?b0 ?tr1 = Some (r2, b2, tr2)" "length ?tr1 \<le> length tr2" by blast
      let ?tr2 = "?tr1 @ [Iterate (iterate_events env ?tr1), Usleep]"
      have "\<exists>r. run_loop fuel wfuel env cb buf1 (?b0, s1, ?tr2) = Some r"
        using Suc.IH [of buf1 ?tr2] more [of ?tr2] Suc.prems(1) len by simp
      moreover have "\<exists>r. run_loop fuel wfuel env cb buf1 (b2, s1, tr2) = Some r"
        using Suc.IH [of buf1 tr2] more [OF w(2)] Suc.prems(1) len by simp
      ultimately show ?thesis
        using step True Inr w(1) by (cases r2) (auto split: if_splits)
    qed
  qed
qed simp

lemma create_returns:
  assumes "quits_by N env" and "keeps_length cb"
    and "N < fuel" and "N + 3840 < wfuel"
  shows "\<exists>r. create_virtual_input fuel wfuel env cb (b, s, tr) = Some r"
proof -
  have "\<exists>r. setup_virtual_input fuel env b tr = Some r"
  proof (cases "\<not> virtual_source_loaded b \<and> (\<exists>p. load_pipe_source env b tr = Inr p)")
    case True
    then obtain b2 tr3 where "\<not> virtual_source_loaded b" "load_pipe_source env b tr = Inr (b2, tr3)" by auto
    moreover have "N - length tr3 < fuel" using assms(3) by simp
    from open_fifo_returns [OF assms(1) this, of b2] obtain x b3 tr4
      where "open_fifo fuel env b2 tr3 = Some (x, b3, tr4)" by (metis surj_pair)
    ultimately show ?thesis by (cases x) (simp_all add: setup_virtual_input_def)
  next
    case False
    then show ?thesis by (cases "load_pipe_source env b tr") (auto simp: setup_virtual_input_def)
  qed
  then obtain x b1 tr1 where su: "setup_virtual_input fuel env b tr = Some (x, b1, tr1)" by auto
  have "N + length (replicate 3840 (0 :: byte)) < wfuel" "N - length tr1 < fuel" using assms(3,4) by simp_all
  from run_loop_returns [OF assms(1,2) this] have "\<exists>r. run_loop fuel wfuel env cb (replicate 3840 0) (b1\<lparr>playback := True\<rparr>, s, tr1) = Some r"
    by blast
  with su show ?thesis
    by (cases x) (auto simp: create_virtual_input_def run_virtual_input_def die_def Let_def)
qed

lemma thread_returns:
  assumes "quits_by N env" and "N < fuel" and "N + 3840 < wfuel"
  shows "\<exists>c x b' tr'. call_virtual_input_setup fuel wfuel env dec (m, b, tr) = Some ((c, x), b', tr')"
proof -
  have "keeps_length (Some (no_throw (live_cb dec)))"
    using lossy_stream.buffer_length by (fastforce simp: keeps_length_def no_throw_def split: prod.split)
  from create_returns [OF assms(1) this assms(2,3)]
  obtain res b1 c1 x1 tr1 where "create_virtual_input fuel wfuel env (Some (no_throw (live_cb dec))) (b, m, tr) = Some (res, b1, (c1, x1), tr1)"
    by (metis surj_pair)
  then show ?thesis by (cases res; cases x1) (auto simp: call_virtual_input_setup_def split: prod.split)
qed

section \<open>Client mode\<close>

lemma monitor_returns:
  assumes "\<And>k. j \<le> k \<Longrightarrow> shut k" and "j < fuel"
  shows "\<exists>i. monitor fuel shut healthy_at k = Some i"
proof (cases "j \<le> k")
  case True
  with assms show ?thesis by (cases fuel) auto
next
  case False
  then have "k \<le> j" "j - k < fuel" using assms(2) by simp_all
  with monitor_ends [of k j shut healthy_at fuel] assms(1) [of j] show ?thesis by blast
qed



section \<open>Server mode\<close>

text \<open>A stream that is neither ready nor failed does not stay so.\<close>

definition settles_by :: "nat \<Rightarrow> pa_env \<Rightarrow> bool" where
  "settles_by N env \<longleftrightarrow> (\<forall>h. N \<le> length h \<longrightarrow> shutdown_seen env h \<and>
     stream_get_state env h \<in> {PA_STREAM_READY, PA_STREAM_FAILED, PA_STREAM_TERMINATED})"

lemma settles_byD:
  assumes "settles_by N env"
  shows "\<not> shutdown_seen env h \<Longrightarrow> length h < N"
    "stream_get_state env h \<noteq> PA_STREAM_READY \<Longrightarrow> stream_get_state env h \<noteq> PA_STREAM_FAILED \<Longrightarrow>
       stream_get_state env h \<noteq> PA_STREAM_TERMINATED \<Longrightarrow> length h < N"
  using assms by (auto simp: settles_by_def not_le [symmetric])

lemma mainloop_iterate_longer:
  "mainloop_iterate env dcb (b, c, tr) = (r, b', c', tr') \<Longrightarrow> length tr' = Suc (length tr)"
  by (auto simp: mainloop_iterate_def Let_def split: prod.splits)

lemma wait_for_stream_returns:
  assumes "settles_by N env" and "N - length tr < fuel"
  shows "\<exists>r b' c' tr'. wait_for_stream_ready fuel env dcb s (b, c, tr) = Some (r, b', c', tr')"
  using assms(2)
proof (induction fuel arbitrary: b c tr)
  case (Suc fuel)
  let ?tr1 = "tr @ [StreamState s (stream_get_state env tr)]"
  obtain r b1 c1 tr2 where m: "mainloop_iterate env dcb (b, c, ?tr1) = (r, b1, c1, tr2)" by (metis surj_pair)
  have len: "length tr2 = length tr + 2" using mainloop_iterate_longer [OF m] by simp
  show ?case
  proof (cases "stream_get_state env tr \<in> {PA_STREAM_READY, PA_STREAM_FAILED, PA_STREAM_TERMINATED}")
    case True
    then show ?thesis by (auto simp: wait_for_stream_ready.simps Let_def)
  next
    case False
    then have "length tr < N" using settles_byD(2) [OF assms(1), of tr] by auto
    with Suc.prems len have "N - length tr2 < fuel" by linarith
    from Suc.IH [OF this] m False show ?thesis
      by (cases r) (auto simp: wait_for_stream_ready.simps Let_def)
  qed
qed simp

lemma record_loop_returns:
  assumes "settles_by N env" and "N - length tr < fuel"
  shows "\<exists>r b' c' tr'. record_loop fuel env dcb (b, c, tr) = Some (r, b', c', tr')"
  using assms(2)
proof (induction fuel arbitrary: b c tr)
  case (Suc fuel)
  let ?b0 = "if stop_seen env tr then stop_recording b else b"
  let ?tr0 = "tr @ [PollFlags (stop_seen env tr)]"
  let ?tr1 = "?tr0 @ [PollShutdown (shutdown_seen env ?tr0)]"
  obtain r b1 c1 tr2 where m: "mainloop_iterate env dcb (?b0, c, ?tr1) = (r, b1, c1, tr2)" by (metis surj_pair)
  have len: "length tr2 = length tr + 3" using mainloop_iterate_longer [OF m] by simp
  show ?case
  proof (cases "recording ?b0 \<and> \<not> shutdown_seen env ?tr0")
    case False
    then show ?thesis by (auto simp: record_loop.simps Let_def)
  next
    case True
    then have "length ?tr0 < N" using settles_byD(1) [OF assms(1)] by blast
    with Suc.prems len have "N - length tr2 < fuel" by simp
    from Suc.IH [OF this] m True show ?thesis
      by (cases r) (auto simp: record_loop.simps Let_def split: if_splits)
  qed
qed simp

lemma record_device_returns:
  assumes "settles_by N env" and "N < fuel"
  shows "\<exists>r. record_device fuel env dcb dev (b, c, tr) = Some r"
proof -
  have w: "\<exists>r b' c' tr'. wait_for_stream_ready fuel env dcb s (b, c, tr) = Some (r, b', c', tr')" for s b c tr
    by (rule wait_for_stream_returns [OF assms(1)]) (use assms(2) in simp)
  have l: "\<exists>r b' c' tr'. record_loop fuel env dcb (b, c, tr) = Some (r, b', c', tr')" for b c tr
    by (rule record_loop_returns [OF assms(1)]) (use assms(2) in simp)
  obtain b1 tr1 where d: "destroy_stream env b tr = (b1, tr1)" by (metis surj_pair)
  let ?tr2 = "tr1 @ [StreamNew (channels dev) (stream_new_result env tr1)]"
  show ?thesis
  proof (cases "stream_new_result env tr1")
    case None
    with d show ?thesis by (simp add: record_device_def Let_def)
  next
    case (Some s)
    let ?b2 = "b1\<lparr>pa_stream := Some s\<rparr>"
    let ?tr3 = "?tr2 @ [ConnectRecord s (dev_name dev) (usec_to_bytes env 20000 (channels dev)) (connect_record_result env ?tr2)]"
    obtain x b3 c1 tr4 where w1: "wait_for_stream_ready fuel env dcb s (?b2, c, ?tr3) = Some (x, b3, c1, tr4)" using w by blast
    obtain y b4 c2 tr5 where l1: "record_loop fuel env dcb (b3\<lparr>recording := True\<rparr>, c1, tr4) = Some (y, b4, c2, tr5)" using l by blast
    show ?thesis
      using d Some w1 l1 by (cases x; cases y) (auto simp: record_device_def Let_def split: prod.split)
  qed
qed



end
