(* ===== verification/Peers.thy ===== *)
theory Peers
  imports Keys_Facts
begin

text \<open>
  More properties of \<open>src/keys.cpp\<close>: a half-written key pair, the state a load leaves, repeated
  loading, and trusted peers.
\<close>

section \<open>Half a key pair, and loading twice\<close>



text \<open>After loading, the signer is not there. When the key files exist, \<open>ensure_loaded\<close> loads both
  keys and returns normally, yet \<open>signer\<close> and \<open>verifier\<close> are still empty and \<open>loaded\<close> is still false
  (the comment above it promises that both can be dereferenced then).\<close>

theorem loaded_without_signer:
  fixes env :: "('sk, 'pk) key_env"
  assumes "io_ok env" and "fs (dir, pre @ ''_ed25519'') = Some sk_file" and "sk_file \<noteq> []"
    and "fs (dir, pre @ ''_ed25519.pub'') = Some pk_file" and "pk_file \<noteq> []"
    and "load_private env (base64_decode_file env sk_file) = Some sk"
    and "load_public env (base64_decode_file env pk_file) = Some pk"
  shows "\<exists>km' fs'. ensure_loaded env k (new_key_manager dir pre, fs) = (Inr (), km', fs') \<and>
    privkey km' = Some sk \<and> pubkey km' = Some pk \<and> signer km' = None \<and> verifier km' = None \<and> \<not> loaded km'"
proof -
  let ?km = "new_key_manager dir pre :: ('sk, 'pk) key_manager"
  have o: "opened ?km fs (dir, pre @ ''_ed25519'') = Some sk_file" "opened ?km fs (dir, pre @ ''_ed25519.pub'') = Some pk_file"
    by (rule opened_content(3) [where fs = fs, OF assms(2)], rule opened_content(3) [where fs = fs, OF assms(4)])
  have "ensure_loaded env k (?km, fs) = load env (all_open ?km fs, opened ?km fs)"
    using assms(2-5)
    by (simp add: ensure_loaded_def load_or_create_fresh [OF assms(1)] file_size_def Let_def) (simp add: new_key_manager_def)
  also have "\<dots> = (Inr (), (all_open ?km fs)\<lparr>privkey_open := False, pubkey_open := False, pubkey := Some pk, privkey := Some sk\<rparr>, opened ?km fs)"
    using o assms(6,7) by (simp add: load_def load_from_file_def Let_def)
  finally show ?thesis by (simp add: all_open_def set_paths_def new_key_manager_def)
qed

theorem loaded_without_signer_witness:
  "\<exists>km' fs'. ensure_loaded toy_keys 1 (new_key_manager ''d'' ''a'', [(''d'', ''a_ed25519'') \<mapsto> [7], (''d'', ''a_ed25519.pub'') \<mapsto> [8]]) = (Inr (), km', fs') \<and>
     privkey km' = Some 7 \<and> signer km' = None"
  using loaded_without_signer [OF toy_io, of "[(''d'', ''a_ed25519'') \<mapsto> [7], (''d'', ''a_ed25519.pub'') \<mapsto> [8]]" "''d''" "''a''" "[7]" "[8]" 7 8 1]
  by (simp add: toy_keys_def) blast

text \<open>A key manager loads once. After \<open>load_or_create\<close> has returned normally, any second call
  throws: \<open>loaded\<close> is never set, so it opens the files again, and at least the stream of the trusted
  peers is still open.\<close>

theorem second_load_throws:
  assumes "load_or_create env k (km, fs) = (Inr (), km1, fs1)" and "\<not> loaded km"
  shows "\<exists>e. fst (load_or_create env k2 (km1, fs1)) = Inl e"
proof -
  from load_or_create_cases [OF assms] have
    "(Inr (), km1, fs1) = create env k (all_open km fs, opened km fs) \<or> (Inr (), km1, fs1) = load env (all_open km fs, opened km fs)"
    by (auto split: if_splits)
  then have "trusted_peers_file km1 = trusted_peers_file (all_open km fs) \<and> loaded km1 = loaded km"
    by (auto simp: create_def create_pubkey_def load_def all_open_def set_paths_def Let_def
        split: sum.splits option.splits prod.splits)
  moreover have "trusted_peers_file (all_open km fs) \<noteq> None"
    by (auto simp: all_open_def opened_def touch_def split: option.splits)
  ultimately have open1: "trusted_peers_file km1 \<noteq> None" "\<not> loaded km1" using assms(2) by auto
  obtain r2 km2 fs2 where r2: "load_or_create env k2 (km1, fs1) = (r2, km2, fs2)" by (metis surj_pair)
  from load_or_create_cases [OF r2 open1(2)] open1(1) show ?thesis by (auto simp: r2)
qed

theorem second_load_throws_witness:
  "\<exists>km1 fs1 e. load_or_create toy_keys 5 (new_key_manager ''d'' ''a'', \<lambda>p. None) = (Inr (), km1, fs1) \<and>
     fst (load_or_create toy_keys 5 (km1, fs1)) = Inl e"
proof -
  obtain km1 fs1 where r: "load_or_create toy_keys 5 (new_key_manager ''d'' ''a'', \<lambda>p. None) = (Inr (), km1, fs1)"
    by (simp add: load_or_create_fresh [OF toy_io] create_ok [OF toy_io] file_size_def Let_def)
  have "\<not> loaded (new_key_manager ''d'' ''a'')" by (simp add: new_key_manager_def)
  from second_load_throws [OF r this] r show ?thesis by blast
qed

section \<open>Trusted peers\<close>

lemma new_trusted_peer_Inr_iff:
  "new_trusted_peer env j = Inr p \<longleftrightarrow> length (schema_signer_id j) = 64 \<and> schema_pubkey_base64 j \<noteq> [] \<and>
     (\<exists>pk. load_public env (base64_decode env (schema_pubkey_base64 j)) = Some pk \<and>
        p = \<lparr>signer_id = overwrite (replicate 32 0) (hex_decode env (schema_signer_id j)), peer_pubkey = pk,
             peer_label = schema_label j, peer_revoked = schema_revoked j\<rparr>)"
  by (cases "schema_signer_id j = []")
    (auto simp: new_trusted_peer_def decode_pubkey_base64_def decode_hex_id_def bind_err_Inr_iff split: option.splits)

text \<open>C34. Trusted peers round-trip. Writing a peer with a 32-byte id as JSON and reading it back gives
  the same peer, revocation included.\<close>

theorem peer_roundtrip:
  assumes "codecs_ok env" and "length (signer_id p) = 32"
  shows "new_trusted_peer env (to_json env p) = Inr p"
  using assms
  by (cases p) (simp add: new_trusted_peer_Inr_iff to_json_def encode_hex_id_def encode_pubkey_base64_def codecs_ok_def overwrite_full)

theorem peer_roundtrip_witness:
  "new_trusted_peer toy_keys (to_json toy_keys \<lparr>signer_id = replicate 32 3, peer_pubkey = 9, peer_label = ''bob'', peer_revoked = True\<rparr>) =
     Inr \<lparr>signer_id = replicate 32 3, peer_pubkey = 9, peer_label = ''bob'', peer_revoked = True\<rparr>"
  by (rule peer_roundtrip [OF toy_codecs]) simp



text \<open>Only the length of an id is checked. A text of 64 characters of which the hex decoder accepts
  none is not refused but read as the id of 32 zero bytes, so all such entries become the same peer
  id.\<close>

theorem unreadable_id_accepted:
  assumes "length (schema_signer_id j) = 64" and "hex_decode env (schema_signer_id j) = []"
    and "schema_pubkey_base64 j \<noteq> []" and "load_public env (base64_decode env (schema_pubkey_base64 j)) = Some pk"
  shows "\<exists>p. new_trusted_peer env j = Inr p \<and> signer_id p = replicate 32 0 \<and> peer_pubkey p = pk"
  using assms by (auto simp: new_trusted_peer_Inr_iff overwrite_def)

theorem unreadable_id_accepted_witness:
  "\<exists>p. new_trusted_peer (toy_keys\<lparr>hex_decode := (\<lambda>s. [])\<rparr>) \<lparr>schema_signer_id = replicate 64 CHR ''z'',
     schema_pubkey_base64 = ''AB'', schema_label = [], schema_revoked = False\<rparr> = Inr p \<and> signer_id p = replicate 32 0"
  using unreadable_id_accepted [of "\<lparr>schema_signer_id = replicate 64 CHR ''z'', schema_pubkey_base64 = ''AB'',
      schema_label = [], schema_revoked = False\<rparr>" "toy_keys\<lparr>hex_decode := (\<lambda>s. [])\<rparr>" 1]
  by (auto simp: toy_keys_def)

end
