(* ===== verification/Handshake.thy ===== *)
theory Handshake
  imports Prelude
begin

text \<open>
  \<open>include/handshake.hxx\<close>: the packet the two sides are meant to exchange before a session. No code
  builds, sends or reads one yet; what the header fixes is the data: the codes of the enumerators, the
  magic bytes, the members of the struct, and with them its layout in memory under the natural
  alignment of the members (8 for a 64-bit integer), which is what raw sends of it would put on the
  wire.
\<close>

section \<open>Enumerators and magic\<close>

datatype role = CLIENT | SERVER

definition role_code :: "role \<Rightarrow> byte" where
  "role_code r = (case r of CLIENT \<Rightarrow> 0 | SERVER \<Rightarrow> 1)"

datatype message_type = CLIENT_HELLO | SERVER_HELLO | FINISHED

definition message_type_code :: "message_type \<Rightarrow> byte" where
  "message_type_code t = (case t of CLIENT_HELLO \<Rightarrow> 0 | SERVER_HELLO \<Rightarrow> 1 | FINISHED \<Rightarrow> 2)"

definition magic_bytes :: "byte list" where
  "magic_bytes = map of_char [CHR ''A'', CHR ''P'', CHR ''H'', CHR ''M'']"

section \<open>The packet\<close>

record handshake_packet =
  magic :: u32
  version :: byte
  msg_type :: message_type
  packet_role :: role
  flags :: byte
  session_id :: u64
  nonce :: "byte list"
  x25519_pub :: "byte list"
  signer_id :: "byte list"
  sig_len :: u16

text \<open>The arrays have the sizes the struct declares.\<close>

definition packet_ok :: "handshake_packet \<Rightarrow> bool" where
  "packet_ok p \<longleftrightarrow> length (nonce p) = 16 \<and> length (x25519_pub p) = 32 \<and> length (signer_id p) = 32"

section \<open>Layout\<close>

text \<open>A member with its size and alignment.\<close>

record member =
  member_name :: string
  member_size :: nat
  member_align :: nat

definition packet_members :: "member list" where
  "packet_members = map (\<lambda>(nm, size, al). \<lparr>member_name = nm, member_size = size, member_align = al\<rparr>)
     [(''magic'', 4, 4), (''version'', 1, 1), (''msg_type'', 1, 1), (''role'', 1, 1), (''flags'', 1, 1),
      (''session_id'', 8, 8), (''nonce'', 16, 1), (''x25519_pub'', 32, 1), (''signer_id'', 32, 1),
      (''sig_len'', 2, 2)]"

definition align_up :: "nat \<Rightarrow> nat \<Rightarrow> nat" where
  "align_up al n = (n + (al - 1)) div al * al"

text \<open>Members in order, each at the next multiple of its alignment; the result is the members with
  their offsets and the first free byte.\<close>

fun place :: "nat \<Rightarrow> member list \<Rightarrow> (member \<times> nat) list \<times> nat" where
  "place at [] = ([], at)"
| "place at (m # ms) =
     (let off = align_up (member_align m) at
      in case place (off + member_size m) ms of (placed, free) \<Rightarrow> ((m, off) # placed, free))"

definition struct_align :: "member list \<Rightarrow> nat" where
  "struct_align ms = fold max (map member_align ms) 1"

definition struct_size :: "member list \<Rightarrow> nat" where
  "struct_size ms = align_up (struct_align ms) (snd (place 0 ms))"

section \<open>Facts about layouts\<close>

lemma align_up_ge: "0 < al \<Longrightarrow> n \<le> align_up al n"
proof -
  assume pos: "0 < al"
  have "(n + (al - 1)) div al * al + (n + (al - 1)) mod al = n + (al - 1)" by (rule div_mult_mod_eq)
  moreover have "(n + (al - 1)) mod al < al" using pos by simp
  ultimately show ?thesis unfolding align_up_def by linarith
qed

lemma align_up_dvd: "al dvd align_up al n"
  by (simp add: align_up_def)

text \<open>Whatever the members: aligned, one after the other, and inside the struct.\<close>

definition well_placed :: "nat \<Rightarrow> (member \<times> nat) list \<Rightarrow> nat \<Rightarrow> bool" where
  "well_placed at placed free \<longleftrightarrow>
     (\<forall>(m, off) \<in> set placed. member_align m dvd off \<and> at \<le> off \<and> off + member_size m \<le> free) \<and>
     sorted_wrt (\<lambda>(m, off) (m', off'). off + member_size m \<le> off') placed \<and> at \<le> free"

lemma place_well_placed:
  "(\<And>m. m \<in> set ms \<Longrightarrow> 0 < member_align m) \<Longrightarrow>
     well_placed at (fst (place at ms)) (snd (place at ms)) \<and> map fst (fst (place at ms)) = ms"
proof (induction ms arbitrary: at)
  case Nil
  then show ?case by (simp add: well_placed_def)
next
  case (Cons m ms)
  let ?off = "align_up (member_align m) at"
  have le: "at \<le> ?off" using Cons.prems [of m] by (simp add: align_up_ge)
  obtain placed free where p: "place (?off + member_size m) ms = (placed, free)" by (metis surj_pair)
  have "well_placed (?off + member_size m) placed free \<and> map fst placed = ms"
    using Cons.IH [of "?off + member_size m"] Cons.prems p by simp
  then show ?case
    using le by (auto simp: well_placed_def p Let_def align_up_dvd)
qed

lemma packet_placed:
  "map (\<lambda>(m, off). (member_name m, off)) (fst (place 0 packet_members)) =
     [(''magic'', 0), (''version'', 4), (''msg_type'', 5), (''role'', 6), (''flags'', 7), (''session_id'', 8),
      (''nonce'', 16), (''x25519_pub'', 32), (''signer_id'', 64), (''sig_len'', 96)]"
  "snd (place 0 packet_members) = 98"
  by (simp_all add: packet_members_def align_up_def Let_def)

section \<open>Properties\<close>


end
