(* ===== verification/Spec2Isabelle.thy ===== *)
theory Spec2Isabelle
  imports Addresses Signals Virtual_Input_Spec Virtual_Mic Client_Threads Client_Bounds Client_Exit Client_Stream Client_Races Client_Alone Program_Ends Peers Handshake
begin

text \<open>
  A verification library for audpipe, a program that forwards a microphone over RTP.

  \<^bold>\<open>The program.\<close> One executable (\<open>src/main.cpp\<close>) with two modes. In server mode it records from a
  PulseAudio source, encodes 20 ms frames with Opus and pushes them to a uvgRTP stream
  (\<open>src/server.cpp\<close>, \<open>src/rtp.cpp\<close>). In client mode it receives the frames, queues them, decodes them
  on demand and feeds the PCM to a virtual microphone, a \<open>module-pipe-source\<close> behind a FIFO
  (\<open>src/client.cpp\<close>, \<open>src/audio/pulseaudio_backend.cpp\<close>). Both read a TOML file (\<open>src/config.cpp\<close>)
  and keep long-term keys beside it (\<open>src/keys.cpp\<close>). A signal sets a global flag
  (\<open>src/shutdown.cpp\<close>) that the loops poll, except those that wait for libpulse to answer.

  \<^bold>\<open>Theories.\<close>
  \<^item> \<open>Prelude\<close>: machine integers, exceptions as sums, PCM samples as bytes, decimal text.
  \<^item> \<open>Interfaces\<close>: the contracts between components as locales: \<open>latch\<close>, \<open>frame_sink\<close>,
    \<open>bounded_fifo\<close>, \<open>pcm_source\<close> and \<open>pcm_stream_source\<close>.
  \<^item> \<open>Shutdown\<close>: the shutdown flag; it provides \<open>latch\<close>.
  \<^item> \<open>Config\<close>: \<open>include/config.hxx\<close>, \<open>src/config.cpp\<close>. TOML documents are a datatype; toml++, the
    resolver and the file system are the record \<open>config_env\<close>.
  \<^item> \<open>Rtp\<close>: \<open>include/rtp.hxx\<close>, \<open>src/rtp.cpp\<close>. uvgRTP is an environment whose answers depend on the
    history of calls, and every call is recorded; \<open>Rtp\<close> provides \<open>frame_sink\<close>.
  \<^item> \<open>Audio\<close>: \<open>include/audio.hxx\<close> and \<open>src/audio/pulseaudio_callbacks.cpp\<close>: devices, run flags and the
    callbacks libpulse invokes.
  \<^item> \<open>Backend\<close>: \<open>src/audio/pulseaudio_backend.cpp\<close> over a history of libpulse and POSIX calls.
    \<open>Backend_Facts\<close> has the lemmas on setup and running, \<open>Virtual_Input\<close> the life cycle,
    \<open>Virtual_Input_Spec\<close> an abstract state machine of it and the refinement, \<open>Fifo_Stream\<close> the bytes that reach the FIFO and the cleanup of stale modules, \<open>Recording\<close> the
    recording stream.
  \<^item> \<open>Client\<close>: \<open>include/client.hxx\<close>, \<open>src/client.cpp\<close>; it provides \<open>bounded_fifo\<close>, \<open>pcm_source\<close> and two
    latches. \<open>Client_Facts\<close> has the properties of each operation, \<open>Client_Bounds\<close> the data invariant under
    sequences of them, \<open>Client_Threads\<close> the interleavings of the receiving, audio and main threads,
    \<open>Virtual_Mic\<close> the thread of the virtual microphone over \<open>Backend\<close> while frames arrive, where the write
    callback provides \<open>pcm_stream_source\<close> twice: for what may be heard when frames are lost, and for all
    of it as long as none is.
  \<^item> \<open>Server\<close>, \<open>Server_Facts\<close>: \<open>include/server.hxx\<close>, \<open>src/server.cpp\<close>; \<open>Sender\<close> drives the data
    callback with the recording loop of \<open>Backend\<close>, and \<open>Server_Main\<close> lifts what it sends to the whole of
    server mode.
  \<^item> \<open>Keys\<close>, \<open>Keys_Facts\<close>, \<open>Peers\<close>: \<open>include/keys.hxx\<close>, \<open>src/keys.cpp\<close>. Crypto++ and the JSON parser
    are the record \<open>key_env\<close>, the key files a map.
  \<^item> \<open>Main_Prog\<close>, \<open>Main_Facts\<close>: \<open>src/main.cpp\<close>, composed from the models above, from the first use of
    the singleton backend to the exit of the process. \<open>Program_Ends\<close>: that both modes end. \<open>Addresses\<close>:
    that two peers with one configuration file talk to each other. \<open>Signals\<close>: how a signal becomes a
    shutdown request, with the thread that runs the \<open>io_context\<close> beside the main thread.
  \<^item> \<open>Client_Process\<close>: client mode again, with its main thread, microphone thread, uvgRTP's thread and
    signals interleaving from the constructor of \<open>Client\<close> to the end of the process, as a step relation
    \<open>pstep\<close> made of the rounds of the loops in \<open>Backend\<close> and the pieces of \<open>request_shutdown\<close> and
    \<open>~Client\<close>. \<open>Client_Exit\<close> shows that it ends, \<open>Client_Stream\<close> what its microphone hears,
    \<open>Client_Races\<close> which memory each point of the code touches and that only one race is left,
    \<open>Client_Alone\<close> that the sequential client mode of \<open>Main_Prog\<close> is one of its runs.
  \<^item> \<open>Handshake\<close>: \<open>include/handshake.hxx\<close>, a packet that no code uses yet, and its layout.

  \<^bold>\<open>Reading the model.\<close> A C++ class is a record with the source's members; a method is a function
  from the state to the next state; an exception is \<open>Inl\<close> with its text or kind and a normal return
  \<open>Inr\<close>. Integers that are cast or counted have their width (\<open>u16\<close>, \<open>u32\<close>, \<open>u64\<close>, \<open>byte\<close>). Calls to the
  operating system, libpulse and uvgRTP go through an environment record of functions from the history
  of calls, so that the same call may answer differently each time and a property over all
  environments covers every failure. Codecs (Opus, Base64, hex, key serialisation) are arguments;
  where a property relies on their documented behaviour it says so as a named hypothesis
  (\<open>opus_encode_contract\<close>, \<open>opus_decode_contract\<close>, \<open>codecs_ok\<close>, \<open>posix_write\<close>, \<open>pipe_write\<close>,
  \<open>load_completes\<close>), and its witness instantiates them. \<open>quits_by\<close> and \<open>settles_by\<close> say when a shutdown
  is requested.

  \<^bold>\<open>Fuel.\<close> The loops of the backend that wait for the outside world (\<open>open_fifo\<close>, \<open>run_loop\<close>,
  \<open>write_pending\<close>, \<open>wait_for_stream_ready\<close>, \<open>record_loop\<close>) and the polling loop of \<open>main\<close> may run for
  ever; they take fuel and return \<open>None\<close> without it. \<open>client_mode_terminates\<close> and
  \<open>server_mode_terminates\<close> show that a shutdown request makes \<open>main\<close> return: if the flag is set once
  \<open>N\<close> calls have been made, more than \<open>N\<close> rounds are enough for each loop, with 3840 more for the writes
  of one buffer. \<open>process_stops\<close> counts the steps left when the threads interleave. All other loops
  terminate and are total functions.

  \<^bold>\<open>Exceptions and libpulse.\<close> The data callback of the server throws when the encoder fails. libpulse
  calls it, so the exception unwinds through C frames; the model follows it as the usual platforms
  do, out of \<open>pa_mainloop_iterate\<close> and \<open>record\<close> at once, with the fragment not dropped and the stream
  left behind.

  \<^bold>\<open>What the lemmas show.\<close> End to end, that what a client's FIFO accepts are
  decoded packets of the audio a server captured, in order, and all of it if nothing is lost on the way
  (\<open>audio_forwarded\<close>, from \<open>server_mode_sends\<close>, \<open>process_stream\<close> and \<open>lossless_stream\<close>); the same over the
  sequential model of client mode (\<open>microphone_stream\<close>, \<open>captured_audio_heard\<close>). That the virtual input
  implements a small state machine (\<open>virtual_input_refines\<close>) and that client mode leaves no module and no
  FIFO behind (\<open>client_mode_cleans_up\<close>). For the threads of client mode under every interleaving, that the
  process which ends is clean (\<open>process_exits_clean\<close>), that it ends when told to, without deadlock or a
  missed stop (\<open>process_stops\<close>), that races do not disturb the stream (\<open>process_stream\<close>), and that the
  only data race is the one on the Opus decoder (\<open>process_races\<close>; \<open>decoder_used_after_destroy\<close> shows that
  it can happen); and that what the sequential model does is among them (\<open>sequential_run_happens\<close>). Per
  component: refinement of the write callback to an abstract stream, bounds of the decoder and encoder buffers, the frame queue, the retry and backoff
  behaviour, the life cycles of the RTP object and the virtual input with everything released on each
  path, validity and symmetry of configurations, round trips of keys and peers, and the ways in which
  the program ends. Some theorems record behaviour the authors will not have intended, such as the
  mismatched key pair after a half-written one; their text says so.

  \<^bold>\<open>Not modelled.\<close> Logging; methods that are declared but defined nowhere; \<open>setenv\<close> and the
  encoder's settings. Of asio only the documented behaviour that \<open>Signals\<close> states is used. Mutexes
  appear as the atomicity of the sections they guard, and by name in \<open>Client_Races\<close>. In \<open>main_client\<close> the microphone thread is run to its end before the
  shutdown that joins it, and what it sees of that shutdown is in its environment; \<open>Client_Process\<close> has
  the interleavings, in which a call of the write callback is one step, and \<open>Client_Threads\<close> has those
  inside that callback. Memory is taken to be sequentially consistent.
\<close>

section \<open>From microphone to microphone\<close>

text \<open>C1. From microphone to microphone. A server runs, from the first use of PulseAudio to its exit. Client mode
  runs, with its threads interleaving in any way, on frames of which the network may lose some. Then there
  is a list of packets of the audio the server captured from the chosen device, in order, such that the bytes
  the client's FIFO has accepted are a subsequence of what these packets decode to; if no write was refused
  they are a prefix of it, so that only whole frames are missing; and if every write was taken whole or not
  at all, they are whole stereo samples. If the network loses nothing, every frame finds room and no write is
  refused, then what was accepted, what is being written and what the client still has to deliver are
  together exactly what all packets of the captured audio decode to.\<close>

theorem audio_forwarded:
  assumes "opus_encode_contract enc"
    and "main_server fuel pa env enc opus_error strerr op line scfg (e, [], []) = Some (status, sent, h')"
    and "constructed pa2 ccfg s h" and "prun dec (process_start sd d s h) as t"
    and "subseq (arrived as) (pushed_frames sent)"
  shows "\<exists>dev kept. subseq kept (packets enc dev e (captured h')) \<and>
    (captured h' \<noteq> [] \<longrightarrow> (\<exists>inputs. get_inputs op = Inr inputs \<and> choose_device_interactive line inputs = Inr dev)) \<and>
    subseq (accepted (os t)) (pcm_stream dec (replicate pcm_decbuf_size 0) d kept) \<and>
    (took_all (os t) \<longrightarrow> prefix (accepted (os t)) (pcm_stream dec (replicate pcm_decbuf_size 0) d kept)) \<and>
    (took_whole (os t) \<longrightarrow> 4 dvd length (accepted (os t))) \<and>
    (lossless dec (process_start sd d s h) as t \<and> took_all (os t) \<and> arrived as = pushed_frames sent \<longrightarrow>
       accepted (os t) @ in_flight (mic_pc t) @ remaining dec (cli t) (dec_state t) =
         pcm_stream dec (replicate pcm_decbuf_size 0) d (packets enc dev e (captured h')))"
proof -
  from server_mode_packets [OF assms(1,2)] obtain dev where dev: "pushed_frames sent = packets enc dev e (captured h')"
      "captured h' \<noteq> [] \<longrightarrow> (\<exists>inputs. get_inputs op = Inr inputs \<and> choose_device_interactive line inputs = Inr dev)"
    by (auto simp: pushed_frames_def List.map_filter_def)
  from prun_stream [OF assms(3,4)] obtain kept where kept: "subseq kept (arrived as)"
      "subseq (accepted (os t)) (pcm_stream dec (replicate pcm_decbuf_size 0) d kept)"
      "took_all (os t) \<longrightarrow> prefix (accepted (os t)) (pcm_stream dec (replicate pcm_decbuf_size 0) d kept)"
      "took_whole (os t) \<longrightarrow> 4 dvd length (accepted (os t))" by blast
  have "subseq kept (packets enc dev e (captured h'))"
    using subseq_order.order_trans [OF kept(1) assms(5)] by (simp only: dev(1))
  moreover have "accepted (os t) @ in_flight (mic_pc t) @ remaining dec (cli t) (dec_state t) =
      pcm_stream dec (replicate pcm_decbuf_size 0) d (packets enc dev e (captured h'))"
    if "lossless dec (process_start sd d s h) as t \<and> took_all (os t) \<and> arrived as = pushed_frames sent"
    using lossless_run_stream [OF assms(3), of dec sd d as t] that by (simp only: dev(1))
  ultimately show ?thesis using kept(2-4) dev(2) by blast
qed

theorem audio_forwarded_witness:
  "\<exists>sent h' s t. main_server 3 mono_pa sample_uvg toy_encoder 0 (\<lambda>_. []) (Op [[(Some mono_info, 0), (None, 1)]]) []
      sample_config_record (0, [], []) = Some (Exited 0, sent, h') \<and> captured h' = [replicate 1920 7] \<and>
    constructed sample_pa sample_config_record s [ContextConnect 0] \<and>
    prun toy_decoder (process_start shutdown_init 0 s [ContextConnect 0]) (one_frame 7) t \<and> accepted (os t) = [7, 0, 7, 0] \<and>
    (\<exists>dev. [7, 0, 7, 0] @ in_flight (mic_pc t) @ remaining toy_decoder (cli t) (dec_state t) =
       pcm_stream toy_decoder (replicate pcm_decbuf_size 0) 0 (packets toy_encoder dev 0 (captured h')))"
proof -
  obtain sent h' where server: "main_server 3 mono_pa sample_uvg toy_encoder 0 (\<lambda>_. []) (Op [[(Some mono_info, 0), (None, 1)]]) []
      sample_config_record (0, [], []) = Some (Exited 0, sent, h')"
      and h': "captured h' = [replicate 1920 7]" and sent: "pushed_frames sent = [[7]]" by (rule mono_server_run [where cfg = sample_config_record])
  obtain s where s: "constructed sample_pa sample_config_record s [ContextConnect 0]" "conn_audio s = fresh_backend"
    by (rule sample_constructed)
  obtain t where run: "prun toy_decoder (process_start shutdown_init 0 s [ContextConnect 0]) (one_frame 7) t"
      and t: "accepted (os t) = [7, 0, 7, 0]" "took_all (os t)"
      and all: "lossless toy_decoder (process_start shutdown_init 0 s [ContextConnect 0]) (one_frame 7) t"
    by (rule one_frame_run [OF s, where x = 7])
  have net: "arrived (one_frame 7) = pushed_frames sent"
    by (simp add: sent arrived_def one_frame_def small_frame_def)
  then have "subseq (arrived (one_frame 7)) (pushed_frames sent)" by simp
  from audio_forwarded [OF toy_encoder_contract server s(1) run this] t all net obtain dev where
    "[7, 0, 7, 0] @ in_flight (mic_pc t) @ remaining toy_decoder (cli t) (dec_state t) =
       pcm_stream toy_decoder (replicate pcm_decbuf_size 0) 0 (packets toy_encoder dev 0 (captured h'))"
    by metis
  with server h' s(1) run t(1) show ?thesis by blast
qed

text \<open>End to end. Audio recorded by a server is carried by RTP to a client. Whatever packets the network
  loses and whatever the client drops from its full queue, there is a list of packets of the captured
  audio, in order, such that what the client's virtual microphone hears is a subsequence of what they
  decode to; and a prefix of it if the reader of the microphone keeps up. If moreover the network loses no
  packet, the queue never overflows and the client is neither stopped nor unhealthy, these are all
  packets: the bytes heard are a prefix of what the packets of the captured audio decode to.\<close>

theorem captured_audio_heard:
  assumes "opus_encode_contract enc" and "server_ok s" and "is_initialised (srv_rtp s)"
    and "record_device fuel pa (data_callback (install_data_callback net enc opus_strerror cbs)) (device s) (b, (s, e, tr), h) =
           Some (res, b1, (s1, e1, tr1), h1)"
    and "pushed_frames tr1 = pushed_frames tr @ sent" and "subseq (concat (map payloads arrivals)) sent"
    and "posix_write pa2" and "playback_queue c = []" and "compressed_queue c = []"
    and "call_virtual_input_setup fuel2 wfuel2 pa2 dec ((c, d, arrivals, False), b2, h2) = Some ((c3, d3, arrivals3, lost), b3, h3)"
  shows "\<exists>new heard kept. h1 = h @ new \<and> accepted h3 = accepted h2 @ heard \<and>
    subseq kept (packets enc (device s) e (captured new)) \<and> subseq heard (pcm_stream dec (pcm_decbuf c) d kept) \<and>
    (writes_fully pa2 \<longrightarrow> prefix heard (pcm_stream dec (pcm_decbuf c) d kept)) \<and>
    (concat (map payloads arrivals) = sent \<and> \<not> lost \<and> \<not> should_stop c \<and> healthy c \<and> writes_fully pa2 \<longrightarrow>
       prefix heard (pcm_stream dec (pcm_decbuf c) d (packets enc (device s) e (captured new))))"
proof -
  from record_packets [OF assms(1-4)] obtain new where new: "h1 = h @ new"
      "pushed_frames tr1 = pushed_frames tr @ packets enc (device s) e (captured new)" by blast
  with assms(5) have sent: "sent = packets enc (device s) e (captured new)" by simp
  have exp: "expected dec (c, d, arrivals, False) = pcm_stream dec (pcm_decbuf c) d (concat (map payloads arrivals))"
    using assms(8,9) by (simp add: expected_def)
  from thread_stream [OF assms(7,10)] obtain heard kept where heard: "accepted h3 = accepted h2 @ heard"
      and kept: "subseq kept (concat (map payloads arrivals))"
      and lossy: "subseq (heard @ playback_queue c3) (pcm_stream dec (pcm_decbuf c) d kept)"
        "writes_fully pa2 \<longrightarrow> heard @ playback_queue c3 = pcm_stream dec (pcm_decbuf c) d kept"
      and exact: "\<not> lost \<and> \<not> should_stop c \<and> healthy c \<and> writes_fully pa2 \<longrightarrow>
        heard @ expected dec (c3, d3, arrivals3, lost) = pcm_stream dec (pcm_decbuf c) d (concat (map payloads arrivals))"
    unfolding assms(8,9) exp by auto
  have "subseq kept (packets enc (device s) e (captured new))"
    using kept assms(6) sent by (metis subseq_order.order_trans)
  moreover have "subseq heard (pcm_stream dec (pcm_decbuf c) d kept)"
    using lossy(1) by (meson list_emb_appendD prefixI prefix_imp_subseq subseq_order.order_trans)
  moreover have "prefix heard (pcm_stream dec (pcm_decbuf c) d kept)" if "writes_fully pa2"
    using lossy(2) that by (metis prefixI)
  moreover have "prefix heard (pcm_stream dec (pcm_decbuf c) d (packets enc (device s) e (captured new)))"
    if "concat (map payloads arrivals) = sent \<and> \<not> lost \<and> \<not> should_stop c \<and> healthy c \<and> writes_fully pa2"
    using exact that sent by (metis prefixI)
  ultimately show ?thesis using new(1) heard by blast
qed

theorem captured_audio_heard_witness:
  "\<exists>b1 s1 e1 tr1 h1 c3 d3 b3 h3.
     record_device 3 mono_pa (Some (server_cb sample_uvg toy_encoder (\<lambda>_. ''bad''))) (toy_device 1)
       (idle_backend, (toy_server 1, 0, []), []) = Some (Inr (), b1, (s1, e1, tr1), h1) \<and>
     call_virtual_input_setup 2 2 one_round_pa toy_decoder
       ((toy_client\<lparr>playback_queue := [], compressed_queue := []\<rparr>, 0, [[\<lparr>payload = Some [7], dgram_size = 13\<rparr>]], False), fresh_backend, []) =
       Some ((c3, d3, [], False), b3, h3) \<and> prefix (accepted h3) [7, 0, 7, 0]"
proof -
  let ?c = "toy_client\<lparr>playback_queue := [], compressed_queue := []\<rparr>"
  let ?fr = "\<lparr>payload = Some [7], dgram_size = 13\<rparr> :: rtp_frame"
  let ?c1 = "?c\<lparr>compressed_queue := [[7]], frames_received := 1\<rparr>"
  have dev: "device (toy_server 1) = toy_device 1" by (simp add: toy_server_def)
  obtain b1 s1 e1 tr1 h1 where rec: "record_device 3 mono_pa (Some (server_cb sample_uvg toy_encoder (\<lambda>_. ''bad''))) (toy_device 1)
       (idle_backend, (toy_server 1, 0, []), []) = Some (Inr (), b1, (s1, e1, tr1), h1)"
      and cap: "captured h1 = [replicate 1920 7]" and pushed: "pushed_frames tr1 = [[7]]"
    using mono_record by blast
  have live: "\<not> should_stop ?c" "healthy ?c" "\<not> should_stop ?c1" "healthy ?c1"
    by (simp_all add: toy_client_def client_init_def)
  have c1: "fst (recv_all [?fr] ?c) = ?c1"
    by (simp add: recv_callback_def toy_client_def client_init_def enqueue_frame_def max_compressed_queue_frames_def)
  obtain n dst' c3 d3 where w: "write_cb toy_decoder (replicate 3840 0) (?c1, 0) = (n, dst', c3, d3)"
    by (metis surj_pair)
  have "remaining toy_decoder ?c1 0 = [7, 0, 7, 0]"
    by (simp add: remaining_def toy_client_def client_init_def toy_pcm del: pcm_stream.simps(2))
  with write_cb_remaining [OF w live(3,4)] have n: "n = 4" by simp
  have "\<not> overflows [?fr] ?c" by (simp add: overflows_def max_compressed_queue_frames_def)
  with w c1 have "live_cb toy_decoder (replicate 3840 0) (?c, 0, [[?fr]], False) = (n, dst', c3, d3, [], False)"
    by (simp only: live_cb_def next_batch_def prod.case list.case Let_def c1 w list.sel) simp
  with one_round [OF this] n obtain b3 h3 where th: "call_virtual_input_setup 2 2 one_round_pa toy_decoder
      ((?c, 0, [[?fr]], False), fresh_backend, []) = Some ((c3, d3, [], False), b3, h3)" by auto
  have "pushed_frames [] = []" by (simp add: pushed_frames_def List.map_filter_def)
  with pushed have sent: "pushed_frames tr1 = pushed_frames [] @ [[7]]" by simp
  have net: "subseq (concat (map payloads [[?fr]])) [[7]]" by simp
  have packets: "packets toy_encoder (toy_device 1) 0 [replicate 1920 7] = [[7]]"
    by (simp add: mono_input toy_encode_dup)
  have "pcm_stream toy_decoder (pcm_decbuf ?c) 0 [[7]] = [7, 0, 7, 0]"
    by (simp add: toy_client_def client_init_def toy_pcm del: pcm_stream.simps(2))
  moreover have "prefix (accepted h3) (pcm_stream toy_decoder (pcm_decbuf ?c) 0 (packets toy_encoder (toy_device 1) 0 (captured h1)))"
    using captured_audio_heard [OF toy_encoder_contract toy_server_ok [of 1], where cbs = "no_callbacks :: (_, unit) callbacks" and fuel = 3
        and pa = mono_pa and net = sample_uvg and opus_strerror = "\<lambda>_. ''bad''", unfolded data_callback_installed dev,
        OF rec sent net one_round_env(1) _ _ th] one_round_env(2) live(1,2)
    by auto
  ultimately have "prefix (accepted h3) [7, 0, 7, 0]" by (simp only: cap packets)
  with rec th show ?thesis by blast
qed

end
